(* ===== verification/TinyCP_Prelude.thy ===== *)
theory TinyCP_Prelude
  imports Main "HOL-Library.Word" "HOL-Library.Monad_Syntax"
begin

text \<open>
  Shared vocabulary of the TinyCP development: names for the fixed-width integers of the
  source, the byte-order functions of the platform (\<^verbatim>\<open>htons\<close>, \<^verbatim>\<open>htonl\<close>, ...), the memory
  image of an integer as \<^verbatim>\<open>memcpy\<close> and \<^verbatim>\<open>reinterpret_cast\<close> see it, the big-endian readers
  that the packet views use, bounded buffer copies, and the generic facts about lists and
  words that the component theories share. The model fixes a little-endian host (the Linux
  x86-64 and AArch64 targets of the TUN device): there the byte-order functions swap bytes and
  an integer is stored low byte first.
\<close>

unbundle bit_operations_syntax

named_theorems endian_simps \<open>byte order, memory images and big-endian readers\<close>
named_theorems stack_simps \<open>projections and frames of the state-changing helpers\<close>

type_synonym u8 = "8 word"
type_synonym u16 = "16 word"
type_synonym u32 = "32 word"
type_synonym u64 = "64 word"
type_synonym bytes = "u8 list"

subsection \<open>Byte order\<close>

text \<open>Two and four bytes put together, the first one most significant.\<close>

definition word_of_bytes :: "u8 \<Rightarrow> u8 \<Rightarrow> u16" where
  "word_of_bytes a b = (push_bit 8 (ucast a) OR ucast b)"

definition dword_of_bytes :: "u8 \<Rightarrow> u8 \<Rightarrow> u8 \<Rightarrow> u8 \<Rightarrow> u32" where
  "dword_of_bytes a b c d = (push_bit 24 (ucast a) OR push_bit 16 (ucast b)
      OR push_bit 8 (ucast c) OR ucast d)"

text \<open>Memory images on a little-endian host.\<close>

definition mem16 :: "u16 \<Rightarrow> bytes" where
  "mem16 w = [ucast w, ucast (drop_bit 8 w)]"

definition mem32 :: "u32 \<Rightarrow> bytes" where
  "mem32 w = [ucast w, ucast (drop_bit 8 w), ucast (drop_bit 16 w), ucast (drop_bit 24 w)]"

text \<open>The byte-order functions of the C library swap the bytes on such a host.\<close>

definition htons :: "u16 \<Rightarrow> u16" where
  "htons w = word_of_bytes (ucast w) (ucast (drop_bit 8 w))"

definition htonl :: "u32 \<Rightarrow> u32" where
  "htonl w = dword_of_bytes (ucast w) (ucast (drop_bit 8 w)) (ucast (drop_bit 16 w))
      (ucast (drop_bit 24 w))"

abbreviation ntohs :: "u16 \<Rightarrow> u16" where
  "ntohs \<equiv> htons"

abbreviation ntohl :: "u32 \<Rightarrow> u32" where
  "ntohl \<equiv> htonl"

text \<open>The big-endian readers of both packet views.\<close>

definition BE16 :: "bytes \<Rightarrow> nat \<Rightarrow> u16" where
  "BE16 bs off = word_of_bytes (bs ! off) (bs ! (off + 1))"

definition BE32 :: "bytes \<Rightarrow> nat \<Rightarrow> u32" where
  "BE32 bs off = dword_of_bytes (bs ! off) (bs ! (off + 1)) (bs ! (off + 2)) (bs ! (off + 3))"

subsection \<open>Copies into a buffer\<close>

text \<open>
  \<^verbatim>\<open>std::copy_n(src, n, out + off)\<close>: the bytes of the destination from \<open>off\<close> on are replaced;
  a copy that leaves the destination is undefined behaviour, here \<open>None\<close>.
\<close>

definition copy_n :: "bytes \<Rightarrow> bytes \<Rightarrow> nat \<Rightarrow> bytes option" where
  "copy_n src out off =
     (if off + length src \<le> length out
      then Some (take off out @ src @ drop (off + length src) out) else None)"

lemma copy_n_front:
  "length src \<le> length out \<Longrightarrow> copy_n src out 0 = Some (src @ drop (length src) out)"
  by (simp add: copy_n_def)

lemma copy_n_after:
  "length src \<le> length rest \<Longrightarrow>
   copy_n src (pre @ rest) (length pre) = Some (pre @ src @ drop (length src) rest)"
  by (simp add: copy_n_def)

subsection \<open>Ranges and widening\<close>

lemma unat_bounds [simp]:
  "unat (a :: u8) < 256" "unat (b :: u16) < 65536" "unat (c :: u32) < 4294967296"
  "unat (a :: u8) \<le> 255" "unat (b :: u16) \<le> 65535" "unat (c :: u32) \<le> 4294967295"
  using unsigned_less [of a, where ?'a = nat] unsigned_less [of b, where ?'a = nat]
    unsigned_less [of c, where ?'a = nat]
  by simp_all

lemma unat_widen [simp]:
  "unat (ucast (a :: u8) :: u16) = unat a" "unat (ucast (a :: u8) :: u32) = unat a"
  "unat (ucast (b :: u16) :: u32) = unat b"
  by (simp_all add: unsigned_ucast_eq take_bit_nat_eq_self_iff less_trans [OF unat_bounds(1)]
      less_trans [OF unat_bounds(2)])

lemma unat_of_nat_small:
  "n < 65536 \<Longrightarrow> unat (of_nat n :: u16) = n"
  "n < 4294967296 \<Longrightarrow> unat (of_nat n :: u32) = n"
  by (simp_all add: unsigned_of_nat take_bit_nat_eq_self)

subsection \<open>Facts about byte order\<close>

lemma word_of_bytes_parts [simp, endian_simps]:
  "ucast (word_of_bytes a b) = b"
  "ucast (drop_bit 8 (word_of_bytes a b)) = a"
  by (rule bit_word_eqI; auto simp: word_of_bytes_def bit_simps dest: bit_imp_le_length)+

lemma word_of_bytes_collapse [simp, endian_simps]:
  "word_of_bytes (ucast (drop_bit 8 w)) (ucast w) = w"
  by (rule bit_word_eqI) (auto simp: word_of_bytes_def bit_simps)

lemma dword_of_bytes_parts [simp, endian_simps]:
  "ucast (dword_of_bytes a b c d) = d"
  "ucast (drop_bit 8 (dword_of_bytes a b c d)) = c"
  "ucast (drop_bit 16 (dword_of_bytes a b c d)) = b"
  "ucast (drop_bit 24 (dword_of_bytes a b c d)) = a"
  by (rule bit_word_eqI; auto simp: dword_of_bytes_def bit_simps dest: bit_imp_le_length)+

lemma dword_of_bytes_collapse [simp, endian_simps]:
  "dword_of_bytes (ucast (drop_bit 24 w)) (ucast (drop_bit 16 w)) (ucast (drop_bit 8 w)) (ucast w) = w"
proof (rule bit_word_eqI)
  fix n :: nat
  assume n: "n < LENGTH(32)"
  consider "n < 8" | "8 \<le> n" "n < 16" | "16 \<le> n" "n < 24" | "24 \<le> n" by linarith
  then show "bit (dword_of_bytes (ucast (drop_bit 24 w)) (ucast (drop_bit 16 w))
      (ucast (drop_bit 8 w)) (ucast w)) n = bit w n"
    using n by cases (auto simp: dword_of_bytes_def bit_simps)
qed

lemma htons_htons [simp, endian_simps]: "htons (htons w) = w"
  by (simp add: htons_def)

lemma htonl_htonl [simp, endian_simps]: "htonl (htonl w) = w"
  by (simp add: htonl_def)

lemma mem16_htons [simp, endian_simps]: "mem16 (htons w) = [ucast (drop_bit 8 w), ucast w]"
  by (simp add: mem16_def htons_def)

lemma mem32_htonl [simp, endian_simps]:
  "mem32 (htonl w) = [ucast (drop_bit 24 w), ucast (drop_bit 16 w), ucast (drop_bit 8 w), ucast w]"
  by (simp add: mem32_def htonl_def)

lemma length_mem [simp, endian_simps]: "length (mem16 w) = 2" "length (mem32 v) = 4"
  by (simp_all add: mem16_def mem32_def)

lemma unat_word_of_bytes: "unat (word_of_bytes a b) = 256 * unat a + unat b"
proof -
  have "push_bit 8 (ucast a :: u16) AND ucast b = 0"
    by (rule bit_word_eqI) (auto simp: bit_simps dest: bit_imp_le_length)
  then have "word_of_bytes a b = push_bit 8 (ucast a) + ucast b"
    by (simp add: word_of_bytes_def disjunctive_add_eq_or)
  moreover have "256 * unat a + unat b < 65536"
    using unat_bounds(1) [of a] unat_bounds(1) [of b] by linarith
  ultimately show ?thesis
    by (simp add: push_bit_eq_mult unat_word_ariths)
qed

subsection \<open>The bit masks of the source\<close>

named_theorems mask_simps \<open>numeric bit masks as bit slices\<close>

lemma low_masks [mask_simps]:
  "(w :: u8) AND 0x0F = take_bit 4 w" "(w :: u8) AND 0x07 = take_bit 3 w"
  "(v :: u16) AND 0x1FFF = take_bit 13 v" "(v :: u16) AND 0x0FFF = take_bit 12 v"
  "(v :: u16) AND 0x003F = take_bit 6 v"
  by (simp_all add: take_bit_eq_mask mask_eq_exp_minus_1)

lemma and_push_mask:
  fixes w :: "'a :: len word"
  assumes "LENGTH('a) \<le> n + m"
  shows "w AND push_bit n (mask m) = push_bit n (drop_bit n w)"
  using assms by (auto intro!: bit_word_eqI simp: bit_simps)

lemma high_masks [mask_simps]:
  "(w :: u8) AND 0xF0 = push_bit 4 (drop_bit 4 w)"
  "(v :: u16) AND 0xE000 = push_bit 13 (drop_bit 13 v)"
  "(v :: u16) AND 0xFFC0 = push_bit 6 (drop_bit 6 v)"
  using and_push_mask [of 4 4 w] and_push_mask [of 13 3 v] and_push_mask [of 6 10 v]
  by (simp_all only: mask_eq_exp_minus_1 push_bit_eq_mult) simp_all

lemma and_one_neq_0 [mask_simps]: "drop_bit n (w :: u16) AND 1 \<noteq> 0 \<longleftrightarrow> bit w n"
  by (simp add: and_one_eq bit_iff_odd_drop_bit odd_iff_mod_2_eq_one)

lemma and_one_neq_0' [mask_simps]: "(w :: u16) AND 1 \<noteq> 0 \<longleftrightarrow> bit w 0"
  using and_one_neq_0 [of 0 w] by simp

lemma slices [mask_simps]:
  fixes w :: "'a :: len word"
  shows "drop_bit n (take_bit n w) = 0"
    and "take_bit n (push_bit n w) = 0"
    and "drop_bit n (push_bit n (drop_bit n w)) = drop_bit n w"
    and "n + m \<le> LENGTH('a) \<Longrightarrow> drop_bit n (push_bit n (take_bit m w)) = take_bit m w"
  by (auto intro!: bit_word_eqI simp: bit_simps dest: bit_imp_le_length)

lemma ucast_slices [mask_simps]:
  fixes f :: u8
  shows "m \<le> 3 \<Longrightarrow> drop_bit 13 (push_bit 13 (ucast (take_bit m f)) :: u16) = ucast (take_bit m f)"
    and "m \<le> 4 \<Longrightarrow> drop_bit 12 (push_bit 12 (ucast (take_bit m f)) :: u16) = ucast (take_bit m f)"
    and "ucast (ucast f :: u16) = f"
  by (auto intro!: bit_word_eqI simp: bit_simps dest: bit_imp_le_length)

subsection \<open>Positions modulo a size\<close>

lemma mod_shift_neq:
  assumes "i < j" and "j < i + n"
  shows "(a + i) mod n \<noteq> (a + j) mod (n :: nat)"
proof
  assume "(a + i) mod n = (a + j) mod n"
  then have "n dvd (a + j) - (a + i)"
    using assms(1) by (metis add_left_mono less_imp_le mod_eq_dvd_iff_nat)
  with assms show False by (auto dest: dvd_imp_le)
qed

lemma mod_add_Suc: "(a mod n + i) mod n = (a + i) mod (n :: nat)"
  by (simp add: mod_add_left_eq)

end
