(* ===== verification/Blocking_Buffer.thy ===== *)
theory Blocking_Buffer
  imports TinyCP_Prelude
begin

text \<open>
  \<^verbatim>\<open>BlockingBuffer.h\<close>: the ring buffer behind every socket's send and receive queue. The array is
  a function from positions to elements, its length the template parameter \<open>Size\<close>; positions
  are always reduced modulo \<open>Size\<close>. \<^verbatim>\<open>write\<close> and \<^verbatim>\<open>read\<close> wait on a condition variable: when the
  wait predicate is false the caller blocks, which is the result \<open>None\<close>. Reads return the list
  of elements they store into the caller's span.

  The locale \<open>stream_buffer\<close> is the contract the TCP code relies on: the buffer holds a
  sequence, writes append a prefix of their argument, reads and discards remove a prefix, peeks
  look at a slice. The ring buffer implements it, and from the contract every run of operations
  is first-in first-out.
\<close>

record 'a BlockingBuffer =
  is_forcefully_woken_up :: bool
  read_pos :: nat
  write_pos :: nat
  curr_len :: nat
  buffer :: "nat \<Rightarrow> 'a"

text \<open>A fresh buffer; the array's initial contents are unspecified and given by the argument.\<close>

definition BlockingBuffer_new :: "(nat \<Rightarrow> 'a) \<Rightarrow> 'a BlockingBuffer" where
  "BlockingBuffer_new init = \<lparr>is_forcefully_woken_up = False, read_pos = 0, write_pos = 0,
     curr_len = 0, buffer = init\<rparr>"

definition force_wake_up :: "'a BlockingBuffer \<Rightarrow> 'a BlockingBuffer" where
  "force_wake_up b = b\<lparr>is_forcefully_woken_up := True\<rparr>"

text \<open>The copy loops.\<close>

fun store_loop :: "nat \<Rightarrow> 'a list \<Rightarrow> (nat \<Rightarrow> 'a) \<Rightarrow> nat \<Rightarrow> (nat \<Rightarrow> 'a) \<times> nat" where
  "store_loop Size [] buf pos = (buf, pos)"
| "store_loop Size (x # xs) buf pos = store_loop Size xs (buf(pos := x)) ((pos + 1) mod Size)"

fun load_loop :: "nat \<Rightarrow> nat \<Rightarrow> (nat \<Rightarrow> 'a) \<Rightarrow> nat \<Rightarrow> 'a list \<times> nat" where
  "load_loop Size 0 buf pos = ([], pos)"
| "load_loop Size (Suc n) buf pos =
     (let (xs, pos') = load_loop Size n buf ((pos + 1) mod Size) in (buf pos # xs, pos'))"

definition BlockingBuffer_write ::
  "nat \<Rightarrow> 'a BlockingBuffer \<Rightarrow> 'a list \<Rightarrow> ('a BlockingBuffer \<times> nat) option" where
  "BlockingBuffer_write Size b data =
     (if \<not> (curr_len b < Size \<or> is_forcefully_woken_up b) then None
      else
        let available = Size - curr_len b;
            count = min (length data) available;
            (buf, pos) = store_loop Size (take count data) (buffer b) (write_pos b)
        in Some (b\<lparr>buffer := buf, write_pos := pos, curr_len := curr_len b + count\<rparr>, count))"

definition take_front :: "nat \<Rightarrow> 'a BlockingBuffer \<Rightarrow> nat \<Rightarrow> 'a BlockingBuffer \<times> 'a list" where
  "take_front Size b n =
     (let available = curr_len b;
          count = min n available;
          (xs, pos) = load_loop Size count (buffer b) (read_pos b)
      in (b\<lparr>read_pos := pos, curr_len := curr_len b - count\<rparr>, xs))"

definition BlockingBuffer_read ::
  "nat \<Rightarrow> 'a BlockingBuffer \<Rightarrow> nat \<Rightarrow> ('a BlockingBuffer \<times> 'a list) option" where
  "BlockingBuffer_read Size b n =
     (if \<not> (curr_len b > 0 \<or> is_forcefully_woken_up b) then None
      else Some (take_front Size b n))"

definition BlockingBuffer_try_read ::
  "nat \<Rightarrow> 'a BlockingBuffer \<Rightarrow> nat \<Rightarrow> 'a BlockingBuffer \<times> 'a list" where
  "BlockingBuffer_try_read Size b n = (if curr_len b = 0 then (b, []) else take_front Size b n)"

definition BlockingBuffer_peek :: "nat \<Rightarrow> 'a BlockingBuffer \<Rightarrow> nat \<Rightarrow> nat \<Rightarrow> 'a list" where
  "BlockingBuffer_peek Size b n offset =
     (if offset \<ge> curr_len b then []
      else
        let available = curr_len b - offset;
            count = min n available;
            pos = (read_pos b + offset) mod Size
        in fst (load_loop Size count (buffer b) pos))"

definition BlockingBuffer_discard ::
  "nat \<Rightarrow> 'a BlockingBuffer \<Rightarrow> nat \<Rightarrow> 'a BlockingBuffer \<times> nat" where
  "BlockingBuffer_discard Size b count =
     (let to_discard = min count (curr_len b)
      in (b\<lparr>read_pos := (read_pos b + to_discard) mod Size, curr_len := curr_len b - to_discard\<rparr>,
          to_discard))"

definition BlockingBuffer_size :: "'a BlockingBuffer \<Rightarrow> nat" where
  "BlockingBuffer_size b = curr_len b"

definition BlockingBuffer_available_capacity :: "nat \<Rightarrow> 'a BlockingBuffer \<Rightarrow> nat" where
  "BlockingBuffer_available_capacity Size b = Size - curr_len b"

text \<open>Well-formed ring buffers and the sequence one holds.\<close>

definition BlockingBuffer_inv :: "nat \<Rightarrow> 'a BlockingBuffer \<Rightarrow> bool" where
  "BlockingBuffer_inv Size b \<longleftrightarrow> 0 < Size \<and> read_pos b < Size \<and> curr_len b \<le> Size
     \<and> write_pos b = (read_pos b + curr_len b) mod Size"

definition contents :: "nat \<Rightarrow> 'a BlockingBuffer \<Rightarrow> 'a list" where
  "contents Size b = map (\<lambda>i. buffer b ((read_pos b + i) mod Size)) [0..<curr_len b]"

text \<open>A run of buffer operations: the elements accepted by writes and those removed by reads.\<close>

datatype 'a buffer_op = Write "'a list" | Read nat | Try_read nat | Discard nat | Wake

fun buffer_step :: "nat \<Rightarrow> 'a BlockingBuffer \<Rightarrow> 'a buffer_op
    \<Rightarrow> ('a BlockingBuffer \<times> 'a list \<times> 'a list) option" where
  "buffer_step Size b (Write data) =
     map_option (\<lambda>(b', n). (b', take n data, [])) (BlockingBuffer_write Size b data)"
| "buffer_step Size b (Read n) = map_option (\<lambda>(b', xs). (b', [], xs)) (BlockingBuffer_read Size b n)"
| "buffer_step Size b (Try_read n) =
     (let (b', xs) = BlockingBuffer_try_read Size b n in Some (b', [], xs))"
| "buffer_step Size b (Discard n) =
     (let (b', k) = BlockingBuffer_discard Size b n in Some (b', [], take k (contents Size b)))"
| "buffer_step Size b Wake = Some (force_wake_up b, [], [])"

fun buffer_run :: "nat \<Rightarrow> 'a BlockingBuffer \<Rightarrow> 'a buffer_op list
    \<Rightarrow> ('a BlockingBuffer \<times> 'a list \<times> 'a list) option" where
  "buffer_run Size b [] = Some (b, [], [])"
| "buffer_run Size b (op # ops) = do {
     (b, ins, outs) \<leftarrow> buffer_step Size b op;
     (b, ins', outs') \<leftarrow> buffer_run Size b ops;
     Some (b, ins @ ins', outs @ outs')
   }"

subsection \<open>The contract\<close>

locale stream_buffer =
  fixes inv :: "'b \<Rightarrow> bool"
    and seq :: "'b \<Rightarrow> 'a list"
    and capacity :: nat
    and woken :: "'b \<Rightarrow> bool"
    and wr :: "'b \<Rightarrow> 'a list \<Rightarrow> ('b \<times> nat) option"
    and rd :: "'b \<Rightarrow> nat \<Rightarrow> ('b \<times> 'a list) option"
    and peek :: "'b \<Rightarrow> nat \<Rightarrow> nat \<Rightarrow> 'a list"
    and disc :: "'b \<Rightarrow> nat \<Rightarrow> 'b \<times> nat"
  assumes bounded: "inv b \<Longrightarrow> length (seq b) \<le> capacity"
    and wr_blocks: "inv b \<Longrightarrow> wr b xs = None \<longleftrightarrow> length (seq b) = capacity \<and> \<not> woken b"
    and wr_seq: "inv b \<Longrightarrow> wr b xs = Some (b', n) \<Longrightarrow>
        inv b' \<and> n = min (length xs) (capacity - length (seq b)) \<and> seq b' = seq b @ take n xs"
    and rd_blocks: "inv b \<Longrightarrow> rd b m = None \<longleftrightarrow> seq b = [] \<and> \<not> woken b"
    and rd_seq: "inv b \<Longrightarrow> rd b m = Some (b', ys) \<Longrightarrow>
        inv b' \<and> ys = take m (seq b) \<and> seq b' = drop m (seq b)"
    and peek_seq: "inv b \<Longrightarrow> peek b m off = take m (drop off (seq b))"
    and disc_seq: "inv b \<Longrightarrow> disc b m = (b', n) \<Longrightarrow>
        inv b' \<and> n = min m (length (seq b)) \<and> seq b' = drop m (seq b)"
begin

text \<open>Every operation conserves the stream: what was held, followed by what came in, is what
  went out, followed by what is held.\<close>

lemma wr_conserves: "inv b \<Longrightarrow> wr b xs = Some (b', n) \<Longrightarrow> seq b @ take n xs = [] @ seq b'"
  by (simp add: wr_seq)

lemma rd_conserves: "inv b \<Longrightarrow> rd b m = Some (b', ys) \<Longrightarrow> seq b @ [] = ys @ seq b'"
  by (drule (1) rd_seq) simp

lemma disc_conserves: "inv b \<Longrightarrow> disc b m = (b', n) \<Longrightarrow> seq b @ [] = take n (seq b) @ seq b'"
  by (drule (1) disc_seq) (auto simp: min_def)

text \<open>A write that is not cut short can be read back whole.\<close>

lemma write_read_back:
  assumes "inv b" and "seq b = []" and "length xs \<le> capacity" and "xs \<noteq> []"
  shows "\<exists>b' b''. wr b xs = Some (b', length xs) \<and> rd b' (length xs) = Some (b'', xs) \<and> seq b'' = []"
proof -
  have "wr b xs \<noteq> None" using assms wr_blocks [OF assms(1)] by (cases xs) auto
  then obtain b' n where w: "wr b xs = Some (b', n)" by auto
  with assms have b': "inv b'" "n = length xs" "seq b' = xs" using wr_seq [OF assms(1) w] by auto
  then have "rd b' (length xs) \<noteq> None" using rd_blocks [OF b'(1)] assms(4) by simp
  then obtain b'' ys where r: "rd b' (length xs) = Some (b'', ys)" by auto
  with b' show ?thesis using w rd_seq [OF b'(1) r] by auto
qed

text \<open>Discarding what was peeked at offset zero is reading it.\<close>

lemma peek_then_discard:
  assumes "inv b" and "disc b (length (peek b m 0)) = (b', n)"
  shows "seq b = peek b m 0 @ seq b'"
  using disc_seq [OF assms] assms(1) by (auto simp: peek_seq min_def)

end

subsection \<open>The ring buffer implements the contract\<close>

lemma store_loop_pos:
  "0 < Size \<Longrightarrow> pos < Size \<Longrightarrow> snd (store_loop Size xs buf pos) = (pos + length xs) mod Size"
  by (induction Size xs buf pos rule: store_loop.induct) (simp_all add: mod_add_Suc)

lemma store_loop_other:
  assumes "\<forall>j < length xs. k \<noteq> (pos + j) mod Size" and "0 < Size" and "pos < Size"
  shows "fst (store_loop Size xs buf pos) k = buf k"
  using assms
proof (induction Size xs buf pos rule: store_loop.induct)
  case (2 Size x xs buf pos)
  have "k \<noteq> ((pos + 1) mod Size + j) mod Size" if "j < length xs" for j
    using that 2(2) [rule_format, of "Suc j"] by (simp add: mod_add_Suc)
  moreover have "k \<noteq> pos" using 2(2) [rule_format, of 0] 2(4) by simp
  ultimately show ?case using 2(1,3) by (simp add: fun_upd_def)
qed simp

lemma store_loop_stored:
  assumes "j < length xs" and "length xs \<le> Size" and "pos < Size"
  shows "fst (store_loop Size xs buf pos) ((pos + j) mod Size) = xs ! j"
  using assms
proof (induction Size xs buf pos arbitrary: j rule: store_loop.induct)
  case (2 Size x xs buf pos)
  then have S: "0 < Size" by simp
  show ?case
  proof (cases j)
    case 0
    have "pos \<noteq> ((pos + 1) mod Size + i) mod Size" if "i < length xs" for i
      using mod_shift_neq [of 0 "Suc i" Size pos] that 2(3,4) by (simp add: mod_add_Suc)
    then show ?thesis using 0 2(4) S by (simp add: store_loop_other)
  next
    case (Suc i)
    then show ?thesis using 2(1) [of i] 2(2-4) S by (simp add: mod_add_Suc fun_upd_def)
  qed
qed simp

lemma load_loop_eq:
  "0 < Size \<Longrightarrow> pos < Size \<Longrightarrow> load_loop Size n buf pos =
     (map (\<lambda>i. buf ((pos + i) mod Size)) [0..<n], (pos + n) mod Size)"
proof (induction n arbitrary: pos)
  case (Suc n)
  have "map (\<lambda>i. buf ((pos + i) mod Size)) [0..<Suc n] =
      buf (pos mod Size) # map (\<lambda>i. buf (Suc (pos + i) mod Size)) [0..<n]"
    by (subst map_upt_Suc) simp
  with Suc show ?case by (simp add: mod_add_Suc del: upt_Suc)
qed simp

lemma length_contents [simp]: "length (contents Size b) = curr_len b"
  by (simp add: contents_def)

lemma contents_slice:
  assumes "off + n \<le> curr_len b"
  shows "map (\<lambda>i. buffer b ((read_pos b + off + i) mod Size)) [0..<n] =
    take n (drop off (contents Size b))"
  using assms by (intro nth_equalityI) (auto simp: contents_def add.assoc)

lemma inv_write:
  assumes "BlockingBuffer_inv Size b" and "BlockingBuffer_write Size b data = Some (b', n)"
  shows "BlockingBuffer_inv Size b' \<and> n = min (length data) (Size - length (contents Size b))
    \<and> contents Size b' = contents Size b @ take n data"
proof -
  let ?n = "min (length data) (Size - curr_len b)"
  let ?st = "store_loop Size (take ?n data) (buffer b) (write_pos b)"
  from assms(1) have i: "0 < Size" "read_pos b < Size" "curr_len b \<le> Size"
      "write_pos b = (read_pos b + curr_len b) mod Size" "write_pos b < Size"
    by (auto simp: BlockingBuffer_inv_def)
  from assms(2) have b': "b' = b\<lparr>buffer := fst ?st, write_pos := snd ?st, curr_len := curr_len b + ?n\<rparr>"
      and n: "n = ?n"
    by (auto simp: BlockingBuffer_write_def Let_def split: if_splits prod.splits)
  have "BlockingBuffer_inv Size b'"
    using i by (simp add: b' BlockingBuffer_inv_def store_loop_pos mod_add_Suc add.assoc)
  moreover have "contents Size b' = contents Size b @ take n data"
  proof (rule nth_equalityI)
    fix k assume "k < length (contents Size b')"
    then have k: "k < curr_len b + ?n" by (simp add: b')
    let ?p = "(read_pos b + k) mod Size"
    have nth: "contents Size b' ! k = fst ?st ?p"
      using k by (simp add: contents_def b')
    show "contents Size b' ! k = (contents Size b @ take n data) ! k"
    proof (cases "k < curr_len b")
      case True
      have "?p \<noteq> (write_pos b + j) mod Size" if "j < length (take ?n data)" for j
      proof -
        have "k < curr_len b + j" "curr_len b + j < k + Size" using True that by auto
        then show ?thesis
          using mod_shift_neq [of k "curr_len b + j" Size "read_pos b"]
          by (simp add: i(4) mod_add_Suc add.assoc)
      qed
      then have "fst ?st ?p = buffer b ?p" using i by (simp add: store_loop_other)
      with True nth show ?thesis by (simp add: nth_append contents_def)
    next
      case False
      then have "?p = (write_pos b + (k - curr_len b)) mod Size"
        using mod_add_Suc [of "read_pos b + curr_len b" Size "k - curr_len b"] by (simp add: i(4))
      moreover have "k - curr_len b < ?n" using False k by linarith
      ultimately have "fst ?st ?p = take ?n data ! (k - curr_len b)"
        using store_loop_stored [of "k - curr_len b" "take ?n data" Size "write_pos b"] i(3,5) by simp
      with False nth show ?thesis by (simp add: nth_append n)
    qed
  qed (simp add: b' n)
  ultimately show ?thesis using n by simp
qed

lemma inv_take_front:
  assumes "BlockingBuffer_inv Size b" and "take_front Size b n = (b', xs)"
  shows "BlockingBuffer_inv Size b' \<and> xs = take n (contents Size b)
    \<and> contents Size b' = drop n (contents Size b)"
proof -
  let ?n = "min n (curr_len b)"
  from assms(1) have i: "0 < Size" "read_pos b < Size" "curr_len b \<le> Size"
      "write_pos b = (read_pos b + curr_len b) mod Size"
    by (auto simp: BlockingBuffer_inv_def)
  from assms(2) have b': "b' = b\<lparr>read_pos := (read_pos b + ?n) mod Size, curr_len := curr_len b - ?n\<rparr>"
      and xs: "xs = map (\<lambda>i. buffer b ((read_pos b + i) mod Size)) [0..<?n]"
    using i by (auto simp: take_front_def load_loop_eq Let_def)
  have "((read_pos b + ?n) mod Size + (curr_len b - ?n)) mod Size = (read_pos b + curr_len b) mod Size"
    by (simp only: mod_add_Suc) simp
  then have "BlockingBuffer_inv Size b'"
    using i by (auto simp: b' BlockingBuffer_inv_def)
  moreover have "xs = take n (contents Size b)"
    using contents_slice [of 0 ?n b Size] by (simp add: xs min_def)
  moreover have "contents Size b' = drop n (contents Size b)"
    by (rule nth_equalityI) (auto simp: b' contents_def mod_add_Suc add.assoc min_def)
  ultimately show ?thesis by simp
qed

lemma inv_discard:
  assumes "BlockingBuffer_inv Size b" and "BlockingBuffer_discard Size b n = (b', k)"
  shows "BlockingBuffer_inv Size b' \<and> k = min n (length (contents Size b))
    \<and> contents Size b' = drop n (contents Size b)"
  using inv_take_front [OF assms(1), of n] assms
  by (auto simp: BlockingBuffer_discard_def take_front_def load_loop_eq BlockingBuffer_inv_def Let_def)

lemma peek_eq:
  assumes "BlockingBuffer_inv Size b"
  shows "BlockingBuffer_peek Size b n off = take n (drop off (contents Size b))"
proof (cases "off \<ge> curr_len b")
  case False
  then have "BlockingBuffer_peek Size b n off =
      map (\<lambda>i. buffer b ((read_pos b + off + i) mod Size)) [0..<min n (curr_len b - off)]"
    using assms by (simp add: BlockingBuffer_peek_def Let_def load_loop_eq BlockingBuffer_inv_def mod_add_Suc)
  also have "\<dots> = take (min n (curr_len b - off)) (drop off (contents Size b))"
    using False by (intro contents_slice) simp
  finally show ?thesis by (simp add: min_def)
qed (simp add: BlockingBuffer_peek_def)

interpretation rb: stream_buffer "BlockingBuffer_inv Size" "contents Size" Size
  is_forcefully_woken_up "BlockingBuffer_write Size" "BlockingBuffer_read Size"
  "BlockingBuffer_peek Size" "BlockingBuffer_discard Size" for Size :: nat
proof (unfold_locales, goal_cases)
  case (1 b)
  then show ?case by (simp add: BlockingBuffer_inv_def)
next
  case (2 b xs)
  then show ?case by (auto simp: BlockingBuffer_inv_def BlockingBuffer_write_def Let_def split: prod.splits)
next
  case (3 b xs b' n)
  then show ?case by (rule inv_write)
next
  case (4 b m)
  then show ?case
    by (auto simp: BlockingBuffer_read_def simp flip: length_0_conv [of "contents Size b"])
next
  case (5 b m b' ys)
  then show ?case by (intro inv_take_front) (auto simp: BlockingBuffer_read_def split: if_splits)
next
  case (6 b m off)
  then show ?case by (rule peek_eq)
next
  case (7 b m b' n)
  then show ?case by (rule inv_discard)
qed

subsection \<open>Properties of the ring buffer\<close>

lemma try_read_eq:
  assumes "BlockingBuffer_inv Size b" and "BlockingBuffer_try_read Size b n = (b', xs)"
  shows "BlockingBuffer_inv Size b' \<and> xs = take n (contents Size b)
    \<and> contents Size b' = drop n (contents Size b)"
proof (cases "curr_len b = 0")
  case True
  then have "contents Size b = []" by (simp flip: length_0_conv)
  with True assms show ?thesis by (auto simp: BlockingBuffer_try_read_def)
next
  case False
  with assms show ?thesis by (intro inv_take_front) (simp_all add: BlockingBuffer_try_read_def)
qed

lemma wake_up_simps [simp]:
  "contents Size (force_wake_up b) = contents Size b"
  "BlockingBuffer_inv Size (force_wake_up b) = BlockingBuffer_inv Size b"
  "curr_len (force_wake_up b) = curr_len b"
  by (simp_all add: force_wake_up_def contents_def BlockingBuffer_inv_def)

lemma BlockingBuffer_new_inv [simp]:
  "0 < Size \<Longrightarrow> BlockingBuffer_inv Size (BlockingBuffer_new init)"
  "contents Size (BlockingBuffer_new init) = []"
  "curr_len (BlockingBuffer_new init) = 0"
  "is_forcefully_woken_up (BlockingBuffer_new init) = False"
  by (simp_all add: BlockingBuffer_inv_def BlockingBuffer_new_def contents_def)

lemma buffer_step_conserves:
  assumes "BlockingBuffer_inv Size b" and "buffer_step Size b op = Some (b', ins, outs)"
  shows "BlockingBuffer_inv Size b' \<and> contents Size b @ ins = outs @ contents Size b'"
proof (cases op)
  case (Write xs)
  with assms(2) obtain n where "BlockingBuffer_write Size b xs = Some (b', n)" "ins = take n xs" "outs = []"
    by auto
  then show ?thesis using rb.wr_seq [OF assms(1)] by simp
next
  case (Read m)
  with assms(2) have "BlockingBuffer_read Size b m = Some (b', outs)" "ins = []" by auto
  then show ?thesis using rb.rd_seq [OF assms(1)] rb.rd_conserves [OF assms(1)] by auto
next
  case (Try_read m)
  with assms(2) have "BlockingBuffer_try_read Size b m = (b', outs)" "ins = []"
    by (auto split: prod.splits)
  then show ?thesis using try_read_eq [OF assms(1), of m b' outs] by simp
next
  case (Discard m)
  with assms(2) obtain k where "BlockingBuffer_discard Size b m = (b', k)" "ins = []"
      "outs = take k (contents Size b)"
    by (auto split: prod.splits)
  then show ?thesis using rb.disc_seq [OF assms(1)] rb.disc_conserves [OF assms(1)] by auto
next
  case Wake
  with assms show ?thesis by auto
qed

text \<open>First in, first out: over any run of writes, reads, discards and wake-ups that does
  not block, the elements that were in the buffer followed by all elements accepted by writes
  are exactly the elements removed, in order, followed by those still held; the ring stays
  well formed.\<close>

lemma buffer_run_conserves:
  assumes "BlockingBuffer_inv Size b" and "buffer_run Size b ops = Some (b', ins, outs)"
  shows "BlockingBuffer_inv Size b' \<and> contents Size b @ ins = outs @ contents Size b'"
  using assms
proof (induction ops arbitrary: b ins outs)
  case (Cons op ops)
  then obtain c i o' i' o'' where s: "buffer_step Size b op = Some (c, i, o')"
      and r: "buffer_run Size c ops = Some (b', i', o'')" "ins = i @ i'" "outs = o' @ o''"
    by (auto simp: bind_eq_Some_conv)
  from buffer_step_conserves [OF Cons.prems(1) s]
  have c: "BlockingBuffer_inv Size c" and e: "contents Size b @ i = o' @ contents Size c" by auto
  have "contents Size b @ ins = o' @ contents Size c @ i'" using e r(2) by (metis append_assoc)
  also have "\<dots> = outs @ contents Size b'" using Cons.IH [OF c r(1)] r(3) by simp
  finally show ?case using Cons.IH [OF c r(1)] by simp
qed simp

text \<open>The blocking contract: on a well-formed ring, \<^verbatim>\<open>write\<close> blocks exactly when the ring is
  full and not woken up, \<^verbatim>\<open>read\<close> exactly when it is empty and not woken up; a write that does
  not block stores the longest prefix that fits, and free capacity and size always add up.\<close>

theorem BlockingBuffer_blocking:
  assumes "BlockingBuffer_inv Size b"
  shows "(BlockingBuffer_write Size b xs = None \<longleftrightarrow>
      BlockingBuffer_available_capacity Size b = 0 \<and> \<not> is_forcefully_woken_up b)
    \<and> (BlockingBuffer_read Size b m = None \<longleftrightarrow>
      BlockingBuffer_size b = 0 \<and> \<not> is_forcefully_woken_up b)
    \<and> (BlockingBuffer_write Size b xs \<noteq> None \<longrightarrow>
      (\<exists>b'. BlockingBuffer_write Size b xs =
         Some (b', min (length xs) (BlockingBuffer_available_capacity Size b))))
    \<and> BlockingBuffer_size b + BlockingBuffer_available_capacity Size b = Size"
proof -
  have "curr_len b \<le> Size" using assms by (simp add: BlockingBuffer_inv_def)
  moreover have "BlockingBuffer_write Size b xs \<noteq> None \<longrightarrow>
      (\<exists>b'. BlockingBuffer_write Size b xs = Some (b', min (length xs) (Size - curr_len b)))"
    using rb.wr_seq [OF assms] by fastforce
  ultimately show ?thesis
    using rb.wr_blocks [OF assms, of xs] rb.rd_blocks [OF assms, of m]
    by (auto simp: BlockingBuffer_size_def BlockingBuffer_available_capacity_def
        simp flip: length_0_conv [of "contents Size b"])
qed

theorem BlockingBuffer_blocking_witness:
  "BlockingBuffer_inv 3 (BlockingBuffer_new (\<lambda>_. 0 :: nat)) \<and>
   BlockingBuffer_read 3 (BlockingBuffer_new (\<lambda>_. 0 :: nat)) 1 = None \<and>
   BlockingBuffer_write 3 (BlockingBuffer_new (\<lambda>_. 0 :: nat)) [7] \<noteq> None"
proof -
  have inv: "BlockingBuffer_inv 3 (BlockingBuffer_new (\<lambda>_. 0 :: nat))" by simp
  show ?thesis
    using inv BlockingBuffer_blocking [OF inv, of "[7]" 1]
    by (simp add: BlockingBuffer_size_def BlockingBuffer_available_capacity_def)
qed

end
