(* ===== verification/Text_Streams.thy ===== *)
theory Text_Streams
  imports TinyCP_Prelude
begin

text \<open>
  What the source uses of the C++ stream library: formatted extraction of unsigned integers and
  characters from a \<^verbatim>\<open>std::stringstream\<close> in the default locale (whitespace is skipped, an optional
  sign is accepted, a value too large for the target sets the stream's failure flag and stores
  the maximum, a negated value wraps), and formatted insertion of integers in decimal and in
  zero-padded hexadecimal. A stream is the text that is left to read. The lemmas relate
  extraction and insertion.
\<close>

subsection \<open>Extraction\<close>

definition is_space :: "char \<Rightarrow> bool" where
  "is_space c \<longleftrightarrow> c = CHR '' '' \<or> (9 \<le> (of_char c :: nat) \<and> (of_char c :: nat) \<le> 13)"

definition is_digit :: "char \<Rightarrow> bool" where
  "is_digit c \<longleftrightarrow> 48 \<le> (of_char c :: nat) \<and> (of_char c :: nat) \<le> 57"

definition digit_value :: "char \<Rightarrow> nat" where
  "digit_value c = of_char c - 48"

fun read_digits :: "nat \<Rightarrow> string \<Rightarrow> nat \<times> string" where
  "read_digits acc [] = (acc, [])"
| "read_digits acc (c # cs) =
     (if is_digit c then read_digits (10 * acc + digit_value c) cs else (acc, c # cs))"

text \<open>
  \<^verbatim>\<open>stream >> x\<close> for an unsigned \<open>x\<close> with the given largest value: the stored value, whether the
  stream is still good, and the rest of the text.
\<close>

definition extract_unsigned :: "nat \<Rightarrow> string \<Rightarrow> nat \<times> bool \<times> string" where
  "extract_unsigned maxval text =
     (let text = dropWhile is_space text;
          neg = (text \<noteq> [] \<and> hd text = CHR ''-'');
          text = (if text \<noteq> [] \<and> hd text \<in> {CHR ''-'', CHR ''+''} then tl text else text)
      in if text = [] \<or> \<not> is_digit (hd text) then (0, False, text)
         else
           let (n, rest) = read_digits 0 text
           in if maxval < n then (maxval, False, rest)
              else ((if neg then (maxval + 1 - n) mod (maxval + 1) else n), True, rest))"

text \<open>\<^verbatim>\<open>stream >> c\<close> for a character.\<close>

definition extract_char :: "string \<Rightarrow> (char \<times> string) option" where
  "extract_char text =
     (case dropWhile is_space text of [] \<Rightarrow> None | c # rest \<Rightarrow> Some (c, rest))"

subsection \<open>Insertion\<close>

definition digit_char :: "nat \<Rightarrow> char" where
  "digit_char d = char_of (48 + d)"

fun show_nat :: "nat \<Rightarrow> string" where
  "show_nat n = (if n < 10 then [digit_char n] else show_nat (n div 10) @ [digit_char (n mod 10)])"

declare show_nat.simps [simp del]

definition hex_char :: "nat \<Rightarrow> char" where
  "hex_char d = (if d < 10 then char_of (48 + d) else char_of (87 + d))"

fun show_hex :: "nat \<Rightarrow> string" where
  "show_hex n = (if n < 16 then [hex_char n] else show_hex (n div 16) @ [hex_char (n mod 16)])"

declare show_hex.simps [simp del]

text \<open>\<^verbatim>\<open>std::hex << std::setw(width) << std::setfill('0') << n\<close>.\<close>

definition show_hex_padded :: "nat \<Rightarrow> nat \<Rightarrow> string" where
  "show_hex_padded width n =
     (let digits = show_hex n in replicate (width - length digits) (CHR ''0'') @ digits)"

subsection \<open>Reading back what was written\<close>

lemma of_char_digit_char: "d < 10 \<Longrightarrow> (of_char (digit_char d) :: nat) = 48 + d"
  by (simp add: digit_char_def)

lemma digit_char_is_digit [simp]:
  assumes "d < 10"
  shows "is_digit (digit_char d)" and "digit_value (digit_char d) = d"
    and "\<not> is_space (digit_char d)" and "digit_char d \<noteq> CHR ''-''" and "digit_char d \<noteq> CHR ''+''"
proof -
  note v = of_char_digit_char [OF assms]
  show "is_digit (digit_char d)" using assms v by (simp add: is_digit_def)
  show "digit_value (digit_char d) = d" using v by (simp add: digit_value_def)
  have "digit_char d \<noteq> c" if "(of_char c :: nat) < 48" for c using v that by auto
  then show "\<not> is_space (digit_char d)" "digit_char d \<noteq> CHR ''-''" "digit_char d \<noteq> CHR ''+''"
    using v assms by (auto simp: is_space_def)
qed

lemma read_digits_show_nat:
  "read_digits acc (show_nat n @ rest) = read_digits (acc * 10 ^ length (show_nat n) + n) rest"
proof (induction n arbitrary: acc rest rule: show_nat.induct)
  case (1 n)
  show ?case
  proof (cases "n < 10")
    case True
    then show ?thesis by (simp add: show_nat.simps [of n] mult.commute)
  next
    case False
    have "n div 10 * 10 + n mod 10 = n" by simp
    with False 1 show ?thesis
      by (simp add: show_nat.simps [of n] algebra_simps)
  qed
qed

lemma show_nat_Cons: "\<exists>d s. show_nat n = digit_char d # s \<and> d < 10"
proof (induction n rule: show_nat.induct)
  case (1 n)
  then show ?case by (cases "n < 10") (auto simp: show_nat.simps [of n])
qed

definition no_digit_first :: "string \<Rightarrow> bool" where
  "no_digit_first text \<longleftrightarrow> text = [] \<or> \<not> is_digit (hd text)"

lemma read_digits_stop: "no_digit_first rest \<Longrightarrow> read_digits acc rest = (acc, rest)"
  by (cases rest) (auto simp: no_digit_first_def)

lemma extract_show_nat:
  assumes "n \<le> maxval" and "no_digit_first rest"
  shows "extract_unsigned maxval (show_nat n @ rest) = (n, True, rest)"
proof -
  obtain d s where ds: "show_nat n = digit_char d # s" "d < 10"
    using show_nat_Cons by blast
  have "read_digits 0 (show_nat n @ rest) = (n, rest)"
    using assms(2) by (simp add: read_digits_show_nat read_digits_stop)
  with ds assms(1) show ?thesis
    by (simp add: extract_unsigned_def Let_def)
qed

end
