(* ===== verification/IPv4_Address.thy ===== *)
theory IPv4_Address
  imports Text_Streams
begin

text \<open>
  \<^verbatim>\<open>IPv4.h\<close>: the endpoint type (an address and a port, both in host byte order) and its parser,
  together with the dotted-quad printer that \<^verbatim>\<open>PrintIPv4Header\<close> and \<^verbatim>\<open>TcpSocket::connect\<close> use.
  The lemmas show that the parser reads back printed endpoints, and what it does with octets
  and ports that are out of range.
\<close>

record IPv4Address =
  address :: u32
  port :: u16

definition IPv4Address_default :: IPv4Address where
  "IPv4Address_default = \<lparr>address = 0, port = 0\<rparr>"

definition extract_u32 :: "string \<Rightarrow> (u32 \<times> string) option" where
  "extract_u32 text =
     (let (n, good, rest) = extract_unsigned 4294967295 text
      in if good then Some (of_nat n, rest) else None)"

text \<open>\<^verbatim>\<open>ss >> a >> dot1 >> b >> dot2 >> c >> dot3 >> d\<close> and the test of the three dots.\<close>

definition parse_quad :: "string \<Rightarrow> (u32 \<times> u32 \<times> u32 \<times> u32) option" where
  "parse_quad text = do {
     (a, text) \<leftarrow> extract_u32 text;
     (dot1, text) \<leftarrow> extract_char text;
     (b, text) \<leftarrow> extract_u32 text;
     (dot2, text) \<leftarrow> extract_char text;
     (c, text) \<leftarrow> extract_u32 text;
     (dot3, text) \<leftarrow> extract_char text;
     (d, text) \<leftarrow> extract_u32 text;
     if dot1 = CHR ''.'' \<and> dot2 = CHR ''.'' \<and> dot3 = CHR ''.'' then Some (a, b, c, d) else None
   }"

definition IPv4Address_from_string :: "string \<Rightarrow> IPv4Address" where
  "IPv4Address_from_string str =
     (let has_colon = CHR '':'' \<in> set str;
          ip_part = (if has_colon then takeWhile (\<lambda>c. c \<noteq> CHR '':'') str else str)
      in case parse_quad ip_part of
           None \<Rightarrow> \<lparr>address = 0, port = 0\<rparr>
         | Some (a, b, c, d) \<Rightarrow>
             (let ip = push_bit 24 a OR push_bit 16 b OR push_bit 8 c OR d;
                  p = (if has_colon
                       then fst (extract_unsigned 65535 (tl (dropWhile (\<lambda>c. c \<noteq> CHR '':'') str)))
                       else 0)
              in \<lparr>address = ip, port = of_nat p\<rparr>))"

text \<open>The dotted quad of a host-order address.\<close>

definition print_ip :: "u32 \<Rightarrow> string" where
  "print_ip addr =
     show_nat (unat (drop_bit 24 addr AND 0xFF)) @ ''.''
     @ show_nat (unat (drop_bit 16 addr AND 0xFF)) @ ''.''
     @ show_nat (unat (drop_bit 8 addr AND 0xFF)) @ ''.''
     @ show_nat (unat (addr AND 0xFF))"

definition print_endpoint :: "IPv4Address \<Rightarrow> string" where
  "print_endpoint e = print_ip (address e) @ '':'' @ show_nat (unat (port e))"

subsection \<open>Reading back printed addresses\<close>

lemma no_digit_first_simps [simp]:
  "no_digit_first []" "no_digit_first (CHR ''.'' # s)" "no_digit_first (CHR '':'' # s)"
  by (simp_all add: no_digit_first_def is_digit_def)

lemma extract_u32_show [simp]:
  "no_digit_first rest \<Longrightarrow> extract_u32 (show_nat (unat (w :: u32)) @ rest) = Some (w, rest)"
  by (simp add: extract_u32_def extract_show_nat)

lemma extract_char_dot [simp]: "extract_char (CHR ''.'' # rest) = Some (CHR ''.'', rest)"
  by (simp add: extract_char_def is_space_def)

lemma quad_collapse:
  "push_bit 24 (drop_bit 24 w AND 0xFF) OR push_bit 16 (drop_bit 16 w AND 0xFF)
     OR push_bit 8 (drop_bit 8 w AND 0xFF) OR (w AND 0xFF) = (w :: u32)"
proof -
  have m: "v AND 0xFF = ucast (ucast v :: u8)" for v :: u32
  proof -
    have "v AND 0xFF = take_bit 8 v" by (simp add: take_bit_eq_mask mask_eq_exp_minus_1)
    then show ?thesis by (auto intro!: bit_word_eqI simp: bit_simps)
  qed
  show ?thesis
    unfolding m by (simp flip: dword_of_bytes_def)
qed

lemma parse_quad_print_ip:
  "parse_quad (print_ip w) = Some (drop_bit 24 w AND 0xFF, drop_bit 16 w AND 0xFF,
     drop_bit 8 w AND 0xFF, w AND 0xFF)"
  using extract_u32_show [of "[]" "w AND 0xFF"]
  by (simp add: parse_quad_def print_ip_def)

lemma digits_no_colon [simp]: "CHR '':'' \<notin> set (show_nat n)"
proof (induction n rule: show_nat.induct)
  case (1 n)
  have "CHR '':'' \<noteq> digit_char d" if "d < 10" for d
  proof
    assume "CHR '':'' = digit_char d"
    then have "(of_char (CHR '':'') :: nat) = 48 + d"
      by (simp only: of_char_digit_char [OF that])
    with that show False by simp
  qed
  with 1 show ?case by (simp add: show_nat.simps [of n])
qed

lemma print_ip_no_colon [simp]: "CHR '':'' \<notin> set (print_ip w)"
  by (simp add: print_ip_def)

lemma from_string_endpoint: "IPv4Address_from_string (print_endpoint e) = e"
proof -
  have "takeWhile (\<lambda>c. c \<noteq> CHR '':'') (print_endpoint e) = print_ip (address e)"
    and "dropWhile (\<lambda>c. c \<noteq> CHR '':'') (print_endpoint e) = '':'' @ show_nat (unat (port e))"
    and "CHR '':'' \<in> set (print_endpoint e)"
    using print_ip_no_colon [of "address e"]
    by (auto simp: print_endpoint_def takeWhile_append dropWhile_append)
  moreover have "extract_unsigned 65535 (show_nat (unat (port e))) = (unat (port e), True, [])"
    using extract_show_nat [of "unat (port e)" 65535 "[]"] by simp
  ultimately show ?thesis
    by (simp add: IPv4Address_from_string_def parse_quad_print_ip quad_collapse del: push_bit_and)
qed

text \<open>Parsing a printed address, with or without a printed port, gives back exactly that
  endpoint.\<close>

theorem from_string_print:
  "IPv4Address_from_string (print_ip w) = \<lparr>address = w, port = 0\<rparr> \<and>
   IPv4Address_from_string (print_endpoint e) = e"
  by (simp add: from_string_endpoint)
    (simp add: IPv4Address_from_string_def parse_quad_print_ip quad_collapse del: push_bit_and)

lemmas from_string_eval =
  IPv4Address_from_string_def parse_quad_def extract_u32_def extract_unsigned_def extract_char_def
  is_space_def is_digit_def digit_value_def Let_def

text \<open>The parser does not range-check: an octet above 255 is shifted into its neighbour (the
  four components are combined as 32-bit words), and a port above 65535 saturates to 65535
  instead of failing.\<close>

theorem from_string_no_range_check:
  "IPv4Address_from_string ''256.0.0.1'' = \<lparr>address = 1, port = 0\<rparr> \<and>
   IPv4Address_from_string ''10.0.300.2'' = \<lparr>address = 0x0A012C02, port = 0\<rparr> \<and>
   IPv4Address_from_string ''10.0.0.2:99999'' = \<lparr>address = 0x0A000002, port = 65535\<rparr>"
  by (simp add: from_string_eval)

end
