(* ===== verification/Transmission_Control_Block.thy ===== *)
theory Transmission_Control_Block
  imports Blocking_Buffer IPv4_Address
begin

text \<open>
  \<^verbatim>\<open>TransmissionControlBlock.h\<close>: the connection states, their names, and the control block of a
  socket with its sequence variables and its two ring buffers. The mutex and the condition
  variable of the block carry no data; they are the subject of \<open>State_Waits\<close>; times are signed nanoseconds of the
  system clock and the retransmission timeout is in milliseconds, as in the source. The buffer
  arrays, unspecified at construction in the source, start out as zeros; what a buffer holds
  (\<open>contents\<close>) never looks at an element that was not written.
\<close>

definition MAX_IPV4_PACKET_SIZE :: nat where
  "MAX_IPV4_PACKET_SIZE = 65535"

datatype TcpState =
    CLOSED | LISTEN | SYN_SENT | SYN_RECEIVED | ESTABLISHED | FIN_WAIT_1 | FIN_WAIT_2
  | CLOSE_WAIT | CLOSING | LAST_ACK | TIME_WAIT

text \<open>The enumerators carry the values 0 to 10 in declaration order; comparisons of states in
  the source compare these values.\<close>

fun TcpState_value :: "TcpState \<Rightarrow> nat" where
  "TcpState_value CLOSED = 0"
| "TcpState_value LISTEN = 1"
| "TcpState_value SYN_SENT = 2"
| "TcpState_value SYN_RECEIVED = 3"
| "TcpState_value ESTABLISHED = 4"
| "TcpState_value FIN_WAIT_1 = 5"
| "TcpState_value FIN_WAIT_2 = 6"
| "TcpState_value CLOSE_WAIT = 7"
| "TcpState_value CLOSING = 8"
| "TcpState_value LAST_ACK = 9"
| "TcpState_value TIME_WAIT = 10"

lemma TcpState_value_inject: "TcpState_value s = TcpState_value t \<longleftrightarrow> s = t"
  by (cases s; cases t) simp_all

instantiation TcpState :: linorder
begin

definition less_eq_TcpState :: "TcpState \<Rightarrow> TcpState \<Rightarrow> bool" where
  "less_eq_TcpState s t \<longleftrightarrow> TcpState_value s \<le> TcpState_value t"

definition less_TcpState :: "TcpState \<Rightarrow> TcpState \<Rightarrow> bool" where
  "less_TcpState s t \<longleftrightarrow> TcpState_value s < TcpState_value t"

instance
  by standard
    (auto simp: less_eq_TcpState_def less_TcpState_def simp flip: TcpState_value_inject)

end

text \<open>The name table has eleven entries, but the assertion in front of it stops at \<^verbatim>\<open>LAST_ACK\<close>:
  a failed assertion is \<open>None\<close>.\<close>

definition TCP_STATE_NAMES :: "string list" where
  "TCP_STATE_NAMES = [''CLOSED'', ''LISTEN'', ''SYN_SENT'', ''SYN_RECEIVED'', ''ESTABLISHED'',
     ''FIN_WAIT_1'', ''FIN_WAIT_2'', ''CLOSE_WAIT'', ''CLOSING'', ''LAST_ACK'', ''TIME_WAIT'']"

definition TCP_STATE_TO_STRING :: "TcpState \<Rightarrow> string option" where
  "TCP_STATE_TO_STRING s =
     (if CLOSED \<le> s \<and> s \<le> LAST_ACK then Some (TCP_STATE_NAMES ! TcpState_value s) else None)"

type_synonym socket_id = u64
type_synonym byte_buffer = "u8 BlockingBuffer"

text \<open>\<^verbatim>\<open>retransmit_attempts\<close> is an \<^verbatim>\<open>int32_t\<close>: its 32 bits as a word, which nothing reads.\<close>

record TransmissionControlBlock =
  last_written :: int
  has_recived_ack :: bool
  tcb_id :: socket_id
  current_state :: TcpState
  accept_queue :: "socket_id list"
  src_address :: IPv4Address
  dst_address :: IPv4Address
  SND_UNA :: u32
  SND_NXT :: u32
  SND_WND :: u32
  SND_UP :: u32
  SND_WL1 :: u32
  SND_WL2 :: u32
  SND_ISS :: u32
  RCV_NXT :: u32
  RCV_WND :: u32
  RCV_UP :: u32
  RCV_IRS :: u32
  RTO :: int
  retransmit_attempts :: u32
  user_timeout :: u64
  send_buffer :: byte_buffer
  recv_buffer :: byte_buffer

type_synonym tcb = TransmissionControlBlock

definition TCB_new :: "TcpState \<Rightarrow> IPv4Address \<Rightarrow> IPv4Address \<Rightarrow> tcb" where
  "TCB_new state src dst =
     \<lparr>last_written = 0, has_recived_ack = False, tcb_id = 0, current_state = state,
      accept_queue = [], src_address = src, dst_address = dst,
      SND_UNA = 0, SND_NXT = 0, SND_WND = 65535, SND_UP = 0, SND_WL1 = 0, SND_WL2 = 0, SND_ISS = 0,
      RCV_NXT = 0, RCV_WND = 65535, RCV_UP = 0, RCV_IRS = 0,
      RTO = 500, retransmit_attempts = 0, user_timeout = 0,
      send_buffer = BlockingBuffer_new (\<lambda>_. 0), recv_buffer = BlockingBuffer_new (\<lambda>_. 0)\<rparr>"

definition TCB_set_state :: "TcpState \<Rightarrow> tcb \<Rightarrow> tcb" where
  "TCB_set_state new_state t = t\<lparr>current_state := new_state\<rparr>"

definition TCB_close :: "tcb \<Rightarrow> tcb" where
  "TCB_close t =
     (let t = t\<lparr>recv_buffer := force_wake_up (recv_buffer t)\<rparr>;
          t = t\<lparr>send_buffer := force_wake_up (send_buffer t)\<rparr>
      in TCB_set_state (if current_state t = ESTABLISHED then FIN_WAIT_1 else LAST_ACK) t)"

text \<open>Well-formed blocks: both rings are. The bytes in flight are those between \<^verbatim>\<open>SND.UNA\<close> and
  \<^verbatim>\<open>SND.NXT\<close>, modulo \<open>2\<^sup>3\<^sup>2\<close>.\<close>

definition TCB_inv :: "tcb \<Rightarrow> bool" where
  "TCB_inv t \<longleftrightarrow> BlockingBuffer_inv MAX_IPV4_PACKET_SIZE (send_buffer t)
     \<and> BlockingBuffer_inv MAX_IPV4_PACKET_SIZE (recv_buffer t)"

definition in_flight :: "tcb \<Rightarrow> u32" where
  "in_flight t = SND_NXT t - SND_UNA t"

abbreviation send_stream :: "tcb \<Rightarrow> bytes" where
  "send_stream t \<equiv> contents MAX_IPV4_PACKET_SIZE (send_buffer t)"

abbreviation recv_stream :: "tcb \<Rightarrow> bytes" where
  "recv_stream t \<equiv> contents MAX_IPV4_PACKET_SIZE (recv_buffer t)"

lemma TCB_new_inv [simp]: "TCB_inv (TCB_new st src dst)"
  by (simp add: TCB_inv_def TCB_new_def MAX_IPV4_PACKET_SIZE_def)

lemma TCB_new_simps [simp]:
  "current_state (TCB_new st src dst) = st" "src_address (TCB_new st src dst) = src"
  "dst_address (TCB_new st src dst) = dst" "send_stream (TCB_new st src dst) = []"
  "recv_stream (TCB_new st src dst) = []"
  by (simp_all add: TCB_new_def)

lemma TCB_set_state_inv [simp]: "TCB_inv (TCB_set_state st t) = TCB_inv t"
  by (simp add: TCB_inv_def TCB_set_state_def)

lemma TCB_close_inv [simp]: "TCB_inv (TCB_close t) = TCB_inv t"
  by (simp add: TCB_inv_def TCB_close_def TCB_set_state_def Let_def)

text \<open>Every state but \<^verbatim>\<open>TIME_WAIT\<close> has a printable name, and distinct states have distinct
  names; printing \<^verbatim>\<open>TIME_WAIT\<close> fails the assertion of \<^verbatim>\<open>TCP_STATE_TO_STRING\<close>.\<close>

theorem TCP_STATE_TO_STRING_partial:
  "(TCP_STATE_TO_STRING s = None \<longleftrightarrow> s = TIME_WAIT) \<and>
   (TCP_STATE_TO_STRING s = TCP_STATE_TO_STRING t \<longleftrightarrow> s = t)"
  by (cases s; cases t; simp add: TCP_STATE_TO_STRING_def less_eq_TcpState_def TCP_STATE_NAMES_def)

end
