(* ===== verification/Socket_Table.thy ===== *)
theory Socket_Table
  imports Transmission_Control_Block "HOL-Library.AList"
begin

text \<open>
  \<^verbatim>\<open>SocketTable.h\<close> and \<^verbatim>\<open>SocketTable.cpp\<close>: the table that owns every control block. A
  \<^verbatim>\<open>std::unordered_map\<close> is an association list with distinct keys; the order of the list stands
  for the iteration order, which the library leaves unspecified. A pointer to a control block is
  its socket id: reading through it is a lookup, writing through it replaces the block in place
  (\<open>SocketTable_modify\<close>). The table's mutex makes each operation atomic.

  The locale \<open>socket_registry\<close> states what the other tables and the stack rely on: ids are
  fresh, lookups see exactly the created and not yet destroyed blocks, the null id is never
  found.
\<close>

record SocketTable =
  next_id :: socket_id
  sockets :: "(socket_id \<times> tcb) list"

definition SocketTable_new :: SocketTable where
  "SocketTable_new = \<lparr>next_id = 1, sockets = []\<rparr>"

definition SocketTable_create_socket ::
  "TcpState \<Rightarrow> IPv4Address \<Rightarrow> IPv4Address \<Rightarrow> SocketTable \<Rightarrow> socket_id \<times> SocketTable" where
  "SocketTable_create_socket state src dst t =
     (let i = next_id t;
          t = t\<lparr>next_id := next_id t + 1\<rparr>;
          b = (TCB_new state src dst)\<lparr>tcb_id := i\<rparr>
      in (i, t\<lparr>sockets := AList.update i b (sockets t)\<rparr>))"

definition SocketTable_destroy_socket :: "socket_id \<Rightarrow> SocketTable \<Rightarrow> SocketTable \<times> bool" where
  "SocketTable_destroy_socket i t =
     (if i = 0 then (t, False)
      else (t\<lparr>sockets := AList.delete i (sockets t)\<rparr>, map_of (sockets t) i \<noteq> None))"

definition SocketTable_find_socket :: "SocketTable \<Rightarrow> socket_id \<Rightarrow> tcb option" where
  "SocketTable_find_socket t i = (if i = 0 then None else map_of (sockets t) i)"

definition SocketTable_contains :: "SocketTable \<Rightarrow> socket_id \<Rightarrow> bool" where
  "SocketTable_contains t i = (if i = 0 then False else map_of (sockets t) i \<noteq> None)"

definition SocketTable_size :: "SocketTable \<Rightarrow> nat" where
  "SocketTable_size t = length (sockets t)"

text \<open>\<^verbatim>\<open>for_each_socket\<close> calls its function on every block; here the function threads a state.\<close>

definition SocketTable_for_each_socket ::
  "(socket_id \<Rightarrow> tcb \<Rightarrow> 's \<Rightarrow> 's) \<Rightarrow> SocketTable \<Rightarrow> 's \<Rightarrow> 's" where
  "SocketTable_for_each_socket f t = fold (\<lambda>(i, b). f i b) (sockets t)"

text \<open>A store through the pointer that \<^verbatim>\<open>find_socket\<close> returned.\<close>

definition SocketTable_modify :: "socket_id \<Rightarrow> (tcb \<Rightarrow> tcb) \<Rightarrow> SocketTable \<Rightarrow> SocketTable" where
  "SocketTable_modify i f t =
     (case SocketTable_find_socket t i of
        None \<Rightarrow> t
      | Some b \<Rightarrow> t\<lparr>sockets := AList.update i (f b) (sockets t)\<rparr>)"

text \<open>Well-formed tables, and room for another id (\<open>next_id\<close> has not come around).\<close>

definition SocketTable_inv :: "SocketTable \<Rightarrow> bool" where
  "SocketTable_inv t \<longleftrightarrow> distinct (map fst (sockets t))
     \<and> list_all (\<lambda>(i, b). i \<noteq> 0 \<and> i < next_id t \<and> tcb_id b = i \<and> TCB_inv b) (sockets t)"

definition SocketTable_room :: "SocketTable \<Rightarrow> bool" where
  "SocketTable_room t \<longleftrightarrow> next_id t \<noteq> 0 \<and> next_id t + 1 \<noteq> 0"

subsection \<open>The contract\<close>

locale socket_registry =
  fixes inv :: "'t \<Rightarrow> bool"
    and room :: "'t \<Rightarrow> bool"
    and find :: "'t \<Rightarrow> socket_id \<Rightarrow> 'b option"
    and create :: "TcpState \<Rightarrow> IPv4Address \<Rightarrow> IPv4Address \<Rightarrow> 't \<Rightarrow> socket_id \<times> 't"
    and destroy :: "socket_id \<Rightarrow> 't \<Rightarrow> 't \<times> bool"
    and modify :: "socket_id \<Rightarrow> ('b \<Rightarrow> 'b) \<Rightarrow> 't \<Rightarrow> 't"
    and fresh :: "socket_id \<Rightarrow> TcpState \<Rightarrow> IPv4Address \<Rightarrow> IPv4Address \<Rightarrow> 'b"
    and ok :: "socket_id \<Rightarrow> 'b \<Rightarrow> bool"
  assumes find_null: "find t 0 = None"
    and find_ok: "inv t \<Longrightarrow> find t i = Some b \<Longrightarrow> ok i b"
    and create_law: "inv t \<Longrightarrow> room t \<Longrightarrow> create st s d t = (i, t') \<Longrightarrow>
        inv t' \<and> i \<noteq> 0 \<and> find t i = None \<and> find t' = (find t)(i \<mapsto> fresh i st s d)"
    and destroy_law: "inv t \<Longrightarrow> destroy i t = (t', gone) \<Longrightarrow>
        inv t' \<and> find t' = (find t)(i := None) \<and> gone = (find t i \<noteq> None)"
    and modify_law: "find (modify i f t) = (find t)(i := map_option f (find t i))"
    and modify_inv: "inv t \<Longrightarrow> (\<And>b. find t i = Some b \<Longrightarrow> ok i (f b)) \<Longrightarrow> inv (modify i f t)"
begin

lemma find_create_other:
  "inv t \<Longrightarrow> room t \<Longrightarrow> create st s d t = (i, t') \<Longrightarrow> find t j = Some b \<Longrightarrow> find t' j = Some b \<and> j \<noteq> i"
  using create_law by fastforce

lemma create_distinct:
  assumes "inv t" "room t" "room t'" "create st s d t = (i, t')" "create st2 s2 d2 t' = (j, t'')"
  shows "i \<noteq> j \<and> find t'' i \<noteq> None \<and> find t'' j \<noteq> None"
  using create_law [OF assms(1,2,4)] create_law [OF _ assms(3,5)] by auto

lemma destroy_twice:
  assumes "inv t" "destroy i t = (t', g)" "destroy i t' = (t'', g')"
  shows "\<not> g' \<and> find t'' i = None"
  using destroy_law [OF assms(1,2)] destroy_law [OF _ assms(3)] by auto

lemma create_destroy:
  assumes "inv t" "room t" "create st s d t = (i, t')" "destroy i t' = (t'', g)"
  shows "g \<and> find t'' = find t"
  using create_law [OF assms(1-3)] destroy_law [OF _ assms(4)] by auto

end

subsection \<open>The table implements the contract\<close>

lemma SocketTable_contains_eq: "SocketTable_contains t i \<longleftrightarrow> SocketTable_find_socket t i \<noteq> None"
  by (simp add: SocketTable_contains_def SocketTable_find_socket_def)

lemma inv_find:
  assumes "SocketTable_inv t" and "SocketTable_find_socket t i = Some b"
  shows "i \<noteq> 0 \<and> i < next_id t \<and> tcb_id b = i \<and> TCB_inv b"
  using assms map_of_SomeD
  by (fastforce simp: SocketTable_inv_def SocketTable_find_socket_def list_all_iff split: if_splits)

lemma update_all:
  "list_all P xs \<Longrightarrow> P (k, v) \<Longrightarrow> list_all P (AList.update k v xs)"
  by (induction xs) auto

lemma delete_all: "list_all P xs \<Longrightarrow> list_all P (AList.delete k xs)"
  by (auto simp: list_all_iff AList.delete_eq)

lemma create_inv:
  assumes "SocketTable_inv t" and "SocketTable_room t"
    and "SocketTable_create_socket st s d t = (i, t')"
  shows "SocketTable_inv t' \<and> i \<noteq> 0 \<and> SocketTable_find_socket t i = None
    \<and> SocketTable_find_socket t' =
      (SocketTable_find_socket t)(i \<mapsto> (TCB_new st s d)\<lparr>tcb_id := i\<rparr>)"
proof -
  from assms(3) have i: "i = next_id t" and t': "t' = \<lparr>next_id = next_id t + 1,
      sockets = AList.update i ((TCB_new st s d)\<lparr>tcb_id := i\<rparr>) (sockets t)\<rparr>"
    by (auto simp: SocketTable_create_socket_def Let_def)
  from assms(2) have r: "next_id t \<noteq> 0" "next_id t < next_id t + 1"
    using unatSuc [of "next_id t"]
    by (auto simp: SocketTable_room_def word_less_nat_alt add.commute)
  have "list_all (\<lambda>(k, b). k \<noteq> 0 \<and> k < next_id t + 1 \<and> tcb_id b = k \<and> TCB_inv b) (sockets t)"
    using assms(1) r(2) by (auto simp: SocketTable_inv_def list_all_iff)
  then have "SocketTable_inv t'"
    using assms(1) r by (auto simp: SocketTable_inv_def t' i distinct_update intro!: update_all
        simp: TCB_inv_def TCB_new_def MAX_IPV4_PACKET_SIZE_def)
  moreover have "SocketTable_find_socket t i = None"
  proof (rule ccontr)
    assume "SocketTable_find_socket t i \<noteq> None"
    then obtain b where "SocketTable_find_socket t i = Some b" by auto
    from inv_find [OF assms(1) this] i show False by simp
  qed
  ultimately show ?thesis
    using r(1) by (auto simp: SocketTable_find_socket_def t' i update_conv' fun_eq_iff)
qed

interpretation st: socket_registry SocketTable_inv SocketTable_room SocketTable_find_socket
  SocketTable_create_socket SocketTable_destroy_socket SocketTable_modify
  "\<lambda>i st s d. (TCB_new st s d)\<lparr>tcb_id := i\<rparr>" "\<lambda>i b. tcb_id b = i \<and> TCB_inv b"
proof (unfold_locales, goal_cases)
  case (1 t)
  show ?case by (simp add: SocketTable_find_socket_def)
next
  case (2 t i b)
  then show ?case by (simp add: inv_find)
next
  case (3 t st s d i t')
  then show ?case by (rule create_inv)
next
  case (4 t i t' gone)
  then show ?case
    by (auto simp: SocketTable_destroy_socket_def SocketTable_inv_def SocketTable_find_socket_def
        delete_conv' distinct_delete delete_all fun_eq_iff split: if_splits)
next
  case (5 i f t)
  show ?case
    by (auto simp: SocketTable_modify_def SocketTable_find_socket_def update_conv' fun_eq_iff
        split: option.splits)
next
  case (6 t i f)
  show ?case
  proof (cases "SocketTable_find_socket t i")
    case None
    with 6 show ?thesis by (simp add: SocketTable_modify_def)
  next
    case (Some b)
    from inv_find [OF 6(1) Some] 6(2) [OF Some] 6(1) Some show ?thesis
      by (auto simp: SocketTable_modify_def SocketTable_inv_def distinct_update intro!: update_all)
  qed
qed

lemma SocketTable_new_inv [simp]: "SocketTable_inv SocketTable_new" "SocketTable_room SocketTable_new"
  by (simp_all add: SocketTable_inv_def SocketTable_new_def SocketTable_room_def)

lemma next_id_modify [simp]: "next_id (SocketTable_modify i f t) = next_id t"
  by (simp add: SocketTable_modify_def split: option.splits)

text \<open>Allocation is fresh and exact: while ids have not wrapped around, creating a socket
  yields a non-null id that was not in use, adds exactly one block with the requested state and
  addresses, changes no other lookup, and destroying it restores the table's lookups.\<close>

theorem SocketTable_create_destroy:
  assumes "SocketTable_inv t" and "SocketTable_room t"
    and "SocketTable_create_socket s src dst t = (i, t')"
    and "SocketTable_destroy_socket i t' = (t'', gone)"
  shows "i \<noteq> 0 \<and> SocketTable_find_socket t i = None \<and> SocketTable_inv t' \<and> SocketTable_inv t''
    \<and> SocketTable_find_socket t' i = Some ((TCB_new s src dst)\<lparr>tcb_id := i\<rparr>)
    \<and> (j = i \<or> SocketTable_find_socket t' j = SocketTable_find_socket t j)
    \<and> gone \<and> SocketTable_find_socket t'' = SocketTable_find_socket t"
  using st.create_law [OF assms(1-3)] st.create_destroy [OF assms] st.destroy_law [OF _ assms(4)]
  by auto

theorem SocketTable_create_destroy_witness:
  "\<exists>t' t''. SocketTable_create_socket LISTEN IPv4Address_default IPv4Address_default SocketTable_new = (1, t')
     \<and> SocketTable_destroy_socket 1 t' = (t'', True)
     \<and> SocketTable_find_socket t'' = SocketTable_find_socket SocketTable_new"
proof -
  obtain t' where c: "SocketTable_create_socket LISTEN IPv4Address_default IPv4Address_default
      SocketTable_new = (1, t')"
    by (simp add: SocketTable_create_socket_def SocketTable_new_def Let_def)
  obtain t'' g where d: "SocketTable_destroy_socket 1 t' = (t'', g)"
    by (cases "SocketTable_destroy_socket 1 t'") auto
  have "g \<and> SocketTable_find_socket t'' = SocketTable_find_socket SocketTable_new"
    using SocketTable_create_destroy [OF SocketTable_new_inv c d] by simp
  with c d show ?thesis by auto
qed

end
