(* ===== verification/Routing_Tables.thy ===== *)
theory Routing_Tables
  imports Socket_Table
begin

text \<open>
  \<^verbatim>\<open>ListenerTable\<close> and \<^verbatim>\<open>ConnectionTable\<close>: the two routing tables that map ports and 4-tuples to
  socket ids. Both hold a reference to the socket table, which their operations thread as an
  extra state, and both validate an id against it before they return it. A connection key is
  the pair of the remote and the local endpoint, in this order.

  The locale \<open>id_router\<close> is the contract they share: a lookup returns a live id or the null id,
  a binding is found again while its socket lives, closing a key destroys the socket behind it
  so that no key finds it any more. It is interpreted for both tables.
\<close>

subsection \<open>Listening ports\<close>

type_synonym ListenerTable = "(u16 \<times> socket_id) list"

definition ListenerTable_bind :: "u16 \<Rightarrow> socket_id \<Rightarrow> ListenerTable \<Rightarrow> ListenerTable" where
  "ListenerTable_bind p i l = AList.update p i l"

definition ListenerTable_bind_new ::
  "IPv4Address \<Rightarrow> SocketTable \<times> ListenerTable \<Rightarrow> socket_id \<times> SocketTable \<times> ListenerTable" where
  "ListenerTable_bind_new addr s =
     (let (st, l) = s;
          (i, st) = SocketTable_create_socket CLOSED addr IPv4Address_default st
      in (i, st, AList.update (port addr) i l))"

definition ListenerTable_find :: "SocketTable \<times> ListenerTable \<Rightarrow> u16 \<Rightarrow> socket_id" where
  "ListenerTable_find s p =
     (case map_of (snd s) p of
        Some i \<Rightarrow> if SocketTable_contains (fst s) i then i else 0
      | None \<Rightarrow> 0)"

definition ListenerTable_unbind ::
  "u16 \<Rightarrow> SocketTable \<times> ListenerTable \<Rightarrow> (SocketTable \<times> ListenerTable) \<times> bool" where
  "ListenerTable_unbind p s =
     (let (st, l) = s;
          (i, l) = (case map_of l p of Some i \<Rightarrow> (i, AList.delete p l) | None \<Rightarrow> (0, l))
      in if i \<noteq> 0
         then let (st, gone) = SocketTable_destroy_socket i st in ((st, l), gone)
         else ((st, l), False))"

definition ListenerTable_contains :: "SocketTable \<times> ListenerTable \<Rightarrow> u16 \<Rightarrow> bool" where
  "ListenerTable_contains s p =
     (case map_of (snd s) p of Some i \<Rightarrow> SocketTable_contains (fst s) i | None \<Rightarrow> False)"

subsection \<open>Connections\<close>

type_synonym ConnectionKey = "IPv4Address \<times> IPv4Address"
type_synonym ConnectionTable = "(ConnectionKey \<times> socket_id) list"

definition ConnectionTable_insert ::
  "IPv4Address \<Rightarrow> IPv4Address \<Rightarrow> socket_id \<Rightarrow> ConnectionTable \<Rightarrow> ConnectionTable" where
  "ConnectionTable_insert remote_addr local_addr i c = AList.update (remote_addr, local_addr) i c"

definition ConnectionTable_register_connection ::
  "IPv4Address \<Rightarrow> IPv4Address \<Rightarrow> socket_id \<Rightarrow> SocketTable \<times> ConnectionTable
     \<Rightarrow> socket_id \<times> SocketTable \<times> ConnectionTable" where
  "ConnectionTable_register_connection local_addr remote_addr i s =
     (let (st, c) = s;
          (i, st) =
            (if i = 0 \<or> \<not> SocketTable_contains st i
             then SocketTable_create_socket CLOSED local_addr remote_addr st
             else (i, SocketTable_modify i
                        (\<lambda>b. b\<lparr>src_address := local_addr, dst_address := remote_addr\<rparr>) st))
      in (i, st, AList.update (remote_addr, local_addr) i c))"

definition ConnectionTable_find ::
  "SocketTable \<times> ConnectionTable \<Rightarrow> IPv4Address \<Rightarrow> IPv4Address \<Rightarrow> socket_id" where
  "ConnectionTable_find s remote_addr local_addr =
     (case map_of (snd s) (remote_addr, local_addr) of
        Some i \<Rightarrow> if SocketTable_contains (fst s) i then i else 0
      | None \<Rightarrow> 0)"

definition ConnectionTable_erase ::
  "IPv4Address \<Rightarrow> IPv4Address \<Rightarrow> ConnectionTable \<Rightarrow> ConnectionTable \<times> bool" where
  "ConnectionTable_erase remote_addr local_addr c =
     (AList.delete (remote_addr, local_addr) c, map_of c (remote_addr, local_addr) \<noteq> None)"

definition ConnectionTable_destroy_connection ::
  "IPv4Address \<Rightarrow> IPv4Address \<Rightarrow> SocketTable \<times> ConnectionTable
     \<Rightarrow> (SocketTable \<times> ConnectionTable) \<times> bool" where
  "ConnectionTable_destroy_connection remote_addr local_addr s =
     (let (st, c) = s;
          (i, c) = (case map_of c (remote_addr, local_addr) of
                      Some i \<Rightarrow> (i, AList.delete (remote_addr, local_addr) c)
                    | None \<Rightarrow> (0, c))
      in if i \<noteq> 0
         then let (st, gone) = SocketTable_destroy_socket i st in ((st, c), gone)
         else ((st, c), False))"

subsection \<open>The contract\<close>

locale id_router =
  fixes wf :: "'s \<Rightarrow> bool"
    and live :: "'s \<Rightarrow> socket_id \<Rightarrow> bool"
    and lookup :: "'s \<Rightarrow> 'k \<Rightarrow> socket_id"
    and bind :: "'k \<Rightarrow> socket_id \<Rightarrow> 's \<Rightarrow> 's"
    and close :: "'k \<Rightarrow> 's \<Rightarrow> 's \<times> bool"
  assumes live_null: "\<not> live s 0"
    and lookup_live: "lookup s k \<noteq> 0 \<Longrightarrow> live s (lookup s k)"
    and live_bind: "live (bind k i s) j = live s j"
    and lookup_bind: "lookup (bind k i s) k' =
        (if k' = k then (if live s i then i else 0) else lookup s k')"
    and close_law: "wf s \<Longrightarrow> close k s = (s', gone) \<Longrightarrow>
        wf s' \<and> lookup s' k = 0 \<and> gone = (lookup s k \<noteq> 0) \<and>
        live s' j = (live s j \<and> j \<noteq> lookup s k)"
begin

lemma lookup_bound: "live s i \<Longrightarrow> lookup (bind k i s) k = i"
  by (simp add: lookup_bind)

lemma rebind: "live s j \<Longrightarrow> lookup (bind k j (bind k i s)) k = j"
  by (simp add: lookup_bind live_bind)

text \<open>A closed id is found under no key, however many keys were bound to it.\<close>

lemma close_unreachable:
  assumes "wf s" and "close k s = (s', gone)" and "lookup s k \<noteq> 0"
  shows "lookup s' k' \<noteq> lookup s k"
proof
  assume eq: "lookup s' k' = lookup s k"
  then have "live s' (lookup s k)" using lookup_live [of s' k'] assms(3) by simp
  then show False using close_law [OF assms(1,2), of "lookup s k"] by simp
qed

lemma close_others_live:
  assumes "wf s" and "close k s = (s', gone)" and "live s j" and "j \<noteq> lookup s k"
  shows "live s' j"
  using close_law [OF assms(1,2), of j] assms(3,4) by simp

end

lemma contains_destroy:
  assumes "SocketTable_inv st" and "SocketTable_destroy_socket i st = (st', gone)"
  shows "SocketTable_inv st' \<and> gone = SocketTable_contains st i
    \<and> SocketTable_contains st' j = (SocketTable_contains st j \<and> j \<noteq> i)"
  using st.destroy_law [OF assms] by (auto simp: SocketTable_contains_eq)

lemma not_contains_null [simp]: "\<not> SocketTable_contains t 0"
  by (simp add: SocketTable_contains_def)

lemma ListenerTable_unbind_law:
  assumes "SocketTable_inv (fst s)" and "ListenerTable_unbind p s = (s', gone)"
  shows "SocketTable_inv (fst s') \<and> ListenerTable_find s' p = 0
    \<and> gone = (ListenerTable_find s p \<noteq> 0)
    \<and> SocketTable_contains (fst s') j =
        (SocketTable_contains (fst s) j \<and> j \<noteq> ListenerTable_find s p)"
proof (cases "map_of (snd s) p")
  case None
  with assms show ?thesis
    by (auto simp: ListenerTable_unbind_def ListenerTable_find_def split: prod.splits)
next
  case (Some i)
  obtain st' g where d: "SocketTable_destroy_socket i (fst s) = (st', g)"
    by (cases "SocketTable_destroy_socket i (fst s)") simp
  have z: "SocketTable_destroy_socket 0 (fst s) = (fst s, False)"
    by (simp add: SocketTable_destroy_socket_def)
  have s': "s' = (st', AList.delete p (snd s)) \<and> gone = g"
    using Some assms(2) d z
    by (cases s; cases "i = 0") (simp_all add: ListenerTable_unbind_def)
  show ?thesis
    using Some s' contains_destroy [OF assms(1) d, of j]
    by (cases "SocketTable_contains (fst s) i") (auto simp: ListenerTable_find_def delete_conv')
qed

interpretation lt: id_router "\<lambda>s. SocketTable_inv (fst s)" "\<lambda>s. SocketTable_contains (fst s)"
  ListenerTable_find "\<lambda>p i s. (fst s, ListenerTable_bind p i (snd s))" ListenerTable_unbind
proof (unfold_locales, goal_cases)
  case (5 s k s' gone j)
  then show ?case by (rule ListenerTable_unbind_law)
qed (auto simp: ListenerTable_find_def ListenerTable_bind_def update_conv' split: option.splits)

lemma ConnectionTable_destroy_law:
  assumes "SocketTable_inv (fst s)"
    and "ConnectionTable_destroy_connection r l s = (s', gone)"
  shows "SocketTable_inv (fst s') \<and> ConnectionTable_find s' r l = 0
    \<and> gone = (ConnectionTable_find s r l \<noteq> 0)
    \<and> SocketTable_contains (fst s') j =
        (SocketTable_contains (fst s) j \<and> j \<noteq> ConnectionTable_find s r l)"
proof (cases "map_of (snd s) (r, l)")
  case None
  with assms show ?thesis
    by (auto simp: ConnectionTable_destroy_connection_def ConnectionTable_find_def split: prod.splits)
next
  case (Some i)
  obtain st' g where d: "SocketTable_destroy_socket i (fst s) = (st', g)"
    by (cases "SocketTable_destroy_socket i (fst s)") simp
  have z: "SocketTable_destroy_socket 0 (fst s) = (fst s, False)"
    by (simp add: SocketTable_destroy_socket_def)
  have s': "s' = (st', AList.delete (r, l) (snd s)) \<and> gone = g"
    using Some assms(2) d z
    by (cases s; cases "i = 0") (simp_all add: ConnectionTable_destroy_connection_def)
  show ?thesis
    using Some s' contains_destroy [OF assms(1) d, of j]
    by (cases "SocketTable_contains (fst s) i") (auto simp: ConnectionTable_find_def delete_conv')
qed

interpretation ct: id_router "\<lambda>s. SocketTable_inv (fst s)" "\<lambda>s. SocketTable_contains (fst s)"
  "\<lambda>s k. ConnectionTable_find s (fst k) (snd k)"
  "\<lambda>k i s. (fst s, ConnectionTable_insert (fst k) (snd k) i (snd s))"
  "\<lambda>k. ConnectionTable_destroy_connection (fst k) (snd k)"
proof (unfold_locales, goal_cases)
  case (5 s k s' gone j)
  then show ?case by (rule ConnectionTable_destroy_law)
qed (auto simp: ConnectionTable_find_def ConnectionTable_insert_def update_conv' split: option.splits)

lemma ListenerTable_contains_eq: "ListenerTable_contains s p \<longleftrightarrow> ListenerTable_find s p \<noteq> 0"
  by (auto simp: ListenerTable_contains_def ListenerTable_find_def split: option.splits)

text \<open>C31. Routing of segments to sockets. Registering a live socket under a pair of endpoints makes
  exactly that pair lead to it and leaves every other pair as it was; destroying the connection
  succeeds, after which the socket is found under no pair at all and every other socket is still
  alive.\<close>

theorem connection_routing:
  assumes "SocketTable_inv st" and "SocketTable_contains st i"
    and "ConnectionTable_destroy_connection r l (st, ConnectionTable_insert r l i c) = (s', gone)"
  shows "ConnectionTable_find (st, ConnectionTable_insert r l i c) r' l' =
      (if r' = r \<and> l' = l then i else ConnectionTable_find (st, c) r' l')
    \<and> gone \<and> ConnectionTable_find s' r' l' \<noteq> i
    \<and> SocketTable_contains (fst s') j = (SocketTable_contains st j \<and> j \<noteq> i)"
proof -
  let ?s = "(st, ConnectionTable_insert r l i c)"
  have i: "i \<noteq> 0" using assms(2) by auto
  have f: "ConnectionTable_find ?s r' l' =
      (if r' = r \<and> l' = l then i else ConnectionTable_find (st, c) r' l')" for r' l'
    using ct.lookup_bind [where k = "(r, l)" and i = i and s = "(st, c)" and k' = "(r', l')"] assms(2) by simp
  show ?thesis
    using f [of r' l'] f [of r l] i ct.close_law [where s = ?s and k = "(r, l)" and s' = s' and gone = gone and j = j]
      ct.close_unreachable [where s = ?s and k = "(r, l)" and s' = s' and gone = gone and k' = "(r', l')"] assms(1,3)
    by simp
qed

theorem connection_routing_witness:
  "\<exists>st i s'. SocketTable_contains st i
     \<and> ConnectionTable_destroy_connection IPv4Address_default IPv4Address_default
         (st, ConnectionTable_insert IPv4Address_default IPv4Address_default i []) = (s', True)
     \<and> ConnectionTable_find s' IPv4Address_default IPv4Address_default \<noteq> i"
proof -
  define st where "st = snd (SocketTable_create_socket CLOSED IPv4Address_default IPv4Address_default SocketTable_new)"
  have st: "SocketTable_inv st" "SocketTable_contains st 1"
    by (simp_all add: st_def SocketTable_create_socket_def SocketTable_new_def SocketTable_inv_def
        SocketTable_contains_def TCB_inv_def TCB_new_def MAX_IPV4_PACKET_SIZE_def)
  obtain s' gone where d: "ConnectionTable_destroy_connection IPv4Address_default IPv4Address_default
      (st, ConnectionTable_insert IPv4Address_default IPv4Address_default 1 []) = (s', gone)"
    by (rule prod.exhaust)
  have "gone \<and> ConnectionTable_find s' IPv4Address_default IPv4Address_default \<noteq> 1"
    using connection_routing [OF st d] by blast
  then show ?thesis
    using st(2) d by (intro exI [of _ st] exI [of _ 1] exI [of _ s']) simp
qed

end
