(* ===== verification/Checksum.thy ===== *)
theory Checksum
  imports TinyCP_Prelude
begin

text \<open>
  \<^verbatim>\<open>utils/Checksum.cpp\<close>: the RFC 1071 checksum of a byte buffer and the RFC 793 checksum over
  pseudo-header, TCP header and payload. Both accumulate 16-bit words into a 32-bit sum, fold
  the carries back and complement the result. The lemmas give the value of the fold as a residue
  modulo 65535, show that the accumulator cannot wrap for any datagram-sized input, that a
  buffer with its own checksum filled in verifies to zero, and that the TCP routine computes
  the plain checksum of the concatenated pseudo-header, header and payload.
\<close>

subsection \<open>The code\<close>

text \<open>The summation loop: two bytes at a time, the last odd byte padded with zero bits.\<close>

fun sum_words :: "bytes \<Rightarrow> u32 \<Rightarrow> u32" where
  "sum_words (a # b # rest) acc = sum_words rest (acc + ucast (word_of_bytes a b))"
| "sum_words [a] acc = acc + ucast (push_bit 8 (ucast a) :: u16)"
| "sum_words [] acc = acc"

text \<open>The fold: \<^verbatim>\<open>while (sum >> 16) sum = (sum & 0xFFFF) + (sum >> 16)\<close>.\<close>

function fold_carries :: "u32 \<Rightarrow> u32" where
  "fold_carries acc =
     (if drop_bit 16 acc \<noteq> 0 then fold_carries ((acc AND 0xFFFF) + drop_bit 16 acc) else acc)"
  by pat_completeness auto

lemma unat_drop_bit_16: "unat (drop_bit 16 (acc :: u32)) = unat acc div 65536"
  by (simp only: unat_drop_bit_eq drop_bit_eq_div [of 16 "unat acc"]) simp

lemma unat_and_0xFFFF: "unat ((acc :: u32) AND 0xFFFF) = unat acc mod 65536"
proof -
  have "acc AND 0xFFFF = take_bit 16 acc"
    by (simp add: take_bit_eq_mask mask_eq_exp_minus_1)
  then show ?thesis
    by (simp only: unsigned_take_bit_eq take_bit_eq_mod [of 16 "unat acc"]) simp
qed

lemma unat_fold_step:
  "unat ((acc AND 0xFFFF) + drop_bit 16 (acc :: u32)) = unat acc mod 65536 + unat acc div 65536"
proof -
  have "unat acc div 65536 < 65536"
    by (rule less_mult_imp_div_less) simp
  then show ?thesis
    by (simp add: unat_word_ariths unat_and_0xFFFF unat_drop_bit_16)
qed

lemma drop_bit_16_eq_0_iff: "drop_bit 16 (acc :: u32) = 0 \<longleftrightarrow> unat acc < 65536"
proof -
  have "drop_bit 16 acc = 0 \<longleftrightarrow> unat (drop_bit 16 acc) = 0"
    by (simp only: unat_eq_0)
  also have "\<dots> \<longleftrightarrow> unat acc < 65536"
    by (simp only: unat_drop_bit_16 div_eq_0_iff) simp
  finally show ?thesis .
qed

lemma fold_step_less: "65536 \<le> (n :: nat) \<Longrightarrow> n mod 65536 + n div 65536 < n"
proof -
  assume "65536 \<le> n"
  then have "0 < n div 65536" by (simp add: div_greater_zero_iff)
  moreover have "n = 65536 * (n div 65536) + n mod 65536" by simp
  ultimately show ?thesis by linarith
qed

termination fold_carries
proof (relation "measure unat")
  fix acc :: u32
  assume "drop_bit 16 acc \<noteq> 0"
  then show "((acc AND 0xFFFF) + drop_bit 16 acc, acc) \<in> measure unat"
    using fold_step_less [of "unat acc"]
    by (simp add: unat_fold_step drop_bit_16_eq_0_iff not_less)
qed simp

declare fold_carries.simps [simp del]

definition OnesComplementChecksum :: "bytes \<Rightarrow> u16" where
  "OnesComplementChecksum data = ucast (NOT (fold_carries (sum_words data 0)) AND 0xFFFF)"

text \<open>
  The header loop of \<^verbatim>\<open>ComputeTcpChecksum\<close> always reads a second byte: an odd header length
  reads past the buffer, here \<open>None\<close>.
\<close>

fun sum_header :: "bytes \<Rightarrow> u32 \<Rightarrow> u32 option" where
  "sum_header (a # b # rest) acc = sum_header rest (acc + ucast (word_of_bytes a b))"
| "sum_header [a] acc = None"
| "sum_header [] acc = Some acc"

definition sum_pseudo_header :: "u32 \<Rightarrow> u32 \<Rightarrow> u16 \<Rightarrow> u32" where
  "sum_pseudo_header src_ip_net dst_ip_net tcp_len =
     (let src_p = mem32 src_ip_net; dst_p = mem32 dst_ip_net
      in 0 + ucast (word_of_bytes (src_p ! 0) (src_p ! 1))
           + ucast (word_of_bytes (src_p ! 2) (src_p ! 3))
           + ucast (word_of_bytes (dst_p ! 0) (dst_p ! 1))
           + ucast (word_of_bytes (dst_p ! 2) (dst_p ! 3))
           + 6 + ucast tcp_len)"

definition ComputeTcpChecksum_net :: "u32 \<Rightarrow> u32 \<Rightarrow> bytes \<Rightarrow> bytes \<Rightarrow> u16 option" where
  "ComputeTcpChecksum_net src_ip_net dst_ip_net header_bytes payload_bytes =
     do {
       let tcp_len = of_nat (length header_bytes + length payload_bytes);
       acc \<leftarrow> sum_header header_bytes (sum_pseudo_header src_ip_net dst_ip_net tcp_len);
       let acc = sum_words payload_bytes acc;
       Some (ucast (NOT (fold_carries acc) AND 0xFFFF))
     }"

text \<open>The overload on host-order addresses.\<close>

definition ComputeTcpChecksum :: "u32 \<Rightarrow> u32 \<Rightarrow> bytes \<Rightarrow> bytes \<Rightarrow> u16 option" where
  "ComputeTcpChecksum src_address dst_address header_bytes payload_bytes =
     ComputeTcpChecksum_net (htonl src_address) (htonl dst_address) header_bytes payload_bytes"

text \<open>The pseudo-header of RFC 793 as bytes, for the reference definition of the TCP checksum.\<close>

definition pseudo_header :: "u32 \<Rightarrow> u32 \<Rightarrow> u16 \<Rightarrow> bytes" where
  "pseudo_header src dst tcp_len =
     mem32 (htonl src) @ mem32 (htonl dst) @ [0, 6] @ mem16 (htons tcp_len)"

text \<open>The exact sum of the 16-bit words of a buffer.\<close>

fun wsum :: "bytes \<Rightarrow> nat" where
  "wsum (a # b # rest) = unat (word_of_bytes a b) + wsum rest"
| "wsum [a] = 256 * unat a"
| "wsum [] = 0"

text \<open>The one's complement sum as a residue: zero only for zero, else in 1..65535.\<close>

definition ones_residue :: "nat \<Rightarrow> nat" where
  "ones_residue n = (if n = 0 then 0 else (n - 1) mod 65535 + 1)"

subsection \<open>The fold\<close>

lemma ones_residue_step:
  assumes "65536 \<le> n"
  shows "ones_residue (n mod 65536 + n div 65536) = ones_residue n"
proof -
  let ?m = "n mod 65536 + n div 65536"
  have q: "0 < n div 65536" using assms by (simp add: div_greater_zero_iff)
  have "n = 65536 * (n div 65536) + n mod 65536" by simp
  then have "n - 1 = (?m - 1) + 65535 * (n div 65536)" using q by linarith
  then have "(n - 1) mod 65535 = (?m - 1) mod 65535" by (metis mod_mult_self2)
  then show ?thesis using q assms by (simp add: ones_residue_def)
qed

lemma unat_fold_carries: "unat (fold_carries acc) = ones_residue (unat acc)"
proof (induction acc rule: fold_carries.induct)
  case (1 acc)
  show ?case
  proof (cases "drop_bit 16 acc = 0")
    case True
    then have "unat acc < 65536" by (simp only: drop_bit_16_eq_0_iff)
    with True show ?thesis
      by (auto simp: fold_carries.simps [of acc] ones_residue_def)
  next
    case False
    then have "65536 \<le> unat acc" by (simp add: drop_bit_16_eq_0_iff)
    with False "1.IH" show ?thesis
      by (simp add: fold_carries.simps [of acc] unat_fold_step ones_residue_step)
  qed
qed

lemma ones_residue_le: "ones_residue n \<le> 65535"
proof -
  have "(n - 1) mod 65535 < 65535" by (rule mod_less_divisor) simp
  then show ?thesis by (auto simp: ones_residue_def)
qed

lemma unat_complement16:
  assumes "unat (f :: u32) \<le> 65535"
  shows "unat (ucast (NOT f AND 0xFFFF) :: u16) = 65535 - unat f"
proof -
  have "NOT f AND 0xFFFF = take_bit 16 (NOT f)"
    by (simp add: take_bit_eq_mask mask_eq_exp_minus_1)
  then have "ucast (NOT f AND 0xFFFF) = (NOT (ucast f) :: u16)"
    by (auto intro: bit_word_eqI simp: bit_simps)
  moreover have "unat (ucast f :: u16) = unat f"
    using assms by (simp add: unsigned_ucast_eq take_bit_nat_eq_self_iff)
  moreover have "unat (NOT x) = 65535 - unat x" for x :: u16
  proof -
    have "NOT x = - 1 - x" by (simp add: not_eq_complement)
    then show ?thesis using unat_sub [of x "- 1"]
      by (simp add: unsigned_minus_1_eq_mask mask_eq_exp_minus_1)
  qed
  ultimately show ?thesis by simp
qed

subsection \<open>The sum\<close>

lemma unat_pad_byte: "unat (push_bit 8 (ucast (a :: u8)) :: u16) = 256 * unat a"
  using unat_word_of_bytes [of a 0] by (simp add: word_of_bytes_def)

lemma unat_sum_words:
  "unat acc + wsum bs < 4294967296 \<Longrightarrow> unat (sum_words bs acc) = unat acc + wsum bs"
proof (induction bs acc rule: sum_words.induct)
  case (1 a b rest acc)
  then have "unat (acc + ucast (word_of_bytes a b)) = unat acc + unat (word_of_bytes a b)"
    by (simp add: unat_word_ariths)
  with 1 show ?case by (simp add: add.assoc)
next
  case (2 a acc)
  then show ?case by (simp add: unat_word_ariths unat_pad_byte)
qed simp

lemma wsum_bound: "wsum bs \<le> 65535 * ((length bs + 1) div 2)"
proof (induction bs rule: wsum.induct)
  case (1 a b rest)
  then show ?case by (auto intro: add_mono)
next
  case (2 a)
  have "256 * unat a \<le> 65535" using unat_bounds(4) [of a] by linarith
  then show ?case by simp
qed simp

lemma wsum_append: "even (length xs) \<Longrightarrow> wsum (xs @ ys) = wsum xs + wsum ys"
  by (induction xs rule: wsum.induct) auto

lemma sum_words_append: "even (length xs) \<Longrightarrow> sum_words (xs @ ys) acc = sum_words ys (sum_words xs acc)"
  by (induction xs acc rule: sum_words.induct) auto

lemma sum_header_even: "even (length hs) \<Longrightarrow> sum_header hs acc = Some (sum_words hs acc)"
  by (induction hs acc rule: sum_header.induct) auto

lemma wsum_fits:
  assumes "length bs \<le> 131072"
  shows "wsum bs < 4294967296"
proof -
  have "(length bs + 1) div 2 \<le> 65536" using assms by simp
  then have "65535 * ((length bs + 1) div 2) \<le> 65535 * 65536" by simp
  with wsum_bound [of bs] show ?thesis by simp
qed

lemma unat_OnesComplementChecksum:
  assumes "length bs \<le> 131072"
  shows "unat (OnesComplementChecksum bs) = 65535 - ones_residue (wsum bs)"
proof -
  have "unat (fold_carries (sum_words bs 0)) = ones_residue (wsum bs)"
    using unat_sum_words [of 0 bs] wsum_fits [OF assms] by (simp add: unat_fold_carries)
  then show ?thesis
    unfolding OnesComplementChecksum_def
    using unat_complement16 [of "fold_carries (sum_words bs 0)"] ones_residue_le [of "wsum bs"]
    by simp
qed

lemma ones_residue_complement: "ones_residue (n + (65535 - ones_residue n)) = 65535"
proof (cases "n = 0")
  case True
  then show ?thesis by (simp add: ones_residue_def)
next
  case False
  let ?k = "(n - 1) div 65535" and ?r = "(n - 1) mod 65535"
  have "?r < 65535" by (rule mod_less_divisor) simp
  moreover have "n - 1 = 65535 * ?k + ?r" by simp
  ultimately have "n + (65535 - (?r + 1)) - 1 = 65534 + 65535 * ?k" using False by linarith
  then have "(n + (65535 - (?r + 1)) - 1) mod 65535 = 65534" by (simp only: mod_mult_self2) simp
  with False show ?thesis by (simp only: ones_residue_def if_False) simp
qed

lemma OnesComplementChecksum_zero:
  assumes "length bs \<le> 131072" and "ones_residue (wsum bs) = 65535"
  shows "OnesComplementChecksum bs = 0"
proof -
  have "unat (OnesComplementChecksum bs) = 0"
    using assms by (simp add: unat_OnesComplementChecksum)
  then show ?thesis by (simp only: unat_eq_0)
qed

text \<open>A field that holds the checksum of the rest makes the whole buffer verify.\<close>

lemma checksum_field_verifies:
  assumes "even (length pre)" and "length pre + 2 + length post \<le> 131072"
  shows "OnesComplementChecksum
    (pre @ mem16 (htons (OnesComplementChecksum (pre @ [0, 0] @ post))) @ post) = 0"
proof -
  define c where "c = OnesComplementChecksum (pre @ [0, 0] @ post)"
  have "wsum (pre @ [0, 0] @ post) = wsum pre + wsum post"
    using assms(1) by (simp add: wsum_append unat_word_of_bytes)
  then have c: "unat c = 65535 - ones_residue (wsum pre + wsum post)"
    using assms(2) by (simp add: c_def unat_OnesComplementChecksum)
  have "wsum (pre @ mem16 (htons c) @ post) = wsum pre + wsum post + unat c"
    using assms(1) by (simp add: wsum_append)
  then have "ones_residue (wsum (pre @ mem16 (htons c) @ post)) = 65535"
    using ones_residue_complement by (simp only: c)
  then have "OnesComplementChecksum (pre @ mem16 (htons c) @ post) = 0"
    by (rule OnesComplementChecksum_zero [rotated]) (use assms(2) in simp)
  then show ?thesis by (simp only: c_def)
qed

text \<open>C23. A buffer of datagram size whose 16-bit field at an even offset holds the RFC 1071
  checksum computed with that field zero verifies: the checksum of the whole buffer is zero.\<close>

theorem checksum_verifies:
  assumes "even (length pre)" and "length pre + 2 + length post \<le> 131072"
  shows "OnesComplementChecksum
    (pre @ mem16 (htons (OnesComplementChecksum (pre @ [0, 0] @ post))) @ post) = 0"
  using assms by (rule checksum_field_verifies)

theorem checksum_verifies_witness:
  "OnesComplementChecksum
    ([0x45, 0x00] @ mem16 (htons (OnesComplementChecksum ([0x45, 0x00] @ [0, 0] @ [0x0A]))) @ [0x0A]) = 0"
  by (rule checksum_verifies) simp_all

text \<open>The TCP checksum is the plain checksum of pseudo-header, header and payload.\<close>

lemma sum_words_pseudo_header:
  "sum_words (pseudo_header src dst len) 0 = sum_pseudo_header (htonl src) (htonl dst) len"
proof -
  have "word_of_bytes 0 6 = 6" by (simp add: word_of_bytes_def)
  then show ?thesis
    by (simp add: pseudo_header_def sum_pseudo_header_def)
qed

lemma length_pseudo_header [simp]: "length (pseudo_header src dst len) = 12"
  by (simp add: pseudo_header_def)

lemma ComputeTcpChecksum_eq:
  assumes "even (length hdr)"
  shows "ComputeTcpChecksum src dst hdr payload =
    Some (OnesComplementChecksum
      (pseudo_header src dst (of_nat (length hdr + length payload)) @ hdr @ payload))"
proof -
  have "sum_words (pseudo_header src dst len @ hdr @ payload) 0 =
      sum_words payload (sum_words hdr (sum_pseudo_header (htonl src) (htonl dst) len))" for len
    using assms by (simp add: sum_words_append flip: sum_words_pseudo_header)
  then show ?thesis
    using assms
    by (simp add: ComputeTcpChecksum_def ComputeTcpChecksum_net_def OnesComplementChecksum_def
        sum_header_even)
qed

text \<open>C24. For every header of even length, \<^verbatim>\<open>ComputeTcpChecksum\<close> returns the RFC 1071 checksum
  of the concatenation of the RFC 793 pseudo-header, the header and the payload, whatever
  their lengths.\<close>

theorem ComputeTcpChecksum_reference:
  assumes "even (length hdr)"
  shows "ComputeTcpChecksum src dst hdr payload =
    Some (OnesComplementChecksum
      (pseudo_header src dst (of_nat (length hdr + length payload)) @ hdr @ payload))"
  using assms by (rule ComputeTcpChecksum_eq)

theorem ComputeTcpChecksum_reference_witness:
  "ComputeTcpChecksum 0x0A000002 0x0A000003 [0x1F, 0x90] [0x41] =
    Some (OnesComplementChecksum
      (pseudo_header 0x0A000002 0x0A000003 (of_nat (length [0x1F, 0x90 :: u8] + length [0x41 :: u8]))
        @ [0x1F, 0x90] @ [0x41]))"
  by (rule ComputeTcpChecksum_reference) simp

end
