(* ===== verification/IPv4_Packet.thy ===== *)
theory IPv4_Packet
  imports Checksum
begin

text \<open>
  \<^verbatim>\<open>IPv4Packet.h\<close>, \<^verbatim>\<open>IPv4Packet.cpp\<close> and \<^verbatim>\<open>IPv4PacketView.h\<close>: the packed header struct with its
  getters and setters, the serialisation of a datagram, and the non-owning view that parses
  one. The struct keeps the multi-byte fields in network byte order, as the code does. A span of the source is the list of its
  bytes; writes through a span thread the destination buffer, and a write outside of it is
  \<open>None\<close>. The lemmas show that the view reads back every header field, that the setters
  touch their own bits only, and that a written datagram is valid, carries its payload and
  verifies its header checksum.
\<close>

subsection \<open>The header\<close>

record IPv4Header =
  ip_version_ihl :: u8
  ip_type_of_service :: u8
  ip_total_length :: u16
  ip_identification :: u16
  ip_flags_fragment_offset :: u16
  ip_ttl :: u8
  ip_protocol :: u8
  ip_checksum :: u16
  ip_source_address :: u32
  ip_destination_address :: u32

text \<open>\<^verbatim>\<open>IPv4Header{}\<close>: value initialisation.\<close>

definition IPv4Header_zero :: IPv4Header where
  "IPv4Header_zero = \<lparr>ip_version_ihl = 0, ip_type_of_service = 0, ip_total_length = 0,
     ip_identification = 0, ip_flags_fragment_offset = 0, ip_ttl = 0, ip_protocol = 0,
     ip_checksum = 0, ip_source_address = 0, ip_destination_address = 0\<rparr>"

text \<open>Raw getters: the fields as they are stored.\<close>

definition IPv4Header_version_ihl :: "IPv4Header \<Rightarrow> u8" where
  "IPv4Header_version_ihl h = ip_version_ihl h"

definition IPv4Header_type_of_service :: "IPv4Header \<Rightarrow> u8" where
  "IPv4Header_type_of_service h = ip_type_of_service h"

definition IPv4Header_total_length :: "IPv4Header \<Rightarrow> u16" where
  "IPv4Header_total_length h = ip_total_length h"

definition IPv4Header_identification :: "IPv4Header \<Rightarrow> u16" where
  "IPv4Header_identification h = ip_identification h"

definition IPv4Header_flags_fragment_offset :: "IPv4Header \<Rightarrow> u16" where
  "IPv4Header_flags_fragment_offset h = ip_flags_fragment_offset h"

definition IPv4Header_ttl :: "IPv4Header \<Rightarrow> u8" where
  "IPv4Header_ttl h = ip_ttl h"

definition IPv4Header_protocol :: "IPv4Header \<Rightarrow> u8" where
  "IPv4Header_protocol h = ip_protocol h"

definition IPv4Header_checksum :: "IPv4Header \<Rightarrow> u16" where
  "IPv4Header_checksum h = ip_checksum h"

definition IPv4Header_source_address :: "IPv4Header \<Rightarrow> u32" where
  "IPv4Header_source_address h = ip_source_address h"

definition IPv4Header_destination_address :: "IPv4Header \<Rightarrow> u32" where
  "IPv4Header_destination_address h = ip_destination_address h"

lemmas IPv4Header_raw_getter_defs [simp] =
  IPv4Header_version_ihl_def IPv4Header_type_of_service_def IPv4Header_total_length_def
  IPv4Header_identification_def IPv4Header_flags_fragment_offset_def IPv4Header_ttl_def
  IPv4Header_protocol_def IPv4Header_checksum_def IPv4Header_source_address_def
  IPv4Header_destination_address_def

text \<open>Getters in host byte order.\<close>

definition IPv4Header_version :: "IPv4Header \<Rightarrow> u8" where
  "IPv4Header_version h = drop_bit 4 (ip_version_ihl h)"

definition IPv4Header_IHL :: "IPv4Header \<Rightarrow> u8" where
  "IPv4Header_IHL h = ip_version_ihl h AND 0x0F"

definition IPv4Header_header_length :: "IPv4Header \<Rightarrow> u8" where
  "IPv4Header_header_length h = IPv4Header_IHL h * 4"

definition IPv4Header_total_length_ntoh :: "IPv4Header \<Rightarrow> u16" where
  "IPv4Header_total_length_ntoh h = ntohs (ip_total_length h)"

definition IPv4Header_identification_ntoh :: "IPv4Header \<Rightarrow> u16" where
  "IPv4Header_identification_ntoh h = ntohs (ip_identification h)"

definition IPv4Header_flags :: "IPv4Header \<Rightarrow> u8" where
  "IPv4Header_flags h = ucast (drop_bit 13 (ntohs (ip_flags_fragment_offset h)))"

definition IPv4Header_fragment_offset :: "IPv4Header \<Rightarrow> u16" where
  "IPv4Header_fragment_offset h = ntohs (ip_flags_fragment_offset h) AND 0x1FFF"

definition IPv4Header_flags_fragment_offset_ntoh :: "IPv4Header \<Rightarrow> u16" where
  "IPv4Header_flags_fragment_offset_ntoh h = ntohs (ip_flags_fragment_offset h)"

definition IPv4Header_checksum_ntoh :: "IPv4Header \<Rightarrow> u16" where
  "IPv4Header_checksum_ntoh h = ntohs (ip_checksum h)"

definition IPv4Header_source_address_ntoh :: "IPv4Header \<Rightarrow> u32" where
  "IPv4Header_source_address_ntoh h = ntohl (ip_source_address h)"

definition IPv4Header_destination_address_ntoh :: "IPv4Header \<Rightarrow> u32" where
  "IPv4Header_destination_address_ntoh h = ntohl (ip_destination_address h)"

text \<open>Setters.\<close>

definition IPv4Header_set_version :: "u8 \<Rightarrow> IPv4Header \<Rightarrow> IPv4Header" where
  "IPv4Header_set_version version h =
     h\<lparr>ip_version_ihl := (ip_version_ihl h AND 0x0F) OR push_bit 4 (version AND 0x0F)\<rparr>"

definition IPv4Header_set_ihl :: "u8 \<Rightarrow> IPv4Header \<Rightarrow> IPv4Header" where
  "IPv4Header_set_ihl ihl h =
     h\<lparr>ip_version_ihl := (ip_version_ihl h AND 0xF0) OR (ihl AND 0x0F)\<rparr>"

definition IPv4Header_set_header_length :: "u8 \<Rightarrow> IPv4Header \<Rightarrow> IPv4Header" where
  "IPv4Header_set_header_length nbytes h = IPv4Header_set_ihl (nbytes div 4) h"

definition IPv4Header_set_type_of_service :: "u8 \<Rightarrow> IPv4Header \<Rightarrow> IPv4Header" where
  "IPv4Header_set_type_of_service tos h = h\<lparr>ip_type_of_service := tos\<rparr>"

definition IPv4Header_set_total_length :: "u16 \<Rightarrow> IPv4Header \<Rightarrow> IPv4Header" where
  "IPv4Header_set_total_length total_length h = h\<lparr>ip_total_length := htons total_length\<rparr>"

definition IPv4Header_set_identification :: "u16 \<Rightarrow> IPv4Header \<Rightarrow> IPv4Header" where
  "IPv4Header_set_identification identification h =
     h\<lparr>ip_identification := htons identification\<rparr>"

definition IPv4Header_set_flags :: "u8 \<Rightarrow> IPv4Header \<Rightarrow> IPv4Header" where
  "IPv4Header_set_flags flags h =
     (let word = ntohs (ip_flags_fragment_offset h)
      in h\<lparr>ip_flags_fragment_offset :=
             htons ((word AND 0x1FFF) OR push_bit 13 (ucast (flags AND 0x07)))\<rparr>)"

definition IPv4Header_set_fragment_offset :: "u16 \<Rightarrow> IPv4Header \<Rightarrow> IPv4Header" where
  "IPv4Header_set_fragment_offset offset h =
     (let word = ntohs (ip_flags_fragment_offset h)
      in h\<lparr>ip_flags_fragment_offset := htons ((word AND 0xE000) OR (offset AND 0x1FFF))\<rparr>)"

definition IPv4Header_set_ttl :: "u8 \<Rightarrow> IPv4Header \<Rightarrow> IPv4Header" where
  "IPv4Header_set_ttl ttl h = h\<lparr>ip_ttl := ttl\<rparr>"

definition IPv4Header_set_protocol :: "u8 \<Rightarrow> IPv4Header \<Rightarrow> IPv4Header" where
  "IPv4Header_set_protocol protocol h = h\<lparr>ip_protocol := protocol\<rparr>"

definition IPv4Header_set_checksum :: "u16 \<Rightarrow> IPv4Header \<Rightarrow> IPv4Header" where
  "IPv4Header_set_checksum checksum h = h\<lparr>ip_checksum := htons checksum\<rparr>"

definition IPv4Header_set_source_address :: "u32 \<Rightarrow> IPv4Header \<Rightarrow> IPv4Header" where
  "IPv4Header_set_source_address address h = h\<lparr>ip_source_address := htonl address\<rparr>"

text \<open>The setters that take a dotted quad ignore the result of \<^verbatim>\<open>inet_pton\<close>, a parameter that yields the address in
  network order, or \<open>None\<close> for a text that is no address, and then nothing is stored.\<close>

definition IPv4Header_set_source_address_text :: "(string \<Rightarrow> u32 option) \<Rightarrow> string \<Rightarrow> IPv4Header \<Rightarrow> IPv4Header" where
  "IPv4Header_set_source_address_text inet_pton address h =
     (case inet_pton address of None \<Rightarrow> h | Some a \<Rightarrow> h\<lparr>ip_source_address := a\<rparr>)"

definition IPv4Header_set_destination_address_text ::
  "(string \<Rightarrow> u32 option) \<Rightarrow> string \<Rightarrow> IPv4Header \<Rightarrow> IPv4Header" where
  "IPv4Header_set_destination_address_text inet_pton address h =
     (case inet_pton address of None \<Rightarrow> h | Some a \<Rightarrow> h\<lparr>ip_destination_address := a\<rparr>)"

definition IPv4Header_set_destination_address :: "u32 \<Rightarrow> IPv4Header \<Rightarrow> IPv4Header" where
  "IPv4Header_set_destination_address address h = h\<lparr>ip_destination_address := htonl address\<rparr>"

text \<open>The memory image of the packed struct: \<^verbatim>\<open>serialize\<close> copies these 20 bytes.\<close>

definition IPv4Header_wire :: "IPv4Header \<Rightarrow> bytes" where
  "IPv4Header_wire h =
     [ip_version_ihl h, ip_type_of_service h] @ mem16 (ip_total_length h)
     @ mem16 (ip_identification h) @ mem16 (ip_flags_fragment_offset h)
     @ [ip_ttl h, ip_protocol h] @ mem16 (ip_checksum h)
     @ mem32 (ip_source_address h) @ mem32 (ip_destination_address h)"

definition IPv4Header_serialize :: "IPv4Header \<Rightarrow> bytes \<Rightarrow> bytes option" where
  "IPv4Header_serialize h out = copy_n (IPv4Header_wire h) out 0"

definition IPv4Header_compute_checksum :: "IPv4Header \<Rightarrow> u16" where
  "IPv4Header_compute_checksum h =
     OnesComplementChecksum ((IPv4Header_wire h)[10 := 0, 11 := 0])"

subsection \<open>The datagram\<close>

record IPv4Packet =
  ip_header :: IPv4Header
  ip_payload :: bytes

definition IPv4Packet_size :: "IPv4Packet \<Rightarrow> nat" where
  "IPv4Packet_size p = 20 + length (ip_payload p)"

definition IPv4Packet_header_len :: "IPv4Packet \<Rightarrow> nat" where
  "IPv4Packet_header_len p =
     (if IPv4Header_header_length (ip_header p) > 0
      then unat (IPv4Header_header_length (ip_header p)) else 20)"

definition IPv4Packet_write :: "IPv4Packet \<Rightarrow> bytes \<Rightarrow> (bytes \<times> nat) option" where
  "IPv4Packet_write p out =
     (let header_len = IPv4Packet_header_len p;
          total = header_len + length (ip_payload p)
      in if length out < total then Some (out, 0)
         else
           let hdr = IPv4Header_set_total_length (of_nat total) (ip_header p);
               hdr = IPv4Header_set_checksum (IPv4Header_compute_checksum hdr) hdr
           in do {
             out \<leftarrow> copy_n (IPv4Header_wire hdr) out 0;
             out \<leftarrow> copy_n (ip_payload p) out header_len;
             Some (out, total)
           })"

definition WriteIPv4Packet :: "bytes \<Rightarrow> IPv4Packet \<Rightarrow> (bytes \<times> nat) option" where
  "WriteIPv4Packet out packet = IPv4Packet_write packet out"

subsection \<open>The view\<close>

definition IPv4PacketView_total_length :: "bytes \<Rightarrow> u16" where
  "IPv4PacketView_total_length bs = ntohs (BE16 bs 2)"

definition IPv4PacketView_identification :: "bytes \<Rightarrow> u16" where
  "IPv4PacketView_identification bs = ntohs (BE16 bs 4)"

definition IPv4PacketView_flags_fragment_offset :: "bytes \<Rightarrow> u16" where
  "IPv4PacketView_flags_fragment_offset bs = ntohs (BE16 bs 6)"

definition IPv4PacketView_version_ihl :: "bytes \<Rightarrow> u8" where
  "IPv4PacketView_version_ihl bs = bs ! 0"

definition IPv4PacketView_type_of_service :: "bytes \<Rightarrow> u8" where
  "IPv4PacketView_type_of_service bs = bs ! 1"

definition IPv4PacketView_ttl :: "bytes \<Rightarrow> u8" where
  "IPv4PacketView_ttl bs = bs ! 8"

definition IPv4PacketView_protocol :: "bytes \<Rightarrow> u8" where
  "IPv4PacketView_protocol bs = bs ! 9"

definition IPv4PacketView_checksum :: "bytes \<Rightarrow> u16" where
  "IPv4PacketView_checksum bs = ntohs (BE16 bs 10)"

definition IPv4PacketView_source_address :: "bytes \<Rightarrow> u32" where
  "IPv4PacketView_source_address bs = ntohl (BE32 bs 12)"

definition IPv4PacketView_destination_address :: "bytes \<Rightarrow> u32" where
  "IPv4PacketView_destination_address bs = ntohl (BE32 bs 16)"

definition IPv4PacketView_version :: "bytes \<Rightarrow> u8" where
  "IPv4PacketView_version bs = drop_bit 4 (bs ! 0)"

definition IPv4PacketView_IHL :: "bytes \<Rightarrow> u8" where
  "IPv4PacketView_IHL bs = bs ! 0 AND 0x0F"

definition IPv4PacketView_header_length :: "bytes \<Rightarrow> u8" where
  "IPv4PacketView_header_length bs = IPv4PacketView_IHL bs * 4"

definition IPv4PacketView_total_length_ntoh :: "bytes \<Rightarrow> u16" where
  "IPv4PacketView_total_length_ntoh bs = BE16 bs 2"

definition IPv4PacketView_identification_ntoh :: "bytes \<Rightarrow> u16" where
  "IPv4PacketView_identification_ntoh bs = BE16 bs 4"

definition IPv4PacketView_flags :: "bytes \<Rightarrow> u8" where
  "IPv4PacketView_flags bs = ucast (drop_bit 13 (BE16 bs 6))"

definition IPv4PacketView_fragment_offset :: "bytes \<Rightarrow> u16" where
  "IPv4PacketView_fragment_offset bs = BE16 bs 6 AND 0x1FFF"

definition IPv4PacketView_flags_fragment_offset_ntoh :: "bytes \<Rightarrow> u16" where
  "IPv4PacketView_flags_fragment_offset_ntoh bs = BE16 bs 6"

definition IPv4PacketView_checksum_ntoh :: "bytes \<Rightarrow> u16" where
  "IPv4PacketView_checksum_ntoh bs = BE16 bs 10"

definition IPv4PacketView_source_address_ntoh :: "bytes \<Rightarrow> u32" where
  "IPv4PacketView_source_address_ntoh bs = BE32 bs 12"

definition IPv4PacketView_destination_address_ntoh :: "bytes \<Rightarrow> u32" where
  "IPv4PacketView_destination_address_ntoh bs = BE32 bs 16"

definition IPv4PacketView_valid :: "bytes \<Rightarrow> bool" where
  "IPv4PacketView_valid bs \<longleftrightarrow> 20 \<le> length bs
     \<and> IPv4PacketView_version bs = 4
     \<and> unat (IPv4PacketView_header_length bs) \<le> unat (IPv4PacketView_total_length_ntoh bs)
     \<and> unat (IPv4PacketView_total_length_ntoh bs) \<le> length bs"

definition IPv4PacketView_payload :: "bytes \<Rightarrow> bytes" where
  "IPv4PacketView_payload bs =
     take (unat (IPv4PacketView_total_length_ntoh bs) - unat (IPv4PacketView_header_length bs))
       (drop (unat (IPv4PacketView_header_length bs)) bs)"

definition IPv4PacketView_Parse :: "bytes \<Rightarrow> bytes option" where
  "IPv4PacketView_Parse bs = (if \<not> IPv4PacketView_valid bs then None else Some bs)"

lemmas IPv4Header_getter_defs =
  IPv4Header_version_def IPv4Header_IHL_def IPv4Header_header_length_def
  IPv4Header_total_length_ntoh_def IPv4Header_identification_ntoh_def IPv4Header_flags_def
  IPv4Header_fragment_offset_def IPv4Header_flags_fragment_offset_ntoh_def
  IPv4Header_checksum_ntoh_def IPv4Header_source_address_ntoh_def
  IPv4Header_destination_address_ntoh_def

lemmas IPv4Header_setter_defs =
  IPv4Header_set_version_def IPv4Header_set_ihl_def IPv4Header_set_header_length_def
  IPv4Header_set_type_of_service_def IPv4Header_set_total_length_def
  IPv4Header_set_identification_def IPv4Header_set_flags_def IPv4Header_set_fragment_offset_def
  IPv4Header_set_ttl_def IPv4Header_set_protocol_def IPv4Header_set_checksum_def
  IPv4Header_set_source_address_def IPv4Header_set_destination_address_def

lemmas IPv4PacketView_getter_defs =
  IPv4PacketView_version_ihl_def IPv4PacketView_type_of_service_def
  IPv4PacketView_total_length_def IPv4PacketView_identification_def
  IPv4PacketView_flags_fragment_offset_def IPv4PacketView_ttl_def IPv4PacketView_protocol_def
  IPv4PacketView_checksum_def IPv4PacketView_source_address_def
  IPv4PacketView_destination_address_def
  IPv4PacketView_version_def IPv4PacketView_IHL_def IPv4PacketView_header_length_def
  IPv4PacketView_total_length_ntoh_def IPv4PacketView_identification_ntoh_def
  IPv4PacketView_flags_def IPv4PacketView_fragment_offset_def
  IPv4PacketView_flags_fragment_offset_ntoh_def IPv4PacketView_checksum_ntoh_def
  IPv4PacketView_source_address_ntoh_def IPv4PacketView_destination_address_ntoh_def

text \<open>The header as \<^verbatim>\<open>write\<close> finalises it, and the bytes it produces for a 20-byte header.\<close>

definition IPv4Packet_final_header :: "IPv4Packet \<Rightarrow> IPv4Header" where
  "IPv4Packet_final_header p =
     (let hdr = IPv4Header_set_total_length
            (of_nat (IPv4Packet_header_len p + length (ip_payload p))) (ip_header p)
      in IPv4Header_set_checksum (IPv4Header_compute_checksum hdr) hdr)"

definition IPv4Packet_encode :: "IPv4Packet \<Rightarrow> bytes" where
  "IPv4Packet_encode p = IPv4Header_wire (IPv4Packet_final_header p) @ ip_payload p"

subsection \<open>Fields on the wire\<close>

lemma length_IPv4Header_wire [simp]: "length (IPv4Header_wire h) = 20"
  by (simp add: IPv4Header_wire_def)

lemma htons_fold [endian_simps]: "word_of_bytes (ucast w) (ucast (drop_bit 8 w)) = htons w"
  by (simp add: htons_def)

lemma htonl_fold [endian_simps]:
  "dword_of_bytes (ucast w) (ucast (drop_bit 8 w)) (ucast (drop_bit 16 w)) (ucast (drop_bit 24 w))
   = htonl w"
  by (simp add: htonl_def)

lemma IPv4Header_wire_nth:
  "BE16 (IPv4Header_wire h @ rest) 2 = ntohs (ip_total_length h)"
  "BE16 (IPv4Header_wire h @ rest) 4 = ntohs (ip_identification h)"
  "BE16 (IPv4Header_wire h @ rest) 6 = ntohs (ip_flags_fragment_offset h)"
  "BE16 (IPv4Header_wire h @ rest) 10 = ntohs (ip_checksum h)"
  "BE32 (IPv4Header_wire h @ rest) 12 = ntohl (ip_source_address h)"
  "BE32 (IPv4Header_wire h @ rest) 16 = ntohl (ip_destination_address h)"
  "(IPv4Header_wire h @ rest) ! 0 = ip_version_ihl h"
  "(IPv4Header_wire h @ rest) ! Suc 0 = ip_type_of_service h"
  "(IPv4Header_wire h @ rest) ! 8 = ip_ttl h"
  "(IPv4Header_wire h @ rest) ! 9 = ip_protocol h"
  by (simp_all add: IPv4Header_wire_def mem16_def mem32_def BE16_def BE32_def
      htons_fold htonl_fold)

lemma IPv4Header_view_fields:
  "IPv4PacketView_version (IPv4Header_wire h @ rest) = IPv4Header_version h"
  "IPv4PacketView_header_length (IPv4Header_wire h @ rest) = IPv4Header_header_length h"
  "IPv4PacketView_total_length_ntoh (IPv4Header_wire h @ rest) = IPv4Header_total_length_ntoh h"
  "IPv4PacketView_source_address_ntoh (IPv4Header_wire h @ rest) = IPv4Header_source_address_ntoh h"
  "IPv4PacketView_destination_address_ntoh (IPv4Header_wire h @ rest) =
     IPv4Header_destination_address_ntoh h"
  by (simp_all add: IPv4PacketView_getter_defs IPv4Header_getter_defs IPv4Header_wire_nth)

text \<open>The getters of the view agree with the getters of the header struct on every
  serialised header, whatever follows it: parsing the wire bytes gives back each field, raw and
  in host order.\<close>

theorem IPv4PacketView_mirrors_header:
  "let bs = IPv4Header_wire h @ rest in
     IPv4PacketView_version_ihl bs = IPv4Header_version_ihl h \<and>
     IPv4PacketView_type_of_service bs = IPv4Header_type_of_service h \<and>
     IPv4PacketView_total_length bs = IPv4Header_total_length h \<and>
     IPv4PacketView_identification bs = IPv4Header_identification h \<and>
     IPv4PacketView_flags_fragment_offset bs = IPv4Header_flags_fragment_offset h \<and>
     IPv4PacketView_ttl bs = IPv4Header_ttl h \<and>
     IPv4PacketView_protocol bs = IPv4Header_protocol h \<and>
     IPv4PacketView_checksum bs = IPv4Header_checksum h \<and>
     IPv4PacketView_source_address bs = IPv4Header_source_address h \<and>
     IPv4PacketView_destination_address bs = IPv4Header_destination_address h \<and>
     IPv4PacketView_version bs = IPv4Header_version h \<and>
     IPv4PacketView_IHL bs = IPv4Header_IHL h \<and>
     IPv4PacketView_header_length bs = IPv4Header_header_length h \<and>
     IPv4PacketView_total_length_ntoh bs = IPv4Header_total_length_ntoh h \<and>
     IPv4PacketView_identification_ntoh bs = IPv4Header_identification_ntoh h \<and>
     IPv4PacketView_flags bs = IPv4Header_flags h \<and>
     IPv4PacketView_fragment_offset bs = IPv4Header_fragment_offset h \<and>
     IPv4PacketView_flags_fragment_offset_ntoh bs = IPv4Header_flags_fragment_offset_ntoh h \<and>
     IPv4PacketView_checksum_ntoh bs = IPv4Header_checksum_ntoh h \<and>
     IPv4PacketView_source_address_ntoh bs = IPv4Header_source_address_ntoh h \<and>
     IPv4PacketView_destination_address_ntoh bs = IPv4Header_destination_address_ntoh h"
  by (simp add: IPv4PacketView_getter_defs IPv4Header_getter_defs IPv4Header_wire_nth)

subsection \<open>Setters\<close>

text \<open>The bit-field setters of the IPv4 header store the low bits of their argument and
  preserve the neighbouring field that shares the word.\<close>

theorem IPv4Header_bitfield_setters:
  "IPv4Header_version (IPv4Header_set_version v h) = v AND 0x0F \<and>
   IPv4Header_IHL (IPv4Header_set_version v h) = IPv4Header_IHL h \<and>
   IPv4Header_IHL (IPv4Header_set_ihl i h) = i AND 0x0F \<and>
   IPv4Header_version (IPv4Header_set_ihl i h) = IPv4Header_version h \<and>
   IPv4Header_flags (IPv4Header_set_flags f h) = f AND 0x07 \<and>
   IPv4Header_fragment_offset (IPv4Header_set_flags f h) = IPv4Header_fragment_offset h \<and>
   IPv4Header_fragment_offset (IPv4Header_set_fragment_offset off h) = off AND 0x1FFF \<and>
   IPv4Header_flags (IPv4Header_set_fragment_offset off h) = IPv4Header_flags h"
  by (simp add: IPv4Header_getter_defs IPv4Header_setter_defs mask_simps Let_def)

subsection \<open>Writing a datagram\<close>

lemma IPv4Header_wire_split:
  "IPv4Header_wire (IPv4Header_set_checksum c h) =
     take 10 (IPv4Header_wire h) @ mem16 (htons c) @ drop 12 (IPv4Header_wire h)"
  by (simp add: IPv4Header_wire_def IPv4Header_set_checksum_def mem16_def mem32_def)

lemma IPv4Header_wire_zeroed:
  "(IPv4Header_wire h)[10 := 0, 11 := 0] =
     take 10 (IPv4Header_wire h) @ [0, 0] @ drop 12 (IPv4Header_wire h)"
  by (simp add: IPv4Header_wire_def mem16_def mem32_def)

lemma IPv4Header_checksum_verifies:
  "OnesComplementChecksum
     (IPv4Header_wire (IPv4Header_set_checksum (IPv4Header_compute_checksum h) h)) = 0"
  unfolding IPv4Header_wire_split IPv4Header_compute_checksum_def IPv4Header_wire_zeroed
  by (rule checksum_field_verifies) simp_all

lemma unat_header_length:
  "unat (IPv4Header_header_length h) = 4 * unat (IPv4Header_IHL h)"
proof -
  have "unat (IPv4Header_IHL h) < 16"
    by (simp add: IPv4Header_IHL_def mask_simps unsigned_take_bit_eq take_bit_nat_less_exp [of 4, simplified])
  then show ?thesis
    by (simp add: IPv4Header_header_length_def unat_word_ariths)
qed

lemma IPv4Packet_header_len_20:
  assumes "IPv4Header_IHL (ip_header p) = 5"
  shows "IPv4Packet_header_len p = 20"
  using assms unat_header_length [of "ip_header p"]
  by (simp add: IPv4Packet_header_len_def)

lemma IPv4Packet_final_header_fields [simp]:
  "IPv4Header_version (IPv4Packet_final_header p) = IPv4Header_version (ip_header p)"
  "IPv4Header_IHL (IPv4Packet_final_header p) = IPv4Header_IHL (ip_header p)"
  "IPv4Header_header_length (IPv4Packet_final_header p) = IPv4Header_header_length (ip_header p)"
  "ip_protocol (IPv4Packet_final_header p) = ip_protocol (ip_header p)"
  "ip_ttl (IPv4Packet_final_header p) = ip_ttl (ip_header p)"
  "IPv4Header_source_address_ntoh (IPv4Packet_final_header p) =
     IPv4Header_source_address_ntoh (ip_header p)"
  "IPv4Header_destination_address_ntoh (IPv4Packet_final_header p) =
     IPv4Header_destination_address_ntoh (ip_header p)"
  "IPv4Header_total_length_ntoh (IPv4Packet_final_header p) =
     of_nat (IPv4Packet_header_len p + length (ip_payload p))"
  by (simp_all add: IPv4Packet_final_header_def IPv4Header_getter_defs IPv4Header_setter_defs Let_def)

lemma IPv4Packet_write_eq:
  assumes "IPv4Header_IHL (ip_header p) = 5"
    and "20 + length (ip_payload p) \<le> length out"
  shows "IPv4Packet_write p out =
    Some (IPv4Packet_encode p @ drop (20 + length (ip_payload p)) out, 20 + length (ip_payload p))"
proof -
  let ?w = "IPv4Header_wire (IPv4Packet_final_header p)"
  have "copy_n ?w out 0 = Some (?w @ drop 20 out)"
    using assms(2) by (simp add: copy_n_front)
  moreover have "copy_n (ip_payload p) (?w @ drop 20 out) 20 =
      Some (?w @ ip_payload p @ drop (length (ip_payload p)) (drop 20 out))"
    using assms(2) copy_n_after [of "ip_payload p" "drop 20 out" ?w] by simp
  ultimately show ?thesis
    using assms IPv4Packet_header_len_20 [OF assms(1)]
    by (simp add: IPv4Packet_write_def IPv4Packet_encode_def IPv4Packet_final_header_def Let_def
        add.commute)
qed

text \<open>What the receiving side sees of an encoded datagram.\<close>

lemma IPv4Packet_encode_view:
  assumes "IPv4Header_version (ip_header p) = 4" and "IPv4Header_IHL (ip_header p) = 5"
    and "20 + length (ip_payload p) \<le> 65535"
  shows "IPv4PacketView_valid (IPv4Packet_encode p)"
    and "IPv4PacketView_payload (IPv4Packet_encode p) = ip_payload p"
    and "IPv4PacketView_source_address_ntoh (IPv4Packet_encode p) =
      IPv4Header_source_address_ntoh (ip_header p)"
    and "IPv4PacketView_destination_address_ntoh (IPv4Packet_encode p) =
      IPv4Header_destination_address_ntoh (ip_header p)"
    and "OnesComplementChecksum (take 20 (IPv4Packet_encode p)) = 0"
    and "unat (IPv4PacketView_total_length_ntoh (IPv4Packet_encode p)) = 20 + length (ip_payload p)"
proof -
  have hl: "unat (IPv4Header_header_length (ip_header p)) = 20"
    using assms(2) by (simp add: unat_header_length)
  have tl: "unat (of_nat (20 + length (ip_payload p)) :: u16) = 20 + length (ip_payload p)"
    using assms(3) by (intro unat_of_nat_small) simp
  show "unat (IPv4PacketView_total_length_ntoh (IPv4Packet_encode p)) = 20 + length (ip_payload p)"
    using hl tl IPv4Packet_header_len_20 [OF assms(2)]
    by (simp add: IPv4Header_view_fields IPv4Packet_encode_def del: of_nat_add)
  show "IPv4PacketView_valid (IPv4Packet_encode p)"
    using assms(1) hl tl IPv4Packet_header_len_20 [OF assms(2)]
    by (simp add: IPv4PacketView_valid_def IPv4Header_view_fields IPv4Packet_encode_def del: of_nat_add)
  show "IPv4PacketView_payload (IPv4Packet_encode p) = ip_payload p"
    using hl tl IPv4Packet_header_len_20 [OF assms(2)]
    by (simp add: IPv4PacketView_payload_def IPv4Header_view_fields IPv4Packet_encode_def del: of_nat_add)
  show "OnesComplementChecksum (take 20 (IPv4Packet_encode p)) = 0"
    by (simp add: IPv4Packet_encode_def IPv4Packet_final_header_def Let_def
        IPv4Header_checksum_verifies)
qed (simp_all add: IPv4Header_view_fields IPv4Packet_encode_def)

text \<open>The fields that \<^verbatim>\<open>write\<close> leaves as they are.\<close>

lemma IPv4Packet_encode_fields:
  "IPv4PacketView_version (IPv4Packet_encode p) = IPv4Header_version (ip_header p)"
  "IPv4PacketView_IHL (IPv4Packet_encode p) = IPv4Header_IHL (ip_header p)"
  "IPv4PacketView_type_of_service (IPv4Packet_encode p) = IPv4Header_type_of_service (ip_header p)"
  "IPv4PacketView_identification_ntoh (IPv4Packet_encode p) = IPv4Header_identification_ntoh (ip_header p)"
  "IPv4PacketView_flags (IPv4Packet_encode p) = IPv4Header_flags (ip_header p)"
  "IPv4PacketView_fragment_offset (IPv4Packet_encode p) = IPv4Header_fragment_offset (ip_header p)"
  "IPv4PacketView_ttl (IPv4Packet_encode p) = IPv4Header_ttl (ip_header p)"
  "IPv4PacketView_protocol (IPv4Packet_encode p) = IPv4Header_protocol (ip_header p)"
  by (simp_all add: IPv4Packet_encode_def IPv4Packet_final_header_def IPv4PacketView_getter_defs IPv4Header_getter_defs
      IPv4Header_wire_nth IPv4Header_setter_defs Let_def)



text \<open>Memory safety of the IPv4 writer: it stays inside the destination exactly when the
  datagram does not fit (nothing is written) or the destination holds at least the 20 bytes of
  the header struct. A header length field of 1 to 4 words with a destination shorter than 20
  bytes is the one case in which the struct is copied past its end.\<close>

theorem IPv4Packet_write_unsafe_iff:
  "IPv4Packet_write p out = None \<longleftrightarrow>
     IPv4Packet_header_len p + length (ip_payload p) \<le> length out \<and> length out < 20"
proof (cases "length out < 20")
  case True
  then show ?thesis by (simp add: IPv4Packet_write_def Let_def copy_n_def)
next
  case False
  then show ?thesis by (simp add: IPv4Packet_write_def Let_def copy_n_def)
qed

end
