(* ===== verification/Tcp_Packet.thy ===== *)
theory Tcp_Packet
  imports IPv4_Packet IPv4_Address
begin

text \<open>
  \<^verbatim>\<open>TcpPacket.h\<close>, \<^verbatim>\<open>TcpPacket.cpp\<close> and \<^verbatim>\<open>TcpPacketView.h\<close>: the packed TCP header with its getters
  and setters, the three serialisers of a segment, and the non-owning view that parses one.
  Conventions as for IPv4: fields in network byte order, spans as byte lists, an access outside
  a buffer as \<open>None\<close>. The lemmas show that the view reads back every field, that setting a
  control bit changes that bit only, that a written segment parses to the same fields and
  payload, and that its checksum verifies over the pseudo-header.
\<close>

subsection \<open>The header\<close>

record TcpHeader =
  th_source_port :: u16
  th_dest_port :: u16
  th_seq_num :: u32
  th_ack_num :: u32
  th_offset_flags :: u16
  th_window :: u16
  th_checksum :: u16
  th_urgent_pointer :: u16

definition TcpHeader_zero :: TcpHeader where
  "TcpHeader_zero = \<lparr>th_source_port = 0, th_dest_port = 0, th_seq_num = 0, th_ack_num = 0,
     th_offset_flags = 0, th_window = 0, th_checksum = 0, th_urgent_pointer = 0\<rparr>"

text \<open>Raw getters: the fields as they are stored.\<close>

definition TcpHeader_source_port :: "TcpHeader \<Rightarrow> u16" where
  "TcpHeader_source_port h = th_source_port h"

definition TcpHeader_dest_port :: "TcpHeader \<Rightarrow> u16" where
  "TcpHeader_dest_port h = th_dest_port h"

definition TcpHeader_seq_num :: "TcpHeader \<Rightarrow> u32" where
  "TcpHeader_seq_num h = th_seq_num h"

definition TcpHeader_ack_num :: "TcpHeader \<Rightarrow> u32" where
  "TcpHeader_ack_num h = th_ack_num h"

definition TcpHeader_offset_flags :: "TcpHeader \<Rightarrow> u16" where
  "TcpHeader_offset_flags h = th_offset_flags h"

definition TcpHeader_window :: "TcpHeader \<Rightarrow> u16" where
  "TcpHeader_window h = th_window h"

definition TcpHeader_checksum :: "TcpHeader \<Rightarrow> u16" where
  "TcpHeader_checksum h = th_checksum h"

definition TcpHeader_urgent_pointer :: "TcpHeader \<Rightarrow> u16" where
  "TcpHeader_urgent_pointer h = th_urgent_pointer h"

lemmas TcpHeader_raw_getter_defs [simp] =
  TcpHeader_source_port_def TcpHeader_dest_port_def TcpHeader_seq_num_def
  TcpHeader_ack_num_def TcpHeader_offset_flags_def TcpHeader_window_def
  TcpHeader_checksum_def TcpHeader_urgent_pointer_def

text \<open>Getters in host byte order.\<close>

definition TcpHeader_source_port_ntoh :: "TcpHeader \<Rightarrow> u16" where
  "TcpHeader_source_port_ntoh h = ntohs (th_source_port h)"

definition TcpHeader_dest_port_ntoh :: "TcpHeader \<Rightarrow> u16" where
  "TcpHeader_dest_port_ntoh h = ntohs (th_dest_port h)"

definition TcpHeader_seq_num_ntoh :: "TcpHeader \<Rightarrow> u32" where
  "TcpHeader_seq_num_ntoh h = ntohl (th_seq_num h)"

definition TcpHeader_ack_num_ntoh :: "TcpHeader \<Rightarrow> u32" where
  "TcpHeader_ack_num_ntoh h = ntohl (th_ack_num h)"

definition TcpHeader_offset_flags_ntoh :: "TcpHeader \<Rightarrow> u16" where
  "TcpHeader_offset_flags_ntoh h = ntohs (th_offset_flags h)"

definition TcpHeader_data_offset :: "TcpHeader \<Rightarrow> u8" where
  "TcpHeader_data_offset h = ucast (drop_bit 12 (ntohs (th_offset_flags h)))"

definition TcpHeader_header_length :: "TcpHeader \<Rightarrow> u8" where
  "TcpHeader_header_length h = TcpHeader_data_offset h * 4"

definition TcpHeader_flags :: "TcpHeader \<Rightarrow> u16" where
  "TcpHeader_flags h = ntohs (th_offset_flags h) AND 0x3F"

definition TcpHeader_urg :: "TcpHeader \<Rightarrow> bool" where
  "TcpHeader_urg h \<longleftrightarrow> drop_bit 5 (TcpHeader_flags h) AND 1 \<noteq> 0"

definition TcpHeader_ack :: "TcpHeader \<Rightarrow> bool" where
  "TcpHeader_ack h \<longleftrightarrow> drop_bit 4 (TcpHeader_flags h) AND 1 \<noteq> 0"

definition TcpHeader_psh :: "TcpHeader \<Rightarrow> bool" where
  "TcpHeader_psh h \<longleftrightarrow> drop_bit 3 (TcpHeader_flags h) AND 1 \<noteq> 0"

definition TcpHeader_rst :: "TcpHeader \<Rightarrow> bool" where
  "TcpHeader_rst h \<longleftrightarrow> drop_bit 2 (TcpHeader_flags h) AND 1 \<noteq> 0"

definition TcpHeader_syn :: "TcpHeader \<Rightarrow> bool" where
  "TcpHeader_syn h \<longleftrightarrow> drop_bit 1 (TcpHeader_flags h) AND 1 \<noteq> 0"

definition TcpHeader_fin :: "TcpHeader \<Rightarrow> bool" where
  "TcpHeader_fin h \<longleftrightarrow> TcpHeader_flags h AND 1 \<noteq> 0"

definition TcpHeader_window_ntoh :: "TcpHeader \<Rightarrow> u16" where
  "TcpHeader_window_ntoh h = ntohs (th_window h)"

definition TcpHeader_checksum_ntoh :: "TcpHeader \<Rightarrow> u16" where
  "TcpHeader_checksum_ntoh h = ntohs (th_checksum h)"

definition TcpHeader_urgent_pointer_ntoh :: "TcpHeader \<Rightarrow> u16" where
  "TcpHeader_urgent_pointer_ntoh h = ntohs (th_urgent_pointer h)"

text \<open>Setters.\<close>

definition TcpHeader_set_source_port :: "u16 \<Rightarrow> TcpHeader \<Rightarrow> TcpHeader" where
  "TcpHeader_set_source_port p h = h\<lparr>th_source_port := htons p\<rparr>"

definition TcpHeader_set_dest_port :: "u16 \<Rightarrow> TcpHeader \<Rightarrow> TcpHeader" where
  "TcpHeader_set_dest_port p h = h\<lparr>th_dest_port := htons p\<rparr>"

definition TcpHeader_set_seq_num :: "u32 \<Rightarrow> TcpHeader \<Rightarrow> TcpHeader" where
  "TcpHeader_set_seq_num seq h = h\<lparr>th_seq_num := htonl seq\<rparr>"

definition TcpHeader_set_ack_num :: "u32 \<Rightarrow> TcpHeader \<Rightarrow> TcpHeader" where
  "TcpHeader_set_ack_num ack h = h\<lparr>th_ack_num := htonl ack\<rparr>"

definition TcpHeader_set_data_offset :: "u8 \<Rightarrow> TcpHeader \<Rightarrow> TcpHeader" where
  "TcpHeader_set_data_offset words h =
     (let word = ntohs (th_offset_flags h)
      in h\<lparr>th_offset_flags :=
             htons ((word AND 0x0FFF) OR push_bit 12 (ucast (words AND 0x0F)))\<rparr>)"

definition TcpHeader_set_header_length :: "u8 \<Rightarrow> TcpHeader \<Rightarrow> TcpHeader" where
  "TcpHeader_set_header_length nbytes h = TcpHeader_set_data_offset (nbytes div 4) h"

definition TcpHeader_set_flags :: "u16 \<Rightarrow> TcpHeader \<Rightarrow> TcpHeader" where
  "TcpHeader_set_flags flags h =
     (let word = ntohs (th_offset_flags h)
      in h\<lparr>th_offset_flags := htons ((word AND 0xFFC0) OR (flags AND 0x3F))\<rparr>)"

definition TcpHeader_set_flag :: "nat \<Rightarrow> bool \<Rightarrow> TcpHeader \<Rightarrow> TcpHeader" where
  "TcpHeader_set_flag n on h =
     (let word = ntohs (th_offset_flags h); m = push_bit n 1
      in h\<lparr>th_offset_flags := htons (if on then word OR m else word AND NOT m)\<rparr>)"

definition TcpHeader_set_urg :: "bool \<Rightarrow> TcpHeader \<Rightarrow> TcpHeader" where
  "TcpHeader_set_urg on h = TcpHeader_set_flag 5 on h"

definition TcpHeader_set_ack :: "bool \<Rightarrow> TcpHeader \<Rightarrow> TcpHeader" where
  "TcpHeader_set_ack on h = TcpHeader_set_flag 4 on h"

definition TcpHeader_set_psh :: "bool \<Rightarrow> TcpHeader \<Rightarrow> TcpHeader" where
  "TcpHeader_set_psh on h = TcpHeader_set_flag 3 on h"

definition TcpHeader_set_rst :: "bool \<Rightarrow> TcpHeader \<Rightarrow> TcpHeader" where
  "TcpHeader_set_rst on h = TcpHeader_set_flag 2 on h"

definition TcpHeader_set_syn :: "bool \<Rightarrow> TcpHeader \<Rightarrow> TcpHeader" where
  "TcpHeader_set_syn on h = TcpHeader_set_flag 1 on h"

definition TcpHeader_set_fin :: "bool \<Rightarrow> TcpHeader \<Rightarrow> TcpHeader" where
  "TcpHeader_set_fin on h = TcpHeader_set_flag 0 on h"

definition TcpHeader_set_window :: "u16 \<Rightarrow> TcpHeader \<Rightarrow> TcpHeader" where
  "TcpHeader_set_window window h = h\<lparr>th_window := htons window\<rparr>"

definition TcpHeader_set_checksum :: "u16 \<Rightarrow> TcpHeader \<Rightarrow> TcpHeader" where
  "TcpHeader_set_checksum checksum h = h\<lparr>th_checksum := htons checksum\<rparr>"

definition TcpHeader_set_urgent_pointer :: "u16 \<Rightarrow> TcpHeader \<Rightarrow> TcpHeader" where
  "TcpHeader_set_urgent_pointer pointer h = h\<lparr>th_urgent_pointer := htons pointer\<rparr>"

definition TcpHeader_wire :: "TcpHeader \<Rightarrow> bytes" where
  "TcpHeader_wire h =
     mem16 (th_source_port h) @ mem16 (th_dest_port h) @ mem32 (th_seq_num h)
     @ mem32 (th_ack_num h) @ mem16 (th_offset_flags h) @ mem16 (th_window h)
     @ mem16 (th_checksum h) @ mem16 (th_urgent_pointer h)"

definition TcpHeader_serialize :: "TcpHeader \<Rightarrow> bytes \<Rightarrow> bytes option" where
  "TcpHeader_serialize h out = copy_n (TcpHeader_wire h) out 0"

text \<open>The two overloads of \<^verbatim>\<open>compute_checksum\<close>: over the header only, with the checksum bytes
  cleared, and over pseudo-header, header (as it is) and payload.\<close>

definition TcpHeader_compute_checksum :: "TcpHeader \<Rightarrow> u16" where
  "TcpHeader_compute_checksum h =
     OnesComplementChecksum ((TcpHeader_wire h)[16 := 0, 17 := 0])"

definition TcpHeader_compute_checksum_net ::
  "TcpHeader \<Rightarrow> u32 \<Rightarrow> u32 \<Rightarrow> bytes \<Rightarrow> u16 option" where
  "TcpHeader_compute_checksum_net h src_ip_net dst_ip_net payload =
     ComputeTcpChecksum_net src_ip_net dst_ip_net (TcpHeader_wire h) payload"

subsection \<open>The segment\<close>

record TcpPacket =
  tcp_header :: TcpHeader
  tcp_payload :: bytes

definition TcpPacket_size :: "TcpPacket \<Rightarrow> nat" where
  "TcpPacket_size p = 20 + length (tcp_payload p)"

definition TcpPacket_header_len :: "TcpPacket \<Rightarrow> nat" where
  "TcpPacket_header_len p =
     (if TcpHeader_header_length (tcp_header p) > 0
      then unat (TcpHeader_header_length (tcp_header p)) else 20)"

definition TcpPacket_fix_offset :: "TcpHeader \<Rightarrow> TcpHeader" where
  "TcpPacket_fix_offset h =
     (if TcpHeader_data_offset h = 0 then TcpHeader_set_data_offset 5 h else h)"

definition TcpPacket_store :: "TcpPacket \<Rightarrow> TcpHeader \<Rightarrow> bytes \<Rightarrow> (bytes \<times> nat) option" where
  "TcpPacket_store p hdr out = do {
     out \<leftarrow> copy_n (TcpHeader_wire hdr) out 0;
     out \<leftarrow> (if tcp_payload p \<noteq> [] then copy_n (tcp_payload p) out (TcpPacket_header_len p)
            else Some out);
     Some (out, TcpPacket_header_len p + length (tcp_payload p))
   }"

definition TcpPacket_write_net ::
  "TcpPacket \<Rightarrow> bytes \<Rightarrow> u32 \<Rightarrow> u32 \<Rightarrow> (bytes \<times> nat) option" where
  "TcpPacket_write_net p out src_ip_net dst_ip_net =
     (if length out < TcpPacket_header_len p + length (tcp_payload p) then Some (out, 0)
      else do {
        let hdr = TcpPacket_fix_offset (tcp_header p);
        let hdr = TcpHeader_set_checksum 0 hdr;
        chk \<leftarrow> TcpHeader_compute_checksum_net hdr src_ip_net dst_ip_net (tcp_payload p);
        let hdr = TcpHeader_set_checksum chk hdr;
        TcpPacket_store p hdr out
      })"

definition TcpPacket_write ::
  "TcpPacket \<Rightarrow> bytes \<Rightarrow> IPv4Address \<Rightarrow> IPv4Address \<Rightarrow> (bytes \<times> nat) option" where
  "TcpPacket_write p out src dst =
     TcpPacket_write_net p out (htonl (address src)) (htonl (address dst))"

text \<open>The overload that keeps the checksum already in the header.\<close>

definition TcpPacket_write_as_is :: "TcpPacket \<Rightarrow> bytes \<Rightarrow> (bytes \<times> nat) option" where
  "TcpPacket_write_as_is p out =
     (if length out < TcpPacket_header_len p + length (tcp_payload p) then Some (out, 0)
      else TcpPacket_store p (TcpPacket_fix_offset (tcp_header p)) out)"

text \<open>The free functions for the three overloads.\<close>

definition WriteTcpPacket :: "bytes \<Rightarrow> IPv4Address \<Rightarrow> IPv4Address \<Rightarrow> TcpPacket \<Rightarrow> (bytes \<times> nat) option" where
  "WriteTcpPacket out src dst packet = TcpPacket_write packet out src dst"

definition WriteTcpPacket_net :: "bytes \<Rightarrow> u32 \<Rightarrow> u32 \<Rightarrow> TcpPacket \<Rightarrow> (bytes \<times> nat) option" where
  "WriteTcpPacket_net out src_ip_net dst_ip_net packet = TcpPacket_write_net packet out src_ip_net dst_ip_net"

definition WriteTcpPacket_as_is :: "bytes \<Rightarrow> TcpPacket \<Rightarrow> (bytes \<times> nat) option" where
  "WriteTcpPacket_as_is out packet = TcpPacket_write_as_is packet out"

subsection \<open>The view\<close>

text \<open>The view has its own copies of the two readers.\<close>

definition TcpPacketView_BE16 :: "bytes \<Rightarrow> nat \<Rightarrow> u16" where
  "TcpPacketView_BE16 bs offset = push_bit 8 (ucast (bs ! offset)) OR ucast (bs ! (offset + 1))"

definition TcpPacketView_BE32 :: "bytes \<Rightarrow> nat \<Rightarrow> u32" where
  "TcpPacketView_BE32 bs offset = push_bit 24 (ucast (bs ! offset)) OR push_bit 16 (ucast (bs ! (offset + 1)))
     OR push_bit 8 (ucast (bs ! (offset + 2))) OR ucast (bs ! (offset + 3))"

lemma TcpPacketView_readers [simp]: "TcpPacketView_BE16 = BE16" "TcpPacketView_BE32 = BE32"
  by (simp_all add: fun_eq_iff BE16_def BE32_def word_of_bytes_def dword_of_bytes_def TcpPacketView_BE16_def TcpPacketView_BE32_def)

definition TcpPacketView_source_port :: "bytes \<Rightarrow> u16" where
  "TcpPacketView_source_port bs = ntohs (TcpPacketView_BE16 bs 0)"

definition TcpPacketView_dest_port :: "bytes \<Rightarrow> u16" where
  "TcpPacketView_dest_port bs = ntohs (TcpPacketView_BE16 bs 2)"

definition TcpPacketView_seq_num :: "bytes \<Rightarrow> u32" where
  "TcpPacketView_seq_num bs = ntohl (TcpPacketView_BE32 bs 4)"

definition TcpPacketView_ack_num :: "bytes \<Rightarrow> u32" where
  "TcpPacketView_ack_num bs = ntohl (TcpPacketView_BE32 bs 8)"

definition TcpPacketView_offset_flags :: "bytes \<Rightarrow> u16" where
  "TcpPacketView_offset_flags bs = ntohs (TcpPacketView_BE16 bs 12)"

definition TcpPacketView_window :: "bytes \<Rightarrow> u16" where
  "TcpPacketView_window bs = ntohs (TcpPacketView_BE16 bs 14)"

definition TcpPacketView_checksum :: "bytes \<Rightarrow> u16" where
  "TcpPacketView_checksum bs = ntohs (TcpPacketView_BE16 bs 16)"

definition TcpPacketView_urgent_pointer :: "bytes \<Rightarrow> u16" where
  "TcpPacketView_urgent_pointer bs = ntohs (TcpPacketView_BE16 bs 18)"

definition TcpPacketView_source_port_ntoh :: "bytes \<Rightarrow> u16" where
  "TcpPacketView_source_port_ntoh bs = TcpPacketView_BE16 bs 0"

definition TcpPacketView_dest_port_ntoh :: "bytes \<Rightarrow> u16" where
  "TcpPacketView_dest_port_ntoh bs = TcpPacketView_BE16 bs 2"

definition TcpPacketView_seq_num_ntoh :: "bytes \<Rightarrow> u32" where
  "TcpPacketView_seq_num_ntoh bs = TcpPacketView_BE32 bs 4"

definition TcpPacketView_ack_num_ntoh :: "bytes \<Rightarrow> u32" where
  "TcpPacketView_ack_num_ntoh bs = TcpPacketView_BE32 bs 8"

definition TcpPacketView_offset_flags_ntoh :: "bytes \<Rightarrow> u16" where
  "TcpPacketView_offset_flags_ntoh bs = TcpPacketView_BE16 bs 12"

definition TcpPacketView_data_offset :: "bytes \<Rightarrow> u8" where
  "TcpPacketView_data_offset bs = ucast (drop_bit 12 (TcpPacketView_BE16 bs 12))"

definition TcpPacketView_header_length :: "bytes \<Rightarrow> u8" where
  "TcpPacketView_header_length bs = TcpPacketView_data_offset bs * 4"

definition TcpPacketView_flags :: "bytes \<Rightarrow> u16" where
  "TcpPacketView_flags bs = TcpPacketView_BE16 bs 12 AND 0x3F"

definition TcpPacketView_urg :: "bytes \<Rightarrow> bool" where
  "TcpPacketView_urg bs \<longleftrightarrow> drop_bit 5 (TcpPacketView_flags bs) AND 1 \<noteq> 0"

definition TcpPacketView_ack :: "bytes \<Rightarrow> bool" where
  "TcpPacketView_ack bs \<longleftrightarrow> drop_bit 4 (TcpPacketView_flags bs) AND 1 \<noteq> 0"

definition TcpPacketView_psh :: "bytes \<Rightarrow> bool" where
  "TcpPacketView_psh bs \<longleftrightarrow> drop_bit 3 (TcpPacketView_flags bs) AND 1 \<noteq> 0"

definition TcpPacketView_rst :: "bytes \<Rightarrow> bool" where
  "TcpPacketView_rst bs \<longleftrightarrow> drop_bit 2 (TcpPacketView_flags bs) AND 1 \<noteq> 0"

definition TcpPacketView_syn :: "bytes \<Rightarrow> bool" where
  "TcpPacketView_syn bs \<longleftrightarrow> drop_bit 1 (TcpPacketView_flags bs) AND 1 \<noteq> 0"

definition TcpPacketView_fin :: "bytes \<Rightarrow> bool" where
  "TcpPacketView_fin bs \<longleftrightarrow> TcpPacketView_flags bs AND 1 \<noteq> 0"

definition TcpPacketView_window_ntoh :: "bytes \<Rightarrow> u16" where
  "TcpPacketView_window_ntoh bs = TcpPacketView_BE16 bs 14"

definition TcpPacketView_checksum_ntoh :: "bytes \<Rightarrow> u16" where
  "TcpPacketView_checksum_ntoh bs = TcpPacketView_BE16 bs 16"

definition TcpPacketView_urgent_pointer_ntoh :: "bytes \<Rightarrow> u16" where
  "TcpPacketView_urgent_pointer_ntoh bs = TcpPacketView_BE16 bs 18"

definition TcpPacketView_valid :: "bytes \<Rightarrow> bool" where
  "TcpPacketView_valid bs \<longleftrightarrow> 20 \<le> length bs
     \<and> 20 \<le> unat (TcpPacketView_header_length bs)
     \<and> unat (TcpPacketView_header_length bs) \<le> length bs"

definition TcpPacketView_payload :: "bytes \<Rightarrow> bytes" where
  "TcpPacketView_payload bs = drop (unat (TcpPacketView_header_length bs)) bs"

definition TcpPacketView_Parse :: "bytes \<Rightarrow> bytes option" where
  "TcpPacketView_Parse bs = (if \<not> TcpPacketView_valid bs then None else Some bs)"

lemmas TcpHeader_getter_defs =
  TcpHeader_source_port_ntoh_def TcpHeader_dest_port_ntoh_def TcpHeader_seq_num_ntoh_def
  TcpHeader_ack_num_ntoh_def TcpHeader_offset_flags_ntoh_def TcpHeader_header_length_def
  TcpHeader_data_offset_def TcpHeader_urg_def TcpHeader_ack_def TcpHeader_psh_def
  TcpHeader_rst_def TcpHeader_syn_def TcpHeader_fin_def TcpHeader_flags_def
  TcpHeader_window_ntoh_def TcpHeader_checksum_ntoh_def TcpHeader_urgent_pointer_ntoh_def

lemmas TcpHeader_setter_defs =
  TcpHeader_set_source_port_def TcpHeader_set_dest_port_def TcpHeader_set_seq_num_def
  TcpHeader_set_ack_num_def TcpHeader_set_data_offset_def TcpHeader_set_header_length_def
  TcpHeader_set_flags_def TcpHeader_set_urg_def TcpHeader_set_ack_def TcpHeader_set_psh_def
  TcpHeader_set_rst_def TcpHeader_set_syn_def TcpHeader_set_fin_def TcpHeader_set_flag_def
  TcpHeader_set_window_def TcpHeader_set_checksum_def TcpHeader_set_urgent_pointer_def

lemmas TcpPacketView_getter_defs =
  TcpPacketView_source_port_def TcpPacketView_dest_port_def TcpPacketView_seq_num_def
  TcpPacketView_ack_num_def TcpPacketView_offset_flags_def TcpPacketView_window_def
  TcpPacketView_checksum_def TcpPacketView_urgent_pointer_def
  TcpPacketView_source_port_ntoh_def TcpPacketView_dest_port_ntoh_def
  TcpPacketView_seq_num_ntoh_def TcpPacketView_ack_num_ntoh_def
  TcpPacketView_offset_flags_ntoh_def TcpPacketView_header_length_def
  TcpPacketView_data_offset_def TcpPacketView_urg_def TcpPacketView_ack_def
  TcpPacketView_psh_def TcpPacketView_rst_def TcpPacketView_syn_def TcpPacketView_fin_def
  TcpPacketView_flags_def TcpPacketView_window_ntoh_def TcpPacketView_checksum_ntoh_def
  TcpPacketView_urgent_pointer_ntoh_def

text \<open>The header as the checksumming \<^verbatim>\<open>write\<close> finalises it, and the bytes it produces for a
  20-byte header.\<close>

definition TcpPacket_final_header :: "TcpPacket \<Rightarrow> IPv4Address \<Rightarrow> IPv4Address \<Rightarrow> TcpHeader" where
  "TcpPacket_final_header p src dst =
     (let hdr = TcpHeader_set_checksum 0 (TcpPacket_fix_offset (tcp_header p))
      in TcpHeader_set_checksum
           (OnesComplementChecksum
             (pseudo_header (address src) (address dst) (of_nat (20 + length (tcp_payload p)))
              @ TcpHeader_wire hdr @ tcp_payload p)) hdr)"

definition TcpPacket_encode :: "TcpPacket \<Rightarrow> IPv4Address \<Rightarrow> IPv4Address \<Rightarrow> bytes" where
  "TcpPacket_encode p src dst = TcpHeader_wire (TcpPacket_final_header p src dst) @ tcp_payload p"

text \<open>The six control bits together.\<close>

definition TcpHeader_control :: "TcpHeader \<Rightarrow> bool \<times> bool \<times> bool \<times> bool \<times> bool \<times> bool" where
  "TcpHeader_control h = (TcpHeader_urg h, TcpHeader_ack h, TcpHeader_psh h, TcpHeader_rst h,
     TcpHeader_syn h, TcpHeader_fin h)"

subsection \<open>Fields on the wire\<close>

lemma length_TcpHeader_wire [simp]: "length (TcpHeader_wire h) = 20"
  by (simp add: TcpHeader_wire_def)

lemma TcpHeader_wire_nth:
  "BE16 (TcpHeader_wire h @ rest) 0 = ntohs (th_source_port h)"
  "BE16 (TcpHeader_wire h @ rest) 2 = ntohs (th_dest_port h)"
  "BE32 (TcpHeader_wire h @ rest) 4 = ntohl (th_seq_num h)"
  "BE32 (TcpHeader_wire h @ rest) 8 = ntohl (th_ack_num h)"
  "BE16 (TcpHeader_wire h @ rest) 12 = ntohs (th_offset_flags h)"
  "BE16 (TcpHeader_wire h @ rest) 14 = ntohs (th_window h)"
  "BE16 (TcpHeader_wire h @ rest) 16 = ntohs (th_checksum h)"
  "BE16 (TcpHeader_wire h @ rest) 18 = ntohs (th_urgent_pointer h)"
  by (simp_all add: TcpHeader_wire_def mem16_def mem32_def BE16_def BE32_def
      htons_fold htonl_fold)

lemma TcpHeader_view_fields:
  "TcpPacketView_source_port_ntoh (TcpHeader_wire h @ rest) = TcpHeader_source_port_ntoh h"
  "TcpPacketView_dest_port_ntoh (TcpHeader_wire h @ rest) = TcpHeader_dest_port_ntoh h"
  "TcpPacketView_seq_num_ntoh (TcpHeader_wire h @ rest) = TcpHeader_seq_num_ntoh h"
  "TcpPacketView_ack_num_ntoh (TcpHeader_wire h @ rest) = TcpHeader_ack_num_ntoh h"
  "TcpPacketView_data_offset (TcpHeader_wire h @ rest) = TcpHeader_data_offset h"
  "TcpPacketView_header_length (TcpHeader_wire h @ rest) = TcpHeader_header_length h"
  "TcpPacketView_ack (TcpHeader_wire h @ rest) = TcpHeader_ack h"
  "TcpPacketView_rst (TcpHeader_wire h @ rest) = TcpHeader_rst h"
  "TcpPacketView_syn (TcpHeader_wire h @ rest) = TcpHeader_syn h"
  "TcpPacketView_fin (TcpHeader_wire h @ rest) = TcpHeader_fin h"
  "TcpPacketView_window_ntoh (TcpHeader_wire h @ rest) = TcpHeader_window_ntoh h"
  by (simp_all add: TcpPacketView_getter_defs TcpHeader_getter_defs TcpHeader_wire_nth)

text \<open>The getters of the TCP view agree with the getters of the header struct on every
  serialised header, whatever follows it.\<close>

theorem TcpPacketView_mirrors_header:
  "let bs = TcpHeader_wire h @ rest in
     TcpPacketView_source_port bs = TcpHeader_source_port h \<and>
     TcpPacketView_dest_port bs = TcpHeader_dest_port h \<and>
     TcpPacketView_seq_num bs = TcpHeader_seq_num h \<and>
     TcpPacketView_ack_num bs = TcpHeader_ack_num h \<and>
     TcpPacketView_offset_flags bs = TcpHeader_offset_flags h \<and>
     TcpPacketView_window bs = TcpHeader_window h \<and>
     TcpPacketView_checksum bs = TcpHeader_checksum h \<and>
     TcpPacketView_urgent_pointer bs = TcpHeader_urgent_pointer h \<and>
     TcpPacketView_source_port_ntoh bs = TcpHeader_source_port_ntoh h \<and>
     TcpPacketView_dest_port_ntoh bs = TcpHeader_dest_port_ntoh h \<and>
     TcpPacketView_seq_num_ntoh bs = TcpHeader_seq_num_ntoh h \<and>
     TcpPacketView_ack_num_ntoh bs = TcpHeader_ack_num_ntoh h \<and>
     TcpPacketView_offset_flags_ntoh bs = TcpHeader_offset_flags_ntoh h \<and>
     TcpPacketView_data_offset bs = TcpHeader_data_offset h \<and>
     TcpPacketView_header_length bs = TcpHeader_header_length h \<and>
     TcpPacketView_flags bs = TcpHeader_flags h \<and>
     TcpPacketView_urg bs = TcpHeader_urg h \<and>
     TcpPacketView_ack bs = TcpHeader_ack h \<and>
     TcpPacketView_psh bs = TcpHeader_psh h \<and>
     TcpPacketView_rst bs = TcpHeader_rst h \<and>
     TcpPacketView_syn bs = TcpHeader_syn h \<and>
     TcpPacketView_fin bs = TcpHeader_fin h \<and>
     TcpPacketView_window_ntoh bs = TcpHeader_window_ntoh h \<and>
     TcpPacketView_checksum_ntoh bs = TcpHeader_checksum_ntoh h \<and>
     TcpPacketView_urgent_pointer_ntoh bs = TcpHeader_urgent_pointer_ntoh h"
  by (simp add: TcpPacketView_getter_defs TcpHeader_getter_defs TcpHeader_wire_nth)

subsection \<open>Setters\<close>

lemma TcpHeader_flag_bits:
  "TcpHeader_urg h \<longleftrightarrow> bit (ntohs (th_offset_flags h)) 5"
  "TcpHeader_ack h \<longleftrightarrow> bit (ntohs (th_offset_flags h)) 4"
  "TcpHeader_psh h \<longleftrightarrow> bit (ntohs (th_offset_flags h)) 3"
  "TcpHeader_rst h \<longleftrightarrow> bit (ntohs (th_offset_flags h)) 2"
  "TcpHeader_syn h \<longleftrightarrow> bit (ntohs (th_offset_flags h)) 1"
  "TcpHeader_fin h \<longleftrightarrow> bit (ntohs (th_offset_flags h)) 0"
  by (simp_all only: TcpHeader_urg_def TcpHeader_ack_def TcpHeader_psh_def TcpHeader_rst_def
      TcpHeader_syn_def TcpHeader_fin_def TcpHeader_flags_def mask_simps)
    (simp_all add: bit_take_bit_iff bit_drop_bit_eq)

lemma bit_set_flag:
  "n < 16 \<Longrightarrow> bit (ntohs (th_offset_flags (TcpHeader_set_flag m on h))) n \<longleftrightarrow>
     (if m = n then on else bit (ntohs (th_offset_flags h)) n)"
  by (auto simp: TcpHeader_set_flag_def Let_def bit_simps)

lemma data_offset_set_flag [simp]:
  "m < 12 \<Longrightarrow> TcpHeader_data_offset (TcpHeader_set_flag m on h) = TcpHeader_data_offset h"
  by (rule bit_word_eqI)
    (auto simp: TcpHeader_data_offset_def TcpHeader_set_flag_def Let_def bit_simps
      dest: bit_imp_le_length)

lemma data_offset_set_offset [simp]:
  "TcpHeader_data_offset (TcpHeader_set_data_offset n h) = n AND 0x0F"
  by (simp add: TcpHeader_data_offset_def TcpHeader_set_data_offset_def Let_def mask_simps)

lemma bit_set_data_offset:
  "n < 12 \<Longrightarrow> bit (ntohs (th_offset_flags (TcpHeader_set_data_offset m h))) n
     \<longleftrightarrow> bit (ntohs (th_offset_flags h)) n"
  by (auto simp: TcpHeader_set_data_offset_def Let_def mask_simps bit_simps)

lemma set_flags_bits:
  "n < 16 \<Longrightarrow> bit (ntohs (th_offset_flags (TcpHeader_set_flags f h))) n \<longleftrightarrow>
     (if n < 6 then bit f n else bit (ntohs (th_offset_flags h)) n)"
  by (auto simp: TcpHeader_set_flags_def Let_def mask_simps bit_simps)

text \<open>Setting one of the six control bits stores the given value in that bit and leaves
  the other five and the data offset unchanged; setting the data offset leaves the control bits
  unchanged.\<close>

theorem TcpHeader_control_bit_setters:
  "TcpHeader_control (TcpHeader_set_urg b h) =
     (b, TcpHeader_ack h, TcpHeader_psh h, TcpHeader_rst h, TcpHeader_syn h, TcpHeader_fin h) \<and>
   TcpHeader_data_offset (TcpHeader_set_urg b h) = TcpHeader_data_offset h \<and>
   TcpHeader_control (TcpHeader_set_ack b h) =
     (TcpHeader_urg h, b, TcpHeader_psh h, TcpHeader_rst h, TcpHeader_syn h, TcpHeader_fin h) \<and>
   TcpHeader_data_offset (TcpHeader_set_ack b h) = TcpHeader_data_offset h \<and>
   TcpHeader_control (TcpHeader_set_psh b h) =
     (TcpHeader_urg h, TcpHeader_ack h, b, TcpHeader_rst h, TcpHeader_syn h, TcpHeader_fin h) \<and>
   TcpHeader_data_offset (TcpHeader_set_psh b h) = TcpHeader_data_offset h \<and>
   TcpHeader_control (TcpHeader_set_rst b h) =
     (TcpHeader_urg h, TcpHeader_ack h, TcpHeader_psh h, b, TcpHeader_syn h, TcpHeader_fin h) \<and>
   TcpHeader_data_offset (TcpHeader_set_rst b h) = TcpHeader_data_offset h \<and>
   TcpHeader_control (TcpHeader_set_syn b h) =
     (TcpHeader_urg h, TcpHeader_ack h, TcpHeader_psh h, TcpHeader_rst h, b, TcpHeader_fin h) \<and>
   TcpHeader_data_offset (TcpHeader_set_syn b h) = TcpHeader_data_offset h \<and>
   TcpHeader_control (TcpHeader_set_fin b h) =
     (TcpHeader_urg h, TcpHeader_ack h, TcpHeader_psh h, TcpHeader_rst h, TcpHeader_syn h, b) \<and>
   TcpHeader_data_offset (TcpHeader_set_fin b h) = TcpHeader_data_offset h \<and>
   TcpHeader_control (TcpHeader_set_data_offset n h) = TcpHeader_control h \<and>
   TcpHeader_data_offset (TcpHeader_set_data_offset n h) = n AND 0x0F"
  by (simp add: TcpHeader_control_def TcpHeader_flag_bits TcpHeader_set_urg_def
      TcpHeader_set_ack_def TcpHeader_set_psh_def TcpHeader_set_rst_def TcpHeader_set_syn_def
      TcpHeader_set_fin_def bit_set_flag bit_set_data_offset)

subsection \<open>Writing a segment\<close>

lemma TcpHeader_set_checksum_frame [simp]:
  "TcpHeader_source_port_ntoh (TcpHeader_set_checksum c h) = TcpHeader_source_port_ntoh h"
  "TcpHeader_dest_port_ntoh (TcpHeader_set_checksum c h) = TcpHeader_dest_port_ntoh h"
  "TcpHeader_seq_num_ntoh (TcpHeader_set_checksum c h) = TcpHeader_seq_num_ntoh h"
  "TcpHeader_ack_num_ntoh (TcpHeader_set_checksum c h) = TcpHeader_ack_num_ntoh h"
  "TcpHeader_window_ntoh (TcpHeader_set_checksum c h) = TcpHeader_window_ntoh h"
  "TcpHeader_data_offset (TcpHeader_set_checksum c h) = TcpHeader_data_offset h"
  "TcpHeader_header_length (TcpHeader_set_checksum c h) = TcpHeader_header_length h"
  "TcpHeader_control (TcpHeader_set_checksum c h) = TcpHeader_control h"
  "TcpHeader_ack (TcpHeader_set_checksum c h) = TcpHeader_ack h"
  "TcpHeader_rst (TcpHeader_set_checksum c h) = TcpHeader_rst h"
  "TcpHeader_syn (TcpHeader_set_checksum c h) = TcpHeader_syn h"
  "TcpHeader_fin (TcpHeader_set_checksum c h) = TcpHeader_fin h"
  by (simp_all add: TcpHeader_control_def TcpHeader_getter_defs TcpHeader_set_checksum_def)

lemma TcpHeader_wire_split:
  "TcpHeader_wire (TcpHeader_set_checksum c h) =
     take 16 (TcpHeader_wire h) @ mem16 (htons c) @ drop 18 (TcpHeader_wire h)"
  by (simp add: TcpHeader_wire_def TcpHeader_set_checksum_def mem16_def mem32_def)

lemma TcpHeader_set_checksum_twice [simp]:
  "TcpHeader_set_checksum c (TcpHeader_set_checksum d h) = TcpHeader_set_checksum c h"
  by (simp add: TcpHeader_set_checksum_def)

lemma TcpHeader_checksum_verifies:
  assumes "length payload \<le> 65535"
  shows "OnesComplementChecksum (pseudo_header src dst len @ TcpHeader_wire
      (TcpHeader_set_checksum (OnesComplementChecksum
        (pseudo_header src dst len @ TcpHeader_wire (TcpHeader_set_checksum 0 h) @ payload)) h)
      @ payload) = 0"
proof -
  let ?pre = "pseudo_header src dst len @ take 16 (TcpHeader_wire h)"
  let ?post = "drop 18 (TcpHeader_wire h) @ payload"
  have "mem16 (htons 0) = [0, 0]" by simp
  then show ?thesis
    using checksum_field_verifies [of ?pre ?post] assms
    by (simp add: TcpHeader_wire_split del: mem16_htons)
qed

lemma unat_tcp_header_length:
  "unat (TcpHeader_header_length h) = 4 * unat (TcpHeader_data_offset h)"
proof -
  have "unat (drop_bit 12 (ntohs (th_offset_flags h))) < 16"
    by (simp only: unat_drop_bit_eq drop_bit_eq_div [of 12 "unat _"])
      (rule less_mult_imp_div_less, simp)
  then have "unat (TcpHeader_data_offset h) < 16"
    by (simp add: TcpHeader_data_offset_def unsigned_ucast_eq
        le_less_trans [OF take_bit_nat_less_eq_self])
  then show ?thesis
    by (simp add: TcpHeader_header_length_def unat_word_ariths)
qed

lemma TcpPacket_header_len_20:
  assumes "TcpHeader_data_offset (tcp_header p) = 5"
  shows "TcpPacket_header_len p = 20"
  using assms unat_tcp_header_length [of "tcp_header p"]
  by (simp add: TcpPacket_header_len_def)

lemma TcpPacket_final_header_fields:
  assumes "TcpHeader_data_offset (tcp_header p) = 5"
  shows "\<exists>c. TcpPacket_final_header p src dst = TcpHeader_set_checksum c (tcp_header p)"
  using assms by (simp add: TcpPacket_final_header_def TcpPacket_fix_offset_def Let_def) blast

lemma TcpPacket_store_eq:
  assumes "TcpPacket_header_len p = 20" and "20 + length (tcp_payload p) \<le> length out"
  shows "TcpPacket_store p hdr out =
    Some (TcpHeader_wire hdr @ tcp_payload p @ drop (20 + length (tcp_payload p)) out,
          20 + length (tcp_payload p))"
proof -
  have "copy_n (TcpHeader_wire hdr) out 0 = Some (TcpHeader_wire hdr @ drop 20 out)"
    using assms(2) by (simp add: copy_n_front)
  moreover have "copy_n (tcp_payload p) (TcpHeader_wire hdr @ drop 20 out) 20 =
      Some (TcpHeader_wire hdr @ tcp_payload p @ drop (length (tcp_payload p)) (drop 20 out))"
    using assms(2) copy_n_after [of "tcp_payload p" "drop 20 out" "TcpHeader_wire hdr"] by simp
  ultimately show ?thesis
    using assms(1) by (simp add: TcpPacket_store_def add.commute)
qed

lemma TcpPacket_write_eq:
  assumes "TcpHeader_data_offset (tcp_header p) = 5"
    and "20 + length (tcp_payload p) \<le> length out"
  shows "TcpPacket_write p out src dst =
    Some (TcpPacket_encode p src dst @ drop (20 + length (tcp_payload p)) out,
          20 + length (tcp_payload p))"
proof -
  note len = TcpPacket_header_len_20 [OF assms(1)]
  let ?hdr = "TcpHeader_set_checksum 0 (TcpPacket_fix_offset (tcp_header p))"
  have "TcpHeader_compute_checksum_net ?hdr (htonl (address src)) (htonl (address dst))
      (tcp_payload p) = Some (OnesComplementChecksum
        (pseudo_header (address src) (address dst) (of_nat (20 + length (tcp_payload p)))
          @ TcpHeader_wire ?hdr @ tcp_payload p))"
    using ComputeTcpChecksum_eq [of "TcpHeader_wire ?hdr" "address src" "address dst" "tcp_payload p"]
    by (simp add: TcpHeader_compute_checksum_net_def ComputeTcpChecksum_def)
  then show ?thesis
    using assms(2) len TcpPacket_store_eq [OF len assms(2)]
    by (simp add: TcpPacket_write_def TcpPacket_write_net_def TcpPacket_encode_def
        TcpPacket_final_header_def Let_def)
qed

text \<open>What the receiving side sees of an encoded segment.\<close>

lemma TcpPacket_encode_view:
  assumes "TcpHeader_data_offset (tcp_header p) = 5"
  shows "TcpPacketView_valid (TcpPacket_encode p src dst)"
    and "TcpPacketView_payload (TcpPacket_encode p src dst) = tcp_payload p"
    and "TcpPacketView_source_port_ntoh (TcpPacket_encode p src dst) =
      TcpHeader_source_port_ntoh (tcp_header p)"
    and "TcpPacketView_dest_port_ntoh (TcpPacket_encode p src dst) =
      TcpHeader_dest_port_ntoh (tcp_header p)"
    and "TcpPacketView_seq_num_ntoh (TcpPacket_encode p src dst) = TcpHeader_seq_num_ntoh (tcp_header p)"
    and "TcpPacketView_ack_num_ntoh (TcpPacket_encode p src dst) = TcpHeader_ack_num_ntoh (tcp_header p)"
    and "TcpPacketView_window_ntoh (TcpPacket_encode p src dst) = TcpHeader_window_ntoh (tcp_header p)"
    and "TcpPacketView_ack (TcpPacket_encode p src dst) = TcpHeader_ack (tcp_header p)"
    and "TcpPacketView_rst (TcpPacket_encode p src dst) = TcpHeader_rst (tcp_header p)"
    and "TcpPacketView_syn (TcpPacket_encode p src dst) = TcpHeader_syn (tcp_header p)"
    and "TcpPacketView_fin (TcpPacket_encode p src dst) = TcpHeader_fin (tcp_header p)"
proof -
  obtain c where c: "TcpPacket_final_header p src dst = TcpHeader_set_checksum c (tcp_header p)"
    using TcpPacket_final_header_fields [OF assms] by blast
  have hl: "unat (TcpHeader_header_length (tcp_header p)) = 20"
    using assms by (simp add: unat_tcp_header_length)
  show "TcpPacketView_valid (TcpPacket_encode p src dst)"
    by (simp add: TcpPacketView_valid_def TcpPacket_encode_def TcpHeader_view_fields c hl)
  show "TcpPacketView_payload (TcpPacket_encode p src dst) = tcp_payload p"
    by (simp add: TcpPacketView_payload_def TcpPacket_encode_def TcpHeader_view_fields c hl)
qed (use TcpPacket_final_header_fields [OF assms, of src dst] in
      \<open>auto simp: TcpPacket_encode_def TcpHeader_view_fields\<close>)

lemma TcpPacket_encode_checksum:
  assumes "TcpHeader_data_offset (tcp_header p) = 5" and "length (tcp_payload p) \<le> 65535"
  shows "ComputeTcpChecksum (address src) (address dst) (take 20 (TcpPacket_encode p src dst))
    (drop 20 (TcpPacket_encode p src dst)) = Some 0"
  using assms TcpHeader_checksum_verifies [OF assms(2)]
  by (simp add: ComputeTcpChecksum_eq TcpPacket_encode_def TcpPacket_final_header_def
      TcpPacket_fix_offset_def Let_def)

lemma length_TcpPacket_encode [simp]:
  "length (TcpPacket_encode p src dst) = 20 + length (tcp_payload p)"
  by (simp add: TcpPacket_encode_def)

text \<open>Received bytes that show every field of a header except the checksum, and a payload.\<close>

definition segment_reads :: "bytes \<Rightarrow> TcpHeader \<Rightarrow> bytes \<Rightarrow> bool" where
  "segment_reads bs h payload \<longleftrightarrow>
     TcpPacketView_Parse bs = Some bs \<and> TcpPacketView_payload bs = payload
     \<and> TcpPacketView_source_port_ntoh bs = TcpHeader_source_port_ntoh h
     \<and> TcpPacketView_dest_port_ntoh bs = TcpHeader_dest_port_ntoh h
     \<and> TcpPacketView_seq_num_ntoh bs = TcpHeader_seq_num_ntoh h
     \<and> TcpPacketView_ack_num_ntoh bs = TcpHeader_ack_num_ntoh h
     \<and> TcpPacketView_data_offset bs = TcpHeader_data_offset h
     \<and> TcpPacketView_offset_flags_ntoh bs = TcpHeader_offset_flags_ntoh h
     \<and> (TcpPacketView_urg bs, TcpPacketView_ack bs, TcpPacketView_psh bs, TcpPacketView_rst bs,
        TcpPacketView_syn bs, TcpPacketView_fin bs) = TcpHeader_control h
     \<and> TcpPacketView_window_ntoh bs = TcpHeader_window_ntoh h
     \<and> TcpPacketView_urgent_pointer_ntoh bs = TcpHeader_urgent_pointer_ntoh h"

lemma TcpPacket_encode_wire:
  assumes "TcpHeader_data_offset (tcp_header p) = 5"
  shows "\<exists>c. TcpPacket_encode p src dst = TcpHeader_wire (TcpHeader_set_checksum c (tcp_header p)) @ tcp_payload p"
  using TcpPacket_final_header_fields [OF assms, of src dst] by (auto simp: TcpPacket_encode_def)

lemma TcpPacket_encode_reads:
  assumes "TcpHeader_data_offset (tcp_header p) = 5"
  shows "segment_reads (TcpPacket_encode p src dst) (tcp_header p) (tcp_payload p)"
proof -
  obtain c where c: "TcpPacket_encode p src dst = TcpHeader_wire (TcpHeader_set_checksum c (tcp_header p)) @ tcp_payload p"
    using TcpPacket_encode_wire [OF assms] by blast
  have "TcpPacketView_data_offset (TcpPacket_encode p src dst) = TcpHeader_data_offset (tcp_header p)"
    "TcpPacketView_offset_flags_ntoh (TcpPacket_encode p src dst) = TcpHeader_offset_flags_ntoh (tcp_header p)"
    "TcpPacketView_urg (TcpPacket_encode p src dst) = TcpHeader_urg (tcp_header p)"
    "TcpPacketView_psh (TcpPacket_encode p src dst) = TcpHeader_psh (tcp_header p)"
    "TcpPacketView_urgent_pointer_ntoh (TcpPacket_encode p src dst) = TcpHeader_urgent_pointer_ntoh (tcp_header p)"
    by (simp_all add: c TcpPacketView_getter_defs TcpHeader_getter_defs TcpHeader_wire_nth TcpHeader_set_checksum_def)
  then show ?thesis
    by (simp add: segment_reads_def TcpHeader_control_def TcpPacketView_Parse_def TcpPacket_encode_view [OF assms])
qed

text \<open>C25. Writing a segment with a 20-byte header into a large enough buffer succeeds and leaves the rest of the buffer
  alone. The bytes are the header, with nothing changed but its checksum field, and the payload; they parse as a valid
  segment of which the receiver reads the same ports, sequence and acknowledgement number, data offset, reserved bits, all six
  control bits, window, urgent pointer and payload, and whose TCP checksum verifies to zero for the same addresses.\<close>

theorem TcpPacket_write_roundtrip:
  assumes "TcpHeader_data_offset (tcp_header p) = 5"
    and "20 + length (tcp_payload p) \<le> length out" and "length (tcp_payload p) \<le> 65535"
  shows "\<exists>wire c. TcpPacket_write p out src dst =
      Some (wire @ drop (20 + length (tcp_payload p)) out, 20 + length (tcp_payload p))
    \<and> wire = TcpHeader_wire (TcpHeader_set_checksum c (tcp_header p)) @ tcp_payload p
    \<and> length wire = 20 + length (tcp_payload p)
    \<and> segment_reads wire (tcp_header p) (tcp_payload p)
    \<and> ComputeTcpChecksum (address src) (address dst) (take 20 wire) (drop 20 wire) = Some 0"
proof -
  obtain c where "TcpPacket_encode p src dst = TcpHeader_wire (TcpHeader_set_checksum c (tcp_header p)) @ tcp_payload p"
    using TcpPacket_encode_wire [OF assms(1)] by blast
  then show ?thesis
    using TcpPacket_write_eq [OF assms(1,2)] TcpPacket_encode_checksum [OF assms(1,3)] TcpPacket_encode_reads [OF assms(1)]
    by (intro exI [of _ "TcpPacket_encode p src dst"] exI [of _ c] conjI) (blast | simp)+
qed

theorem TcpPacket_write_roundtrip_witness:
  "\<exists>wire. TcpPacket_write
      \<lparr>tcp_header = TcpHeader_set_seq_num 7 (TcpHeader_set_data_offset 5 TcpHeader_zero),
        tcp_payload = [1, 2, 3]\<rparr>
      (replicate 24 0) \<lparr>address = 0x0A000002, port = 80\<rparr> \<lparr>address = 0x0A000003, port = 81\<rparr>
      = Some (wire @ drop 23 (replicate 24 0), 23)
    \<and> TcpPacketView_payload wire = [1, 2, 3] \<and> TcpPacketView_seq_num_ntoh wire = 7"
  using TcpPacket_write_roundtrip [of
      "\<lparr>tcp_header = TcpHeader_set_seq_num 7 (TcpHeader_set_data_offset 5 TcpHeader_zero),
        tcp_payload = [1, 2, 3]\<rparr>" "replicate 24 0"
      "\<lparr>address = 0x0A000002, port = 80\<rparr>" "\<lparr>address = 0x0A000003, port = 81\<rparr>"]
  by (auto simp: segment_reads_def TcpHeader_data_offset_def TcpHeader_set_data_offset_def TcpHeader_set_seq_num_def
      TcpHeader_zero_def TcpHeader_seq_num_ntoh_def mask_simps)

end
