(* ===== verification/Tun_Device.thy ===== *)
theory Tun_Device
  imports IPv4_Address
begin

text \<open>
  \<^verbatim>\<open>TunDevice.h\<close> and \<^verbatim>\<open>TunDevice.cpp\<close> on a POSIX host: the wrapper around the TUN file descriptor.
  The operating system is a parameter: \<open>os_write\<close> is the result of \<^verbatim>\<open>write(2)\<close>, \<open>poll_result\<close>
  and \<open>read_result\<close> describe one \<^verbatim>\<open>poll(2)\<close> and \<^verbatim>\<open>read(2)\<close>, \<open>os_ifaddrs\<close> is the interface list of
  \<^verbatim>\<open>getifaddrs(3)\<close> (\<open>None\<close> when the call fails). The driver that opens the device is
  the record \<open>tun_driver\<close>: the results of \<^verbatim>\<open>open(2)\<close> on \<^verbatim>\<open>/dev/net/tun\<close> and of the \<^verbatim>\<open>TUNSETIFF\<close> call, with the name
  that the latter writes back.
\<close>

record TunDevice =
  fd :: int
  name :: string

record tun_driver =
  os_open :: int
  os_tunsetiff :: "int \<Rightarrow> string \<Rightarrow> int \<times> string"

text \<open>\<^verbatim>\<open>tun_alloc\<close>: the descriptor and the name, or \<open>None\<close> when the program exits. The request holds the first
  \<^verbatim>\<open>IFNAMSIZ\<close> bytes of the name.\<close>

definition TunDevice_tun_alloc :: "tun_driver \<Rightarrow> string \<Rightarrow> (int \<times> string) option" where
  "TunDevice_tun_alloc d dev =
     (let fd_out = os_open d
      in if fd_out < 0 then None
         else
           let (err, ifr_name) = os_tunsetiff d fd_out (take 16 dev)
           in if err < 0 then Some (err, dev) else Some (fd_out, ifr_name))"

text \<open>The constructor; a null pointer is \<open>None\<close>.\<close>

definition TunDevice_new :: "tun_driver \<Rightarrow> string option \<Rightarrow> TunDevice option" where
  "TunDevice_new d dev_name =
     map_option (\<lambda>(fd, nm). \<lparr>fd = fd, name = nm\<rparr>)
       (TunDevice_tun_alloc d (case dev_name of Some nm \<Rightarrow> take 255 nm | None \<Rightarrow> ''tun0''))"

text \<open>The destructor: the descriptors that it closes.\<close>

definition TunDevice_destroy :: "TunDevice \<Rightarrow> int list" where
  "TunDevice_destroy d = (if 0 \<le> fd d then [fd d] else [])"

text \<open>One interface address: name, whether the family is \<^verbatim>\<open>AF_INET\<close>, the address in network order.\<close>

record ifaddr =
  ifa_name :: string
  ifa_inet :: bool
  ifa_s_addr :: u32

record os =
  os_write :: "int \<Rightarrow> bytes \<Rightarrow> int"
  os_ifaddrs :: "ifaddr list option"

text \<open>The outcome of polling the descriptor and of reading from it: nothing to read, an event
  other than readable data, the bytes of a datagram, or a failed read (-1).\<close>

datatype tun_event = No_data | Other_event | Datagram bytes | Read_error

text \<open>A read returns a \<^verbatim>\<open>size_t\<close>; the failure value -1 is converted to it.\<close>

definition polled_read :: "tun_event \<Rightarrow> nat \<Rightarrow> bytes \<times> u64" where
  "polled_read ev len =
     (case ev of
        No_data \<Rightarrow> ([], 0)
      | Other_event \<Rightarrow> ([], 0)
      | Datagram bs \<Rightarrow> (take len bs, of_nat (length (take len bs)))
      | Read_error \<Rightarrow> ([], of_int (- 1)))"

definition TunDevice_tun_read :: "TunDevice \<Rightarrow> tun_event \<Rightarrow> nat \<Rightarrow> bytes \<times> u64" where
  "TunDevice_tun_read d ev len = (if fd d < 0 then ([], 0) else polled_read ev len)"

definition TunDevice_tun_write :: "os \<Rightarrow> TunDevice \<Rightarrow> bytes \<Rightarrow> nat" where
  "TunDevice_tun_write os d buf =
     (if fd d < 0 then 0
      else let n = os_write os (fd d) buf in if n > 0 then nat n else 0)"

fun find_inet :: "string \<Rightarrow> ifaddr list \<Rightarrow> u32 option" where
  "find_inet nm [] = None"
| "find_inet nm (ifa # rest) =
     (if ifa_inet ifa \<and> ifa_name ifa = nm then Some (ntohl (ifa_s_addr ifa)) else find_inet nm rest)"

definition TunDevice_get_usable_ip_address :: "os \<Rightarrow> TunDevice \<Rightarrow> IPv4Address" where
  "TunDevice_get_usable_ip_address os d =
     (case Option.bind (os_ifaddrs os) (find_inet (name d)) of
        Some ip_host_order \<Rightarrow> \<lparr>address = ip_host_order + 1, port = 0\<rparr>
      | None \<Rightarrow> IPv4Address_from_string ''10.0.0.2'')"

text \<open>A device whose interface could not be set up is constructed all the same; it reads and writes nothing, and its
  destructor closes nothing.\<close>

lemma TunDevice_failed_setup:
  assumes "0 \<le> os_open d" and "fst (os_tunsetiff d (os_open d) (take 16 nm)) < 0" and "length nm < 256"
  shows "\<exists>tun. TunDevice_new d (Some nm) = Some tun \<and> name tun = nm \<and> TunDevice_tun_read tun ev len = ([], 0)
    \<and> TunDevice_tun_write os tun buf = 0 \<and> TunDevice_destroy tun = []"
  using assms
  by (simp add: TunDevice_new_def TunDevice_tun_alloc_def TunDevice_tun_read_def TunDevice_tun_write_def
      TunDevice_destroy_def Let_def case_prod_unfold)

lemma default_address: "IPv4Address_from_string ''10.0.0.2'' = \<lparr>address = 0x0A000002, port = 0\<rparr>"
  by (simp add: from_string_eval)

text \<open>The address lookup takes the first IPv4 entry of the device's name, one above its host
  address, and falls back to 10.0.0.2; a failed read is reported as the largest \<^verbatim>\<open>size_t\<close>, not
  as an error or as zero bytes.\<close>

theorem TunDevice_address_and_read_error:
  "(find_inet (name d) ifs = Some a \<longrightarrow> os_ifaddrs os = Some ifs \<longrightarrow>
      TunDevice_get_usable_ip_address os d = \<lparr>address = a + 1, port = 0\<rparr>) \<and>
   (os_ifaddrs os = None \<longrightarrow>
      TunDevice_get_usable_ip_address os d = \<lparr>address = 0x0A000002, port = 0\<rparr>) \<and>
   (0 \<le> fd d \<longrightarrow> unat (snd (TunDevice_tun_read d Read_error len)) = 2 ^ 64 - 1)"
  by (simp add: TunDevice_get_usable_ip_address_def default_address TunDevice_tun_read_def
      polled_read_def unsigned_minus_1_eq_mask mask_eq_exp_minus_1)

theorem TunDevice_address_and_read_error_witness:
  "TunDevice_get_usable_ip_address
     \<lparr>os_write = \<lambda>_ _. 0, os_ifaddrs = Some [\<lparr>ifa_name = ''tun0'', ifa_inet = True, ifa_s_addr = 0x0100000A\<rparr>]\<rparr>
     \<lparr>fd = 3, name = ''tun0''\<rparr> = \<lparr>address = 0x0A000002, port = 0\<rparr> \<and>
   unat (snd (TunDevice_tun_read \<lparr>fd = 3, name = ''tun0''\<rparr> Read_error 100)) = 2 ^ 64 - 1"
proof -
  let ?ifs = "[\<lparr>ifa_name = ''tun0'', ifa_inet = True, ifa_s_addr = 0x0100000A\<rparr>]"
  have f: "find_inet (name \<lparr>fd = 3, name = ''tun0''\<rparr>) ?ifs = Some 0x0A000001"
    by (simp add: htonl_def dword_of_bytes_def)
  show ?thesis
    using TunDevice_address_and_read_error [of "\<lparr>fd = 3, name = ''tun0''\<rparr>" ?ifs "0x0A000001"
        "\<lparr>os_write = \<lambda>_ _. 0, os_ifaddrs = Some ?ifs\<rparr>" 100] f
    by simp
qed

end
