(* ===== verification/Tcp_Stack.thy ===== *)
theory Tcp_Stack
  imports Routing_Tables Tcp_Packet Tun_Device
begin

text \<open>
  \<^verbatim>\<open>TcpStack.h\<close> and \<^verbatim>\<open>TcpStack.cpp\<close>: the state of the stack and its operations. The record
  \<open>TcpStack\<close> holds the tables, the queue of dirty sockets, the loopback queue, the static port
  counter of \<^verbatim>\<open>allocate_ephemeral_port\<close> and the list of datagrams handed to the TUN device. The
  environment is a parameter: the device, the operating system, the readings of the system
  clock and the numbers drawn by \<^verbatim>\<open>generate_random_uint32\<close>; the stack counts how many of each it
  has consumed. A control block is accessed through its socket id (\<open>get_tcb\<close>, \<open>modify_tcb\<close>).
  The port counter is one per process in the source; two stacks of the model are those of two processes, and a
  second stack of the same process would find another value in the counter, which no theorem fixes.
  Every operation is atomic here; the daemon loop and the application calls are interleaved
  operation by operation.

  The testing hooks (\<^verbatim>\<open>TCP_STACK_TESTING\<close>) and the log lines are left out. A handler that stores
  received data can block on a full receive buffer: its outcome is \<open>Blocks\<close> with the state it
  has reached.
\<close>

record stack_env =
  env_os :: os
  env_tun :: TunDevice
  env_now :: "nat \<Rightarrow> int"
  env_random :: "nat \<Rightarrow> u32"

record TcpStack =
  socket_table :: SocketTable
  listener_table :: ListenerTable
  connection_table :: ConnectionTable
  dirty_socket_ids :: "socket_id list"
  loopback_packet_queue :: "bytes list"
  is_running :: bool
  next_port :: u16
  tun_output :: "bytes list"
  clock_reads :: nat
  draws :: nat

datatype 'a outcome = Returns 'a TcpStack | Blocks TcpStack | Undefined

definition TcpStack_new :: TcpStack where
  "TcpStack_new = \<lparr>socket_table = SocketTable_new, listener_table = [], connection_table = [],
     dirty_socket_ids = [], loopback_packet_queue = [], is_running = True, next_port = 49152,
     tun_output = [], clock_reads = 0, draws = 0\<rparr>"

definition stop :: "TcpStack \<Rightarrow> TcpStack" where
  "stop s = s\<lparr>is_running := False\<rparr>"

definition get_tcb :: "TcpStack \<Rightarrow> socket_id \<Rightarrow> tcb option" where
  "get_tcb s i = SocketTable_find_socket (socket_table s) i"

definition modify_tcb :: "socket_id \<Rightarrow> (tcb \<Rightarrow> tcb) \<Rightarrow> TcpStack \<Rightarrow> TcpStack" where
  "modify_tcb i f s = s\<lparr>socket_table := SocketTable_modify i f (socket_table s)\<rparr>"

definition system_clock_now :: "stack_env \<Rightarrow> TcpStack \<Rightarrow> int \<times> TcpStack" where
  "system_clock_now e s = (env_now e (clock_reads s), s\<lparr>clock_reads := clock_reads s + 1\<rparr>)"

definition generate_random_uint32 :: "stack_env \<Rightarrow> TcpStack \<Rightarrow> u32 \<times> TcpStack" where
  "generate_random_uint32 e s = (env_random e (draws s), s\<lparr>draws := draws s + 1\<rparr>)"

definition local_address :: "stack_env \<Rightarrow> IPv4Address" where
  "local_address e = TunDevice_get_usable_ip_address (env_os e) (env_tun e)"

definition find_connections_tcb :: "TcpStack \<Rightarrow> IPv4Address \<Rightarrow> IPv4Address \<Rightarrow> socket_id" where
  "find_connections_tcb s src dst =
     ConnectionTable_find (socket_table s, connection_table s) src dst"

abbreviation find_listener :: "TcpStack \<Rightarrow> u16 \<Rightarrow> socket_id" where
  "find_listener s p \<equiv> ListenerTable_find (socket_table s, listener_table s) p"

abbreviation has_listener :: "TcpStack \<Rightarrow> u16 \<Rightarrow> bool" where
  "has_listener s p \<equiv> ListenerTable_contains (socket_table s, listener_table s) p"

definition add_dirty_tcb :: "socket_id \<Rightarrow> TcpStack \<Rightarrow> TcpStack" where
  "add_dirty_tcb i s =
     (if i = 0 \<or> \<not> SocketTable_contains (socket_table s) i then s
      else s\<lparr>dirty_socket_ids := dirty_socket_ids s @ [i]\<rparr>)"

subsection \<open>Sending\<close>

text \<open>The IPv4 header that \<^verbatim>\<open>write_packet_\<close> puts in front of a segment.\<close>

definition stack_ip_header :: "IPv4Address \<Rightarrow> IPv4Address \<Rightarrow> IPv4Header" where
  "stack_ip_header src dst =
     (let h = IPv4Header_zero;
          h = IPv4Header_set_version 4 h;
          h = IPv4Header_set_ihl 5 h;
          h = IPv4Header_set_ttl 255 h;
          h = IPv4Header_set_source_address (address src) h;
          h = IPv4Header_set_destination_address (address dst) h;
          h = IPv4Header_set_protocol 6 h
      in IPv4Header_set_fragment_offset 0 h)"

definition is_local :: "stack_env \<Rightarrow> IPv4Address \<Rightarrow> IPv4Address \<Rightarrow> bool" where
  "is_local e src dst \<longleftrightarrow> address src = address dst \<or> drop_bit 24 (address dst) = 127
     \<or> address dst = address (local_address e)"

text \<open>The two stack buffers are uninitialised in the source; every byte of them that is read
  afterwards has been written (\<open>write_packet_eq\<close> below), so zeros stand for their contents. The
  undefined results of the two writers do not occur for buffers of this size
  (\<open>write_packet_defined\<close>).\<close>

definition serialize_packet ::
  "IPv4Address \<Rightarrow> IPv4Address \<Rightarrow> TcpPacket \<Rightarrow> bytes \<Rightarrow> bytes \<Rightarrow> (bytes \<times> nat) option" where
  "serialize_packet src dst p tcp_buf ip_buf = do {
     (tcp_buf, payload_size) \<leftarrow> TcpPacket_write p tcp_buf src dst;
     IPv4Packet_write \<lparr>ip_header = stack_ip_header src dst,
       ip_payload = take payload_size tcp_buf\<rparr> ip_buf
   }"

definition write_packet ::
  "stack_env \<Rightarrow> IPv4Address \<Rightarrow> IPv4Address \<Rightarrow> TcpPacket \<Rightarrow> TcpStack \<Rightarrow> TcpStack \<times> nat" where
  "write_packet e src dst p s =
     (case serialize_packet src dst p (replicate MAX_IPV4_PACKET_SIZE 0)
             (replicate MAX_IPV4_PACKET_SIZE 0) of
        None \<Rightarrow> (s, 0)
      | Some (ip_buf, ip_payload_size) \<Rightarrow>
          (let raw = take ip_payload_size ip_buf
           in if is_local e src dst
              then (s\<lparr>loopback_packet_queue := loopback_packet_queue s @ [raw]\<rparr>, ip_payload_size)
              else (s\<lparr>tun_output := tun_output s @ [raw]\<rparr>,
                    TunDevice_tun_write (env_os e) (env_tun e) raw)))"

definition advertised_window :: "tcb \<Rightarrow> u16" where
  "advertised_window t =
     of_nat (min (BlockingBuffer_available_capacity MAX_IPV4_PACKET_SIZE (recv_buffer t)) 65535)"

definition control_packet :: "tcb \<Rightarrow> bool \<Rightarrow> bool \<Rightarrow> bool \<Rightarrow> bool \<Rightarrow> u32 \<Rightarrow> u32 \<Rightarrow> u16 \<Rightarrow> TcpPacket" where
  "control_packet t syn ack rst fin seq_num ack_num window_size =
     (let h = TcpHeader_zero;
          h = TcpHeader_set_source_port (port (src_address t)) h;
          h = TcpHeader_set_dest_port (port (dst_address t)) h;
          h = TcpHeader_set_data_offset 5 h;
          h = TcpHeader_set_syn syn h;
          h = TcpHeader_set_ack ack h;
          h = TcpHeader_set_rst rst h;
          h = TcpHeader_set_fin fin h;
          h = TcpHeader_set_seq_num seq_num h;
          h = TcpHeader_set_ack_num ack_num h;
          free_wnd = advertised_window t;
          h = TcpHeader_set_window (if window_size = 65535 then free_wnd else window_size) h
      in \<lparr>tcp_header = h, tcp_payload = []\<rparr>)"

definition send_control_packet ::
  "stack_env \<Rightarrow> tcb \<Rightarrow> bool \<Rightarrow> bool \<Rightarrow> bool \<Rightarrow> bool \<Rightarrow> u32 \<Rightarrow> u32 \<Rightarrow> TcpStack \<Rightarrow> TcpStack \<times> nat" where
  "send_control_packet e t syn ack rst fin seq_num ack_num s =
     write_packet e (src_address t) (dst_address t)
       (control_packet t syn ack rst fin seq_num ack_num 65535) s"

definition raw_rst_packet :: "IPv4Address \<Rightarrow> IPv4Address \<Rightarrow> u32 \<Rightarrow> u32 \<Rightarrow> bool \<Rightarrow> TcpPacket" where
  "raw_rst_packet src dst seq_num ack_num ack_flag =
     (let h = TcpHeader_zero;
          h = TcpHeader_set_source_port (port src) h;
          h = TcpHeader_set_dest_port (port dst) h;
          h = TcpHeader_set_data_offset 5 h;
          h = TcpHeader_set_rst True h;
          h = TcpHeader_set_ack ack_flag h;
          h = TcpHeader_set_seq_num seq_num h;
          h = TcpHeader_set_ack_num ack_num h
      in \<lparr>tcp_header = h, tcp_payload = []\<rparr>)"

definition send_raw_rst ::
  "stack_env \<Rightarrow> IPv4Address \<Rightarrow> IPv4Address \<Rightarrow> u32 \<Rightarrow> u32 \<Rightarrow> bool \<Rightarrow> TcpStack \<Rightarrow> TcpStack \<times> nat" where
  "send_raw_rst e src dst seq_num ack_num ack_flag s =
     write_packet e src dst (raw_rst_packet src dst seq_num ack_num ack_flag) s"

definition create_writer_tcp_packet :: "tcb \<Rightarrow> bytes \<Rightarrow> u32 \<Rightarrow> TcpPacket" where
  "create_writer_tcp_packet t data seq_num =
     (let h = TcpHeader_zero;
          h = TcpHeader_set_source_port (port (src_address t)) h;
          h = TcpHeader_set_dest_port (port (dst_address t)) h;
          h = TcpHeader_set_data_offset 5 h;
          h = TcpHeader_set_ack True h;
          h = TcpHeader_set_seq_num seq_num h;
          h = TcpHeader_set_ack_num (RCV_NXT t) h;
          free_wnd = advertised_window t;
          h = TcpHeader_set_window free_wnd h
      in \<lparr>tcp_header = h, tcp_payload = data\<rparr>)"

text \<open>The usable part of the peer's window.\<close>

definition usable_window :: "tcb \<Rightarrow> u32" where
  "usable_window t = (if SND_WND t > in_flight t then SND_WND t - in_flight t else 0)"

definition process_block :: "stack_env \<Rightarrow> socket_id \<Rightarrow> TcpStack \<Rightarrow> TcpStack" where
  "process_block e i s =
     (case get_tcb s i of
        None \<Rightarrow> s
      | Some t \<Rightarrow>
         (let (now, s) = system_clock_now e s;
              s = modify_tcb i (\<lambda>t. t\<lparr>last_written := now\<rparr>) s
          in if current_state t = SYN_SENT
             then fst (send_control_packet e t True False False False (SND_ISS t) 0 s)
             else if current_state t \<noteq> ESTABLISHED \<and> current_state t \<noteq> CLOSE_WAIT
                  \<and> current_state t \<noteq> FIN_WAIT_1 \<and> current_state t \<noteq> LAST_ACK
             then s
             else if usable_window t = 0 then s
             else
               let max_to_send = min (unat (usable_window t)) (min 1460 MAX_IPV4_PACKET_SIZE);
                   data = BlockingBuffer_peek MAX_IPV4_PACKET_SIZE (send_buffer t) max_to_send
                            (unat (in_flight t))
               in if data = [] then s
                  else
                    let packet = create_writer_tcp_packet t data (SND_NXT t);
                        t' = t\<lparr>SND_NXT := SND_NXT t + of_nat (length data)\<rparr>;
                        s = modify_tcb i
                              (\<lambda>t. t\<lparr>SND_NXT := SND_NXT t + of_nat (length data)\<rparr>) s;
                        (s, _) = write_packet e (src_address t) (dst_address t) packet s
                    in if BlockingBuffer_size (send_buffer t') > unat (in_flight t')
                          \<and> SND_WND t' > in_flight t'
                       then add_dirty_tcb i s else s))"

definition process_dirty_blocks :: "stack_env \<Rightarrow> TcpStack \<Rightarrow> TcpStack" where
  "process_dirty_blocks e s =
     (let ids_to_process = dirty_socket_ids s; s = s\<lparr>dirty_socket_ids := []\<rparr>
      in fold (process_block e) ids_to_process s)"

text \<open>One socket's retransmission check, and the pass over all sockets.\<close>

definition retransmit_block :: "stack_env \<Rightarrow> int \<Rightarrow> socket_id \<Rightarrow> tcb \<Rightarrow> TcpStack \<Rightarrow> TcpStack" where
  "retransmit_block e now i t s =
     (if current_state t \<noteq> ESTABLISHED then s
      else if in_flight t > 0 \<and> now - last_written t \<ge> RTO t * 1000000 then
        let max_to_retransmit = min (unat (in_flight t)) (min 1460 MAX_IPV4_PACKET_SIZE);
            data = BlockingBuffer_peek MAX_IPV4_PACKET_SIZE (send_buffer t) max_to_retransmit 0
        in if data \<noteq> [] then
             let packet = create_writer_tcp_packet t data (SND_UNA t);
                 s = modify_tcb i
                       (\<lambda>t. t\<lparr>last_written := now, retransmit_attempts := retransmit_attempts t + 1\<rparr>) s
             in fst (write_packet e (src_address t) (dst_address t) packet s)
           else s
      else s)"

definition check_retransmissions :: "stack_env \<Rightarrow> TcpStack \<Rightarrow> TcpStack" where
  "check_retransmissions e s =
     (let (now, s) = system_clock_now e s
      in SocketTable_for_each_socket (retransmit_block e now) (socket_table s) s)"

subsection \<open>Opening and closing\<close>

definition bind_socket :: "IPv4Address \<Rightarrow> TcpStack \<Rightarrow> socket_id \<times> TcpStack" where
  "bind_socket addr s =
     (let (i, st, l) = ListenerTable_bind_new addr (socket_table s, listener_table s)
      in (i, s\<lparr>socket_table := st, listener_table := l\<rparr>))"

fun ephemeral_loop :: "nat \<Rightarrow> TcpStack \<Rightarrow> u16 \<times> TcpStack" where
  "ephemeral_loop 0 s = (next_port s, s\<lparr>next_port := next_port s + 1\<rparr>)"
| "ephemeral_loop (Suc n) s =
     (let candidate = next_port s;
          s = s\<lparr>next_port := next_port s + 1\<rparr>;
          (candidate, s) =
            (if candidate \<ge> 65535 \<or> candidate < 49152 then (49152, s\<lparr>next_port := 49152\<rparr>)
             else (candidate, s))
      in if \<not> has_listener s candidate then (candidate, s) else ephemeral_loop n s)"

definition allocate_ephemeral_port :: "TcpStack \<Rightarrow> u16 \<times> TcpStack" where
  "allocate_ephemeral_port s = ephemeral_loop 16384 s"

definition register_connection ::
  "stack_env \<Rightarrow> IPv4Address \<Rightarrow> IPv4Address \<Rightarrow> socket_id \<Rightarrow> TcpStack \<Rightarrow> socket_id \<times> TcpStack" where
  "register_connection e local_addr remote_addr i s =
     (let local_addr = (if address local_addr = 0
            then local_addr\<lparr>address := address (local_address e)\<rparr> else local_addr);
          (local_addr, s) = (if port local_addr = 0
            then let (p, s) = allocate_ephemeral_port s in (local_addr\<lparr>port := p\<rparr>, s)
            else (local_addr, s));
          (i, st, c) = ConnectionTable_register_connection local_addr remote_addr i
            (socket_table s, connection_table s)
      in (i, s\<lparr>socket_table := st, connection_table := c\<rparr>))"

definition destroy_connection :: "IPv4Address \<Rightarrow> IPv4Address \<Rightarrow> TcpStack \<Rightarrow> TcpStack \<times> bool" where
  "destroy_connection remote_addr local_addr s =
     (let ((st, c), gone) = ConnectionTable_destroy_connection remote_addr local_addr
            (socket_table s, connection_table s)
      in (s\<lparr>socket_table := st, connection_table := c\<rparr>, gone))"

text \<open>The two branches of \<^verbatim>\<open>close_connection\<close> that send a FIN.\<close>

definition close_with_fin :: "stack_env \<Rightarrow> socket_id \<Rightarrow> TcpState \<Rightarrow> TcpStack \<Rightarrow> TcpStack \<times> nat" where
  "close_with_fin e i new_state s =
     (let s = process_block e i s;
          s = modify_tcb i TCB_close s;
          s = modify_tcb i (TCB_set_state new_state) s
      in case get_tcb s i of
           None \<Rightarrow> (s, 0)
         | Some t \<Rightarrow>
             (let (s, ret) = send_control_packet e t False True False True (SND_NXT t) (RCV_NXT t) s
              in (modify_tcb i (\<lambda>t. t\<lparr>SND_NXT := SND_NXT t + 1\<rparr>) s, ret)))"

definition close_connection :: "stack_env \<Rightarrow> socket_id \<Rightarrow> TcpStack \<Rightarrow> TcpStack \<times> nat" where
  "close_connection e i s =
     (case get_tcb s i of
        None \<Rightarrow> (s, 0)
      | Some t \<Rightarrow>
          if current_state t = ESTABLISHED then close_with_fin e i FIN_WAIT_1 s
          else if current_state t = CLOSE_WAIT then close_with_fin e i LAST_ACK s
          else
            let s = modify_tcb i TCB_close s
            in (fst (destroy_connection (src_address t) (dst_address t) s), 0))"

subsection \<open>Receiving\<close>

definition handle_closed_reset_response ::
  "stack_env \<Rightarrow> IPv4Address \<Rightarrow> IPv4Address \<Rightarrow> bytes \<Rightarrow> TcpStack \<Rightarrow> TcpStack \<times> nat" where
  "handle_closed_reset_response e src dst packet s =
     (if TcpPacketView_rst packet then (s, 0)
      else if TcpPacketView_ack packet
      then send_raw_rst e dst src (TcpPacketView_ack_num_ntoh packet) 0 False s
      else
        let ack_val = TcpPacketView_seq_num_ntoh packet
              + of_nat (length (TcpPacketView_payload packet))
              + (if TcpPacketView_syn packet then 1 else 0)
        in send_raw_rst e dst src 0 ack_val True s)"

definition handle_passive_open_syn ::
  "stack_env \<Rightarrow> IPv4Address \<Rightarrow> IPv4Address \<Rightarrow> bytes \<Rightarrow> TcpStack \<Rightarrow> TcpStack \<times> nat" where
  "handle_passive_open_syn e src dst packet s =
     (let listener_id = find_listener s (port dst)
      in if listener_id \<noteq> 0 \<and> TcpPacketView_syn packet \<and> \<not> TcpPacketView_ack packet
         then
           let (child_id, st) = SocketTable_create_socket SYN_RECEIVED dst src (socket_table s);
               s = s\<lparr>socket_table := st\<rparr>
           in case get_tcb s child_id of
                None \<Rightarrow> (s, 0)
              | Some _ \<Rightarrow>
                 (let s = modify_tcb child_id (\<lambda>t.
                        let t = t\<lparr>RCV_IRS := TcpPacketView_seq_num_ntoh packet\<rparr>;
                            t = t\<lparr>RCV_NXT := RCV_IRS t + 1\<rparr>
                        in t\<lparr>SND_WND := ucast (TcpPacketView_window_ntoh packet)\<rparr>) s;
                      (iss, s) = generate_random_uint32 e s;
                      s = modify_tcb child_id (\<lambda>t.
                        t\<lparr>SND_ISS := iss, SND_UNA := iss, SND_NXT := iss + 1\<rparr>) s;
                      s = s\<lparr>connection_table :=
                            ConnectionTable_insert src dst child_id (connection_table s)\<rparr>
                  in case get_tcb s child_id of
                       None \<Rightarrow> (s, 0)
                     | Some t \<Rightarrow>
                         send_control_packet e t True True False False (SND_ISS t) (RCV_NXT t) s)
         else (s, 0))"

definition handle_syn_sent_state ::
  "stack_env \<Rightarrow> socket_id \<Rightarrow> IPv4Address \<Rightarrow> bytes \<Rightarrow> TcpStack \<Rightarrow> TcpStack \<times> nat" where
  "handle_syn_sent_state e i src packet s =
     (case get_tcb s i of
        None \<Rightarrow> (s, 0)
      | Some t \<Rightarrow>
          if TcpPacketView_rst packet
          then ((if TcpPacketView_ack packet \<and> TcpPacketView_ack_num_ntoh packet = SND_NXT t
                 then modify_tcb i (TCB_set_state CLOSED) s else s), 0)
          else if TcpPacketView_ack packet \<and> TcpPacketView_ack_num_ntoh packet \<noteq> SND_NXT t
          then send_control_packet e t False False True False
                 (TcpPacketView_ack_num_ntoh packet) 0 s
          else if TcpPacketView_syn packet \<and> TcpPacketView_ack packet
          then
            let t = t\<lparr>RCV_IRS := TcpPacketView_seq_num_ntoh packet,
                      RCV_NXT := TcpPacketView_seq_num_ntoh packet + 1,
                      SND_UNA := TcpPacketView_ack_num_ntoh packet,
                      SND_WND := ucast (TcpPacketView_window_ntoh packet),
                      current_state := ESTABLISHED\<rparr>
            in send_control_packet e t False True False False (SND_NXT t) (RCV_NXT t)
                 (modify_tcb i (\<lambda>_. t) s)
          else if TcpPacketView_syn packet
          then
            let t = t\<lparr>RCV_IRS := TcpPacketView_seq_num_ntoh packet,
                      RCV_NXT := TcpPacketView_seq_num_ntoh packet + 1,
                      SND_WND := ucast (TcpPacketView_window_ntoh packet),
                      current_state := SYN_RECEIVED\<rparr>
            in send_control_packet e t True True False False (SND_ISS t) (RCV_NXT t)
                 (modify_tcb i (\<lambda>_. t) s)
          else (s, 0))"

definition handle_syn_received_state ::
  "stack_env \<Rightarrow> socket_id \<Rightarrow> IPv4Address \<Rightarrow> bytes \<Rightarrow> TcpStack \<Rightarrow> TcpStack \<times> nat" where
  "handle_syn_received_state e i src packet s =
     (case get_tcb s i of
        None \<Rightarrow> (s, 0)
      | Some t \<Rightarrow>
          if TcpPacketView_rst packet
          then
            let s = modify_tcb i (TCB_set_state CLOSED) s;
                s = s\<lparr>connection_table :=
                      fst (ConnectionTable_erase src (src_address t) (connection_table s))\<rparr>;
                s = s\<lparr>socket_table := fst (SocketTable_destroy_socket i (socket_table s))\<rparr>
            in (s, 0)
          else if \<not> TcpPacketView_ack packet then (s, 0)
          else if TcpPacketView_ack_num_ntoh packet \<noteq> SND_NXT t then (s, 0)
          else
            let t = t\<lparr>SND_UNA := TcpPacketView_ack_num_ntoh packet,
                      SND_WND := ucast (TcpPacketView_window_ntoh packet),
                      current_state := ESTABLISHED\<rparr>;
                s = modify_tcb i (\<lambda>_. t) s;
                listener_id = find_listener s (port (src_address t));
                s = modify_tcb listener_id (\<lambda>l. l\<lparr>accept_queue := accept_queue l @ [i]\<rparr>) s
            in if TcpPacketView_syn packet \<and> TcpPacketView_ack packet
               then send_control_packet e t False True False False (SND_NXT t) (RCV_NXT t) s
               else (s, 0))"

text \<open>
  \<^verbatim>\<open>handle_established_state_\<close>, in three parts: the FIN branch, the processing of an ACK, and the
  storing of payload, which may block.
\<close>

definition established_fin :: "stack_env \<Rightarrow> socket_id \<Rightarrow> tcb \<Rightarrow> bytes \<Rightarrow> TcpStack \<Rightarrow> TcpStack \<times> nat" where
  "established_fin e i t packet s =
     (let t = t\<lparr>RCV_NXT := TcpPacketView_seq_num_ntoh packet + 1\<rparr>;
          t = (if TcpPacketView_ack packet
               then t\<lparr>SND_NXT := TcpPacketView_ack_num_ntoh packet,
                      SND_WND := ucast (TcpPacketView_window_ntoh packet)\<rparr>
               else t);
          (s, _) = send_control_packet e t False True False False (SND_NXT t) (RCV_NXT t)
                     (modify_tcb i (\<lambda>_. t) s);
          s = modify_tcb i (TCB_set_state CLOSE_WAIT) s;
          s = modify_tcb i (\<lambda>t. t\<lparr>recv_buffer := force_wake_up (recv_buffer t)\<rparr>) s
      in (s, 1))"

text \<open>\<^verbatim>\<open>static_cast<int32_t>(ack_num - tcb->SND.UNA) > 0\<close>: the number is ahead in sequence space.\<close>

definition seq_after :: "u32 \<Rightarrow> u32 \<Rightarrow> bool" where
  "seq_after a b \<longleftrightarrow> sint (a - b) > 0"

definition ack_tcb :: "bytes \<Rightarrow> tcb \<Rightarrow> tcb" where
  "ack_tcb packet t =
     (let ack_num = TcpPacketView_ack_num_ntoh packet;
          t = (if seq_after ack_num (SND_UNA t)
               then
                 let acked_bytes = ack_num - SND_UNA t
                 in t\<lparr>send_buffer := fst (BlockingBuffer_discard MAX_IPV4_PACKET_SIZE
                                            (send_buffer t) (unat acked_bytes)),
                      SND_UNA := ack_num\<rparr>
               else t)
      in t\<lparr>SND_WND := ucast (TcpPacketView_window_ntoh packet), has_recived_ack := True\<rparr>)"

definition established_ack :: "socket_id \<Rightarrow> tcb \<Rightarrow> bytes \<Rightarrow> TcpStack \<Rightarrow> TcpStack" where
  "established_ack i t packet s =
     (let t = ack_tcb packet t;
          s = modify_tcb i (\<lambda>_. t) s
      in if BlockingBuffer_size (send_buffer t) > unat (in_flight t) \<and> SND_WND t > in_flight t
         then add_dirty_tcb i s else s)"

definition established_payload :: "stack_env \<Rightarrow> socket_id \<Rightarrow> bytes \<Rightarrow> TcpStack \<Rightarrow> nat outcome" where
  "established_payload e i packet s =
     (let payload = TcpPacketView_payload packet
      in case get_tcb s i of
           None \<Rightarrow> Returns 0 s
         | Some t \<Rightarrow>
            (case BlockingBuffer_write MAX_IPV4_PACKET_SIZE (recv_buffer t) payload of
               None \<Rightarrow> Blocks s
             | Some (buf, _) \<Rightarrow>
                (let t = t\<lparr>recv_buffer := buf\<rparr>;
                     (s, n) = send_control_packet e t False True False False (SND_NXT t) (RCV_NXT t)
                                (modify_tcb i (\<lambda>_. t) s)
                 in Returns n s)))"

definition handle_established_state ::
  "stack_env \<Rightarrow> socket_id \<Rightarrow> bytes \<Rightarrow> TcpStack \<Rightarrow> nat outcome" where
  "handle_established_state e i packet s =
     (case get_tcb s i of
        None \<Rightarrow> Returns 0 s
      | Some t \<Rightarrow>
          if TcpPacketView_fin packet
          then let (s, n) = established_fin e i t packet s in Returns n s
          else
            let s = (if TcpPacketView_ack packet then established_ack i t packet s else s)
            in if length (TcpPacketView_payload packet) > 0
               then established_payload e i packet
                      (modify_tcb i (\<lambda>t. t\<lparr>RCV_NXT := RCV_NXT t
                         + of_nat (length (TcpPacketView_payload packet))\<rparr>) s)
               else Returns 0 s)"

definition handle_fin_wait_1_state ::
  "stack_env \<Rightarrow> socket_id \<Rightarrow> bytes \<Rightarrow> TcpStack \<Rightarrow> TcpStack \<times> nat" where
  "handle_fin_wait_1_state e i packet s =
     (case get_tcb s i of
        None \<Rightarrow> (s, 0)
      | Some t \<Rightarrow>
          if TcpPacketView_ack packet \<and> TcpPacketView_ack_num_ntoh packet = SND_NXT t
          then
            (if TcpPacketView_fin packet
             then
               let t = t\<lparr>RCV_NXT := TcpPacketView_seq_num_ntoh packet + 1\<rparr>;
                   (s, _) = send_control_packet e t False True False False (SND_NXT t) (RCV_NXT t)
                              (modify_tcb i (\<lambda>_. t) s);
                   s = modify_tcb i (TCB_set_state CLOSED) s
               in (fst (destroy_connection (src_address t) (dst_address t) s), 1)
             else (modify_tcb i (TCB_set_state FIN_WAIT_2) s, 1))
          else if TcpPacketView_fin packet
          then
            let t = t\<lparr>RCV_NXT := TcpPacketView_seq_num_ntoh packet + 1\<rparr>;
                (s, _) = send_control_packet e t False True False False (SND_NXT t) (RCV_NXT t)
                           (modify_tcb i (\<lambda>_. t) s)
            in (modify_tcb i (TCB_set_state CLOSING) s, 1)
          else (s, 0))"

definition handle_fin_wait_2_state ::
  "stack_env \<Rightarrow> socket_id \<Rightarrow> bytes \<Rightarrow> TcpStack \<Rightarrow> TcpStack \<times> nat" where
  "handle_fin_wait_2_state e i packet s =
     (case get_tcb s i of
        None \<Rightarrow> (s, 0)
      | Some t \<Rightarrow>
          if TcpPacketView_fin packet
          then
            let t = t\<lparr>RCV_NXT := TcpPacketView_seq_num_ntoh packet + 1\<rparr>;
                t = (if TcpPacketView_ack packet
                     then t\<lparr>SND_NXT := TcpPacketView_ack_num_ntoh packet\<rparr> else t);
                (s, _) = send_control_packet e t False True False False (SND_NXT t) (RCV_NXT t)
                           (modify_tcb i (\<lambda>_. t) s);
                s = modify_tcb i (TCB_set_state CLOSED) s
            in (fst (destroy_connection (src_address t) (dst_address t) s), 1)
          else (s, 0))"

definition handle_closing_state :: "socket_id \<Rightarrow> bytes \<Rightarrow> TcpStack \<Rightarrow> TcpStack \<times> nat" where
  "handle_closing_state i packet s =
     (case get_tcb s i of
        None \<Rightarrow> (s, 0)
      | Some t \<Rightarrow>
          if TcpPacketView_ack packet \<and> TcpPacketView_ack_num_ntoh packet = SND_NXT t
          then
            let s = modify_tcb i (TCB_set_state CLOSED) s
            in (fst (destroy_connection (src_address t) (dst_address t) s), 1)
          else (s, 0))"

definition handle_last_ack_state :: "socket_id \<Rightarrow> bytes \<Rightarrow> TcpStack \<Rightarrow> TcpStack \<times> nat" where
  "handle_last_ack_state i packet s =
     (case get_tcb s i of
        None \<Rightarrow> (s, 0)
      | Some t \<Rightarrow>
          if TcpPacketView_ack packet \<and> TcpPacketView_ack_num_ntoh packet = SND_NXT t
          then
            let s = modify_tcb i (TCB_set_state CLOSED) s
            in (fst (destroy_connection (src_address t) (dst_address t) s), 1)
          else (s, 0))"

definition returns :: "TcpStack \<times> nat \<Rightarrow> nat outcome" where
  "returns r = Returns (snd r) (fst r)"

text \<open>The dispatch on the state of the socket that a packet belongs to.\<close>

definition dispatch_state ::
  "stack_env \<Rightarrow> socket_id \<Rightarrow> tcb \<Rightarrow> IPv4Address \<Rightarrow> IPv4Address \<Rightarrow> bytes \<Rightarrow> TcpStack \<Rightarrow> nat outcome" where
  "dispatch_state e i t src dst packet s =
     (case current_state t of
        CLOSED \<Rightarrow> returns (handle_closed_reset_response e src dst packet s)
      | LISTEN \<Rightarrow> returns (handle_passive_open_syn e src dst packet s)
      | SYN_SENT \<Rightarrow> returns (handle_syn_sent_state e i src packet s)
      | SYN_RECEIVED \<Rightarrow> returns (handle_syn_received_state e i src packet s)
      | ESTABLISHED \<Rightarrow> handle_established_state e i packet s
      | FIN_WAIT_1 \<Rightarrow> returns (handle_fin_wait_1_state e i packet s)
      | FIN_WAIT_2 \<Rightarrow> returns (handle_fin_wait_2_state e i packet s)
      | CLOSING \<Rightarrow> returns (handle_closing_state i packet s)
      | LAST_ACK \<Rightarrow> returns (handle_last_ack_state i packet s)
      | CLOSE_WAIT \<Rightarrow> Returns 0 s
      | TIME_WAIT \<Rightarrow> Returns 0 s)"

definition process_segment ::
  "stack_env \<Rightarrow> IPv4Address \<Rightarrow> IPv4Address \<Rightarrow> bytes \<Rightarrow> TcpStack \<Rightarrow> nat outcome" where
  "process_segment e src dst packet s =
     (let i = find_connections_tcb s src dst
      in if i = 0
         then
           (if has_listener s (port dst) \<and> TcpPacketView_syn packet \<and> \<not> TcpPacketView_ack packet
            then returns (handle_passive_open_syn e src dst packet s)
            else returns (handle_closed_reset_response e src dst packet s))
         else
           case get_tcb s i of
             None \<Rightarrow> returns (handle_closed_reset_response e src dst packet s)
           | Some t \<Rightarrow> dispatch_state e i t src dst packet s)"

definition process_incoming_packet :: "stack_env \<Rightarrow> bytes \<Rightarrow> TcpStack \<Rightarrow> nat outcome" where
  "process_incoming_packet e buf s =
     (if \<not> IPv4PacketView_valid buf then Returns 0 s
      else
        let packet = IPv4PacketView_payload buf
        in if \<not> TcpPacketView_valid packet then Returns 0 s
           else
             let src = \<lparr>address = IPv4PacketView_source_address_ntoh buf,
                        port = TcpPacketView_source_port_ntoh packet\<rparr>;
                 dst = \<lparr>address = IPv4PacketView_destination_address_ntoh buf,
                        port = TcpPacketView_dest_port_ntoh packet\<rparr>
             in process_segment e src dst packet s)"

text \<open>\<^verbatim>\<open>read_incoming_packets_\<close>: a size larger than the buffer makes the span reach outside of it.\<close>

definition read_incoming_packets :: "stack_env \<Rightarrow> tun_event \<Rightarrow> TcpStack \<Rightarrow> nat outcome" where
  "read_incoming_packets e ev s =
     (let (buf, read_size) = TunDevice_tun_read (env_tun e) ev MAX_IPV4_PACKET_SIZE
      in if read_size = 0 then Returns 0 s
         else if MAX_IPV4_PACKET_SIZE < unat read_size then Undefined
         else process_incoming_packet e (take (unat read_size) buf) s)"

subsection \<open>The daemon\<close>

fun drain_loopback :: "stack_env \<Rightarrow> bytes list \<Rightarrow> TcpStack \<Rightarrow> unit outcome" where
  "drain_loopback e [] s = Returns () s"
| "drain_loopback e (raw # batch) s =
     (case process_incoming_packet e raw s of
        Returns _ s \<Rightarrow> drain_loopback e batch (process_dirty_blocks e s)
      | Blocks s \<Rightarrow> Blocks s
      | Undefined \<Rightarrow> Undefined)"

text \<open>The reads of the TUN device until one yields zero; the events are what the device delivers,
  after the last of them it has nothing to read.\<close>

fun drain_tun :: "stack_env \<Rightarrow> tun_event list \<Rightarrow> TcpStack \<Rightarrow> unit outcome" where
  "drain_tun e [] s = Returns () s"
| "drain_tun e (ev # evs) s =
     (case read_incoming_packets e ev s of
        Returns n s \<Rightarrow> if n > 0 then drain_tun e evs (process_dirty_blocks e s) else Returns () s
      | Blocks s \<Rightarrow> Blocks s
      | Undefined \<Rightarrow> Undefined)"

text \<open>One iteration of the loop of \<^verbatim>\<open>lifecycle_\<close>; the sleep of an idle iteration has no effect.\<close>

definition lifecycle_iteration :: "stack_env \<Rightarrow> tun_event list \<Rightarrow> TcpStack \<Rightarrow> unit outcome" where
  "lifecycle_iteration e evs s =
     (let s = (if dirty_socket_ids s \<noteq> [] then process_dirty_blocks e s else s);
          batch = loopback_packet_queue s;
          s = s\<lparr>loopback_packet_queue := []\<rparr>
      in case drain_loopback e batch s of
           Returns _ s \<Rightarrow>
             (case drain_tun e evs s of
                Returns _ s \<Rightarrow> Returns () (check_retransmissions e s)
              | Blocks s \<Rightarrow> Blocks s
              | Undefined \<Rightarrow> Undefined)
         | Blocks s \<Rightarrow> Blocks s
         | Undefined \<Rightarrow> Undefined)"

fun lifecycle :: "stack_env \<Rightarrow> tun_event list list \<Rightarrow> TcpStack \<Rightarrow> unit outcome" where
  "lifecycle e [] s = Returns () s"
| "lifecycle e (evs # rounds) s =
     (if \<not> is_running s then Returns () s
      else case lifecycle_iteration e evs s of
             Returns _ s \<Rightarrow> lifecycle e rounds s
           | Blocks s \<Rightarrow> Blocks s
           | Undefined \<Rightarrow> Undefined)"

end
