(* ===== verification/Tcp_Output.thy ===== *)
theory Tcp_Output
  imports Tcp_Stack
begin

text \<open>
  The output side of the stack: what \<^verbatim>\<open>write_packet_\<close> puts on the wire for the segments that the
  stack builds, and how \<^verbatim>\<open>process_incoming_packet_\<close> reads such a datagram back. The byte buffers
  disappear here: every later theory reasons with \<open>transmit\<close>, which appends a finished datagram
  to the loopback queue or to the TUN output, and with the decoded fields of a segment.
\<close>

text \<open>The datagram that carries a segment, and the effect of handing it to the network.\<close>

definition datagram :: "IPv4Address \<Rightarrow> IPv4Address \<Rightarrow> TcpPacket \<Rightarrow> bytes" where
  "datagram src dst p = IPv4Packet_encode
     \<lparr>ip_header = stack_ip_header src dst, ip_payload = TcpPacket_encode p src dst\<rparr>"

definition transmit :: "stack_env \<Rightarrow> IPv4Address \<Rightarrow> IPv4Address \<Rightarrow> TcpPacket \<Rightarrow> TcpStack \<Rightarrow> TcpStack" where
  "transmit e src dst p s =
     (if is_local e src dst
      then s\<lparr>loopback_packet_queue := loopback_packet_queue s @ [datagram src dst p]\<rparr>
      else s\<lparr>tun_output := tun_output s @ [datagram src dst p]\<rparr>)"

text \<open>The step from \<open>s\<close> to \<open>s'\<close> puts exactly this segment on the wire.\<close>

definition emits ::
  "stack_env \<Rightarrow> IPv4Address \<Rightarrow> IPv4Address \<Rightarrow> TcpPacket \<Rightarrow> TcpStack \<Rightarrow> TcpStack \<Rightarrow> bool" where
  "emits e src dst p s s' \<longleftrightarrow>
     loopback_packet_queue s' =
       loopback_packet_queue s @ (if is_local e src dst then [datagram src dst p] else [])
     \<and> tun_output s' = tun_output s @ (if is_local e src dst then [] else [datagram src dst p])"

text \<open>The segments that the stack builds: a 20-byte header, and a payload that fits.\<close>

definition plain_packet :: "TcpPacket \<Rightarrow> bool" where
  "plain_packet p \<longleftrightarrow> TcpHeader_data_offset (tcp_header p) = 5 \<and> length (tcp_payload p) \<le> 65495"

text \<open>A concrete environment for examples: an open device without an address, a clock that advances
  by 100 ms with each reading, and consecutive initial sequence numbers. Its local address is
  10.0.0.2.\<close>

definition example_env :: stack_env where
  "example_env = \<lparr>env_os = \<lparr>os_write = (\<lambda>_ bs. int (length bs)), os_ifaddrs = None\<rparr>,
     env_tun = \<lparr>fd = 3, name = ''tun0''\<rparr>, env_now = (\<lambda>n. int n * 100000000),
     env_random = (\<lambda>n. 1000 + of_nat n)\<rparr>"

subsection \<open>Headers\<close>

lemma stack_ip_header_fields [simp]:
  "IPv4Header_version (stack_ip_header src dst) = 4"
  "IPv4Header_IHL (stack_ip_header src dst) = 5"
  "IPv4Header_source_address_ntoh (stack_ip_header src dst) = address src"
  "IPv4Header_destination_address_ntoh (stack_ip_header src dst) = address dst"
  "ip_protocol (stack_ip_header src dst) = 6"
  "ip_ttl (stack_ip_header src dst) = 255"
  by (simp_all add: stack_ip_header_def IPv4Header_getter_defs IPv4Header_setter_defs
      IPv4Header_zero_def Let_def)

lemma data_offset_frame [simp]:
  "TcpHeader_data_offset (TcpHeader_set_seq_num w h) = TcpHeader_data_offset h"
  "TcpHeader_data_offset (TcpHeader_set_ack_num w h) = TcpHeader_data_offset h"
  "TcpHeader_data_offset (TcpHeader_set_window v h) = TcpHeader_data_offset h"
  "TcpHeader_data_offset (TcpHeader_set_ack b h) = TcpHeader_data_offset h"
  "TcpHeader_data_offset (TcpHeader_set_rst b h) = TcpHeader_data_offset h"
  "TcpHeader_data_offset (TcpHeader_set_syn b h) = TcpHeader_data_offset h"
  "TcpHeader_data_offset (TcpHeader_set_fin b h) = TcpHeader_data_offset h"
  by (simp_all add: TcpHeader_set_ack_def TcpHeader_set_rst_def TcpHeader_set_syn_def
      TcpHeader_set_fin_def)
    (simp_all add: TcpHeader_data_offset_def TcpHeader_setter_defs)

lemma offset_flags_frame [simp]:
  "th_offset_flags (TcpHeader_set_seq_num w h) = th_offset_flags h"
  "th_offset_flags (TcpHeader_set_ack_num w h) = th_offset_flags h"
  "th_offset_flags (TcpHeader_set_window v h) = th_offset_flags h"
  "th_offset_flags (TcpHeader_set_source_port v h) = th_offset_flags h"
  "th_offset_flags (TcpHeader_set_dest_port v h) = th_offset_flags h"
  by (simp_all add: TcpHeader_setter_defs)

lemma set_flag_frame [simp]:
  "th_source_port (TcpHeader_set_flag m b h) = th_source_port h"
  "th_dest_port (TcpHeader_set_flag m b h) = th_dest_port h"
  "th_seq_num (TcpHeader_set_flag m b h) = th_seq_num h"
  "th_ack_num (TcpHeader_set_flag m b h) = th_ack_num h"
  "th_window (TcpHeader_set_flag m b h) = th_window h"
  "th_source_port (TcpHeader_set_data_offset n h) = th_source_port h"
  "th_dest_port (TcpHeader_set_data_offset n h) = th_dest_port h"
  by (simp_all add: TcpHeader_set_flag_def TcpHeader_set_data_offset_def Let_def)

lemma htons_0 [simp]: "htons 0 = 0"
  by (simp add: htons_def word_of_bytes_def)

lemma zero_flags [simp]: "bit (ntohs (th_offset_flags TcpHeader_zero)) n = False"
  by (simp add: TcpHeader_zero_def)

lemmas flag_setters = TcpHeader_set_ack_def TcpHeader_set_rst_def TcpHeader_set_syn_def
  TcpHeader_set_fin_def

lemmas number_accessors = TcpHeader_set_seq_num_def TcpHeader_set_ack_num_def TcpHeader_set_window_def
  TcpHeader_set_source_port_def TcpHeader_set_dest_port_def TcpHeader_source_port_ntoh_def
  TcpHeader_dest_port_ntoh_def TcpHeader_seq_num_ntoh_def TcpHeader_ack_num_ntoh_def
  TcpHeader_window_ntoh_def

text \<open>The fields of the three kinds of segment.\<close>

lemma control_packet_fields [simp]:
  fixes t syn ack rst fin sn an w
  defines "h \<equiv> tcp_header (control_packet t syn ack rst fin sn an w)"
  shows "TcpHeader_data_offset h = 5" "TcpHeader_source_port_ntoh h = port (src_address t)"
    "TcpHeader_dest_port_ntoh h = port (dst_address t)" "TcpHeader_seq_num_ntoh h = sn"
    "TcpHeader_ack_num_ntoh h = an"
    "TcpHeader_window_ntoh h = (if w = 65535 then advertised_window t else w)"
    "TcpHeader_syn h = syn" "TcpHeader_ack h = ack" "TcpHeader_rst h = rst" "TcpHeader_fin h = fin"
    "tcp_payload (control_packet t syn ack rst fin sn an w) = []"
  by (simp_all add: h_def control_packet_def Let_def flag_setters TcpHeader_flag_bits bit_set_flag
      bit_set_data_offset)
    (simp_all add: number_accessors)

lemma raw_rst_packet_fields [simp]:
  fixes src dst sn an ackf
  defines "h \<equiv> tcp_header (raw_rst_packet src dst sn an ackf)"
  shows "TcpHeader_data_offset h = 5" "TcpHeader_source_port_ntoh h = port src"
    "TcpHeader_dest_port_ntoh h = port dst" "TcpHeader_seq_num_ntoh h = sn"
    "TcpHeader_ack_num_ntoh h = an" "TcpHeader_window_ntoh h = 0"
    "TcpHeader_syn h = False" "TcpHeader_ack h = ackf" "TcpHeader_rst h = True"
    "TcpHeader_fin h = False" "tcp_payload (raw_rst_packet src dst sn an ackf) = []"
  by (simp_all add: h_def raw_rst_packet_def Let_def flag_setters TcpHeader_flag_bits bit_set_flag
      bit_set_data_offset)
    (simp_all add: number_accessors TcpHeader_set_flag_def TcpHeader_set_data_offset_def
      TcpHeader_zero_def Let_def)

lemma writer_packet_fields [simp]:
  fixes t data sn
  defines "h \<equiv> tcp_header (create_writer_tcp_packet t data sn)"
  shows "TcpHeader_data_offset h = 5" "TcpHeader_source_port_ntoh h = port (src_address t)"
    "TcpHeader_dest_port_ntoh h = port (dst_address t)" "TcpHeader_seq_num_ntoh h = sn"
    "TcpHeader_ack_num_ntoh h = RCV_NXT t" "TcpHeader_window_ntoh h = advertised_window t"
    "TcpHeader_syn h = False" "TcpHeader_ack h = True" "TcpHeader_rst h = False"
    "TcpHeader_fin h = False" "tcp_payload (create_writer_tcp_packet t data sn) = data"
  by (simp_all add: h_def create_writer_tcp_packet_def Let_def flag_setters TcpHeader_flag_bits
      bit_set_flag bit_set_data_offset)
    (simp_all add: number_accessors)

lemma plain_packets [simp]:
  "plain_packet (control_packet t syn ack rst fin sn an w)"
  "plain_packet (raw_rst_packet src dst sn an ackf)"
  "plain_packet (create_writer_tcp_packet t data sn) \<longleftrightarrow> length data \<le> 65495"
  by (simp_all add: plain_packet_def)

subsection \<open>Writing\<close>

lemma length_datagram [simp]: "length (datagram src dst p) = 40 + length (tcp_payload p)"
  by (simp add: datagram_def IPv4Packet_encode_def)

text \<open>Whatever the two stack buffers hold beforehand, the datagram is the same.\<close>

lemma serialize_packet_eq:
  assumes "plain_packet p" and "length tcp_buf = 65535" and "length ip_buf = 65535"
  shows "\<exists>ip_buf'. serialize_packet src dst p tcp_buf ip_buf =
      Some (ip_buf', length (datagram src dst p))
    \<and> take (length (datagram src dst p)) ip_buf' = datagram src dst p"
proof -
  let ?seg = "TcpPacket_encode p src dst"
  let ?p = "\<lparr>ip_header = stack_ip_header src dst, ip_payload = ?seg\<rparr>"
  have off: "TcpHeader_data_offset (tcp_header p) = 5" and len: "length (tcp_payload p) \<le> 65495"
    using assms(1) by (simp_all add: plain_packet_def)
  have "TcpPacket_write p tcp_buf src dst =
      Some (?seg @ drop (20 + length (tcp_payload p)) tcp_buf, 20 + length (tcp_payload p))"
    using TcpPacket_write_eq [OF off] len assms(2) by simp
  moreover have "IPv4Packet_write ?p ip_buf = Some (datagram src dst p @
      drop (40 + length (tcp_payload p)) ip_buf, 40 + length (tcp_payload p))"
    using IPv4Packet_write_eq [of ?p ip_buf] len assms(3) by (simp add: datagram_def)
  ultimately show ?thesis by (simp add: serialize_packet_def)
qed

lemma write_packet_eq:
  assumes "plain_packet p"
  shows "fst (write_packet e src dst p s) = transmit e src dst p s"
    and "is_local e src dst \<Longrightarrow> snd (write_packet e src dst p s) = 40 + length (tcp_payload p)"
proof -
  obtain b where "serialize_packet src dst p (replicate MAX_IPV4_PACKET_SIZE 0)
      (replicate MAX_IPV4_PACKET_SIZE 0) = Some (b, length (datagram src dst p))"
    and "take (length (datagram src dst p)) b = datagram src dst p"
    using serialize_packet_eq [OF assms, of "replicate MAX_IPV4_PACKET_SIZE 0"
        "replicate MAX_IPV4_PACKET_SIZE 0" src dst] by (auto simp: MAX_IPV4_PACKET_SIZE_def)
  then show "fst (write_packet e src dst p s) = transmit e src dst p s"
    and "is_local e src dst \<Longrightarrow> snd (write_packet e src dst p s) = 40 + length (tcp_payload p)"
    by (simp_all add: write_packet_def transmit_def Let_def)
qed

lemma example_env_simps [simp]:
  "local_address example_env = \<lparr>address = 0x0A000002, port = 0\<rparr>"
  "env_now example_env n = int n * 100000000" "env_random example_env n = 1000 + of_nat n"
  by (simp_all add: example_env_def local_address_def TunDevice_get_usable_ip_address_def
      default_address)

text \<open>The writers are never undefined on buffers of this size, whatever the header.\<close>

lemma write_packet_defined:
  assumes "length tcp_buf = MAX_IPV4_PACKET_SIZE" and "length ip_buf = MAX_IPV4_PACKET_SIZE"
  shows "serialize_packet src dst p tcp_buf ip_buf \<noteq> None"
proof -
  let ?h = "TcpHeader_set_checksum 0 (TcpPacket_fix_offset (tcp_header p))"
  obtain c where "TcpHeader_compute_checksum_net ?h (htonl (address src)) (htonl (address dst))
      (tcp_payload p) = Some c"
    using ComputeTcpChecksum_eq [of "TcpHeader_wire ?h" "address src" "address dst" "tcp_payload p"]
    by (simp add: TcpHeader_compute_checksum_net_def ComputeTcpChecksum_def)
  then have "TcpPacket_write p tcp_buf src dst \<noteq> None"
    using assms(1)
    by (auto simp: TcpPacket_write_def TcpPacket_write_net_def TcpPacket_store_def Let_def copy_n_def
        MAX_IPV4_PACKET_SIZE_def)
  then obtain b n where "TcpPacket_write p tcp_buf src dst = Some (b, n)" by auto
  moreover have "IPv4Packet_write q ip_buf \<noteq> None" for q
    using assms(2) by (simp add: IPv4Packet_write_def Let_def copy_n_def MAX_IPV4_PACKET_SIZE_def)
  ultimately show ?thesis by (simp add: serialize_packet_def)
qed


lemma send_control_packet_eq:
  "fst (send_control_packet e t syn ack rst fin sn an s) =
     transmit e (src_address t) (dst_address t) (control_packet t syn ack rst fin sn an 65535) s"
  by (simp add: send_control_packet_def write_packet_eq)

lemma send_raw_rst_eq:
  "fst (send_raw_rst e src dst sn an ackf s) = transmit e src dst (raw_rst_packet src dst sn an ackf) s"
  by (simp add: send_raw_rst_def write_packet_eq)

text \<open>Transmitting touches the two output queues only.\<close>

lemma transmit_frame [simp]:
  "socket_table (transmit e src dst p s) = socket_table s"
  "listener_table (transmit e src dst p s) = listener_table s"
  "connection_table (transmit e src dst p s) = connection_table s"
  "dirty_socket_ids (transmit e src dst p s) = dirty_socket_ids s"
  "is_running (transmit e src dst p s) = is_running s"
  "next_port (transmit e src dst p s) = next_port s"
  "clock_reads (transmit e src dst p s) = clock_reads s"
  "draws (transmit e src dst p s) = draws s"
  by (simp_all add: transmit_def)

lemma transmit_output [simp]:
  "loopback_packet_queue (transmit e src dst p s) =
     loopback_packet_queue s @ (if is_local e src dst then [datagram src dst p] else [])"
  "tun_output (transmit e src dst p s) =
     tun_output s @ (if is_local e src dst then [] else [datagram src dst p])"
  by (simp_all add: transmit_def)

subsection \<open>Data segments\<close>

text \<open>The data that \<^verbatim>\<open>process_block_\<close> and \<^verbatim>\<open>check_retransmissions_\<close> take from the send buffer, the states
  that send, the condition for queueing the socket again, and the block after sending.\<close>

definition sendable :: "tcb \<Rightarrow> bool" where
  "sendable t \<longleftrightarrow> current_state t = ESTABLISHED \<or> current_state t = CLOSE_WAIT
     \<or> current_state t = FIN_WAIT_1 \<or> current_state t = LAST_ACK"

definition next_chunk :: "tcb \<Rightarrow> bytes" where
  "next_chunk t = BlockingBuffer_peek MAX_IPV4_PACKET_SIZE (send_buffer t)
     (min (unat (usable_window t)) 1460) (unat (in_flight t))"

definition more_to_send :: "tcb \<Rightarrow> bool" where
  "more_to_send t \<longleftrightarrow> BlockingBuffer_size (send_buffer t) > unat (in_flight t) \<and> SND_WND t > in_flight t"

definition after_send :: "tcb \<Rightarrow> tcb" where
  "after_send t = t\<lparr>SND_NXT := SND_NXT t + of_nat (length (next_chunk t))\<rparr>"

definition retransmit_chunk :: "tcb \<Rightarrow> bytes" where
  "retransmit_chunk t = BlockingBuffer_peek MAX_IPV4_PACKET_SIZE (send_buffer t)
     (min (unat (in_flight t)) 1460) 0"

definition retransmit_due :: "int \<Rightarrow> tcb \<Rightarrow> bool" where
  "retransmit_due now t \<longleftrightarrow> current_state t = ESTABLISHED \<and> in_flight t > 0
     \<and> now - last_written t \<ge> RTO t * 1000000"

lemma length_load_loop [simp]: "length (fst (load_loop Size n buf pos)) = n"
  by (induction Size n buf pos rule: load_loop.induct) (simp_all add: case_prod_unfold Let_def)

lemma peek_bounded: "length (BlockingBuffer_peek Size b n off) \<le> n"
  by (simp add: BlockingBuffer_peek_def Let_def)

lemma next_chunk_bounded: "length (next_chunk t) \<le> 1460" "length (next_chunk t) \<le> unat (usable_window t)"
  using peek_bounded [of MAX_IPV4_PACKET_SIZE "send_buffer t" "min (unat (usable_window t)) 1460"
      "unat (in_flight t)"] by (simp_all add: next_chunk_def)

lemma retransmit_chunk_bounded: "length (retransmit_chunk t) \<le> 1460"
  using peek_bounded [of MAX_IPV4_PACKET_SIZE "send_buffer t" "min (unat (in_flight t)) 1460" 0]
  by (simp add: retransmit_chunk_def)

lemma process_block_eq:
  assumes "get_tcb s i = Some t"
  shows "process_block e i s =
    (let s1 = modify_tcb i (\<lambda>t. t\<lparr>last_written := env_now e (clock_reads s)\<rparr>)
                (s\<lparr>clock_reads := clock_reads s + 1\<rparr>)
     in if current_state t = SYN_SENT
        then transmit e (src_address t) (dst_address t)
               (control_packet t True False False False (SND_ISS t) 0 65535) s1
        else if sendable t \<and> next_chunk t \<noteq> []
        then let s2 = transmit e (src_address t) (dst_address t)
                   (create_writer_tcp_packet t (next_chunk t) (SND_NXT t))
                   (modify_tcb i (\<lambda>u. u\<lparr>SND_NXT := SND_NXT u + of_nat (length (next_chunk t))\<rparr>) s1)
             in if more_to_send (after_send t) then add_dirty_tcb i s2 else s2
        else s1)"
proof -
  have z: "usable_window t = 0 \<Longrightarrow> next_chunk t = []"
    using next_chunk_bounded(2) [of t] by simp
  have c: "BlockingBuffer_peek MAX_IPV4_PACKET_SIZE (send_buffer t)
      (min (unat (usable_window t)) (min 1460 MAX_IPV4_PACKET_SIZE)) (unat (in_flight t)) = next_chunk t"
    by (simp add: next_chunk_def MAX_IPV4_PACKET_SIZE_def)
  have w: "fst (write_packet e (src_address t) (dst_address t)
      (create_writer_tcp_packet t (next_chunk t) (SND_NXT t)) s') =
      transmit e (src_address t) (dst_address t) (create_writer_tcp_packet t (next_chunk t) (SND_NXT t)) s'"
    for s'
    using next_chunk_bounded(1) [of t] by (intro write_packet_eq) simp
  show ?thesis
    unfolding process_block_def assms option.case system_clock_now_def prod.case Let_def c
    using z by (simp add: case_prod_unfold w send_control_packet_eq sendable_def more_to_send_def
        after_send_def)
qed

lemma retransmit_block_eq:
  "retransmit_block e now i t s =
    (if retransmit_due now t \<and> retransmit_chunk t \<noteq> []
     then transmit e (src_address t) (dst_address t)
            (create_writer_tcp_packet t (retransmit_chunk t) (SND_UNA t))
            (modify_tcb i (\<lambda>t. t\<lparr>last_written := now,
               retransmit_attempts := retransmit_attempts t + 1\<rparr>) s)
     else s)"
proof -
  have c: "BlockingBuffer_peek MAX_IPV4_PACKET_SIZE (send_buffer t)
      (min (unat (in_flight t)) (min 1460 MAX_IPV4_PACKET_SIZE)) 0 = retransmit_chunk t"
    by (simp add: retransmit_chunk_def MAX_IPV4_PACKET_SIZE_def)
  have w: "fst (write_packet e (src_address t) (dst_address t)
      (create_writer_tcp_packet t (retransmit_chunk t) (SND_UNA t)) s') =
      transmit e (src_address t) (dst_address t)
        (create_writer_tcp_packet t (retransmit_chunk t) (SND_UNA t)) s'" for s'
    using retransmit_chunk_bounded [of t] by (intro write_packet_eq) simp
  show ?thesis
    unfolding retransmit_block_def Let_def c by (simp add: w retransmit_due_def)
qed

subsection \<open>Reading back\<close>

lemma datagram_view:
  assumes "plain_packet p"
  shows "IPv4PacketView_valid (datagram src dst p)"
    and "IPv4PacketView_payload (datagram src dst p) = TcpPacket_encode p src dst"
    and "IPv4PacketView_source_address_ntoh (datagram src dst p) = address src"
    and "IPv4PacketView_destination_address_ntoh (datagram src dst p) = address dst"
    and "OnesComplementChecksum (take 20 (datagram src dst p)) = 0"
    and "unat (IPv4PacketView_total_length_ntoh (datagram src dst p)) = 40 + length (tcp_payload p)"
  using assms IPv4Packet_encode_view
    [of "\<lparr>ip_header = stack_ip_header src dst, ip_payload = TcpPacket_encode p src dst\<rparr>"]
  by (simp_all add: datagram_def plain_packet_def)

lemma process_incoming_datagram:
  assumes "plain_packet p"
    and "TcpHeader_source_port_ntoh (tcp_header p) = port src"
    and "TcpHeader_dest_port_ntoh (tcp_header p) = port dst"
  shows "process_incoming_packet e (datagram src dst p) s =
    process_segment e src dst (TcpPacket_encode p src dst) s"
  using assms TcpPacket_encode_view [of p src dst]
  by (cases src; cases dst)
    (simp add: process_incoming_packet_def datagram_view Let_def plain_packet_def)

text \<open>A segment as its decoded fields; the fields of what the stack itself sends.\<close>

lemmas control_view = TcpPacket_encode_view [OF control_packet_fields(1)]
lemmas writer_view = TcpPacket_encode_view [OF writer_packet_fields(1)]
lemmas raw_rst_view = TcpPacket_encode_view [OF raw_rst_packet_fields(1)]

text \<open>C15. What the stack puts on the wire: for every segment with a 20-byte header and at most 65495
  bytes of payload, whatever the two scratch buffers held before, the result is one datagram of
  40 bytes plus payload whose IPv4 header checksum and TCP checksum both verify; it is appended
  to the loopback queue when the destination is local and to the TUN output otherwise, and
  nothing else of the stack changes. Feeding the datagram into \<^verbatim>\<open>process_incoming_packet_\<close>
  is processing a segment between these two endpoints whose bytes are those of the given header, but for the checksum, and of the
  payload, so that ports, sequence and acknowledgement number, all control bits, window, urgent pointer and payload arrive as
  they were.\<close>

theorem write_packet_delivers:
  assumes "plain_packet p" and "length tcp_buf = 65535" and "length ip_buf = 65535"
    and "TcpHeader_source_port_ntoh (tcp_header p) = port src"
    and "TcpHeader_dest_port_ntoh (tcp_header p) = port dst"
  shows "\<exists>raw ip_buf'. serialize_packet src dst p tcp_buf ip_buf = Some (ip_buf', length raw)
    \<and> take (length raw) ip_buf' = raw \<and> length raw = 40 + length (tcp_payload p)
    \<and> OnesComplementChecksum (take 20 raw) = 0
    \<and> ComputeTcpChecksum (address src) (address dst) (take 20 (drop 20 raw)) (drop 40 raw) = Some 0
    \<and> fst (write_packet e src dst p s) =
        (if is_local e src dst then s\<lparr>loopback_packet_queue := loopback_packet_queue s @ [raw]\<rparr>
         else s\<lparr>tun_output := tun_output s @ [raw]\<rparr>)
    \<and> process_incoming_packet e raw s' = process_segment e src dst (drop 20 raw) s'
    \<and> segment_reads (drop 20 raw) (tcp_header p) (tcp_payload p)
    \<and> (\<exists>c. drop 20 raw = TcpHeader_wire (TcpHeader_set_checksum c (tcp_header p)) @ tcp_payload p)"
proof -
  have seg: "drop 20 (datagram src dst p) = TcpPacket_encode p src dst"
    by (simp add: datagram_def IPv4Packet_encode_def)
  then have seg40: "drop 40 (datagram src dst p) = drop 20 (TcpPacket_encode p src dst)"
    by (metis drop_drop numeral_Bit0)
  obtain b where "serialize_packet src dst p tcp_buf ip_buf = Some (b, length (datagram src dst p))"
    "take (length (datagram src dst p)) b = datagram src dst p"
    using serialize_packet_eq [OF assms(1-3)] by blast
  then show ?thesis
    using datagram_view(5) [OF assms(1), of src dst]
      TcpPacket_encode_checksum [of p src dst] TcpPacket_encode_reads [of p src dst] TcpPacket_encode_wire [of p src dst] assms(1)
      write_packet_eq(1) [OF assms(1), of e src dst s] process_incoming_datagram [OF assms(1,4,5), of e s']
    by (intro exI [of _ "datagram src dst p"] exI [of _ b])
      (simp add: seg seg40 plain_packet_def transmit_def)
qed

theorem write_packet_delivers_witness:
  "\<exists>raw. fst (write_packet example_env
       \<lparr>address = 0x0A000002, port = 80\<rparr> \<lparr>address = 0x0A000002, port = 81\<rparr>
       (raw_rst_packet \<lparr>address = 0x0A000002, port = 80\<rparr> \<lparr>address = 0x0A000002, port = 81\<rparr> 7 9 True)
       TcpStack_new) = TcpStack_new\<lparr>loopback_packet_queue := [raw]\<rparr>
     \<and> length raw = 40 \<and> OnesComplementChecksum (take 20 raw) = 0"
  using write_packet_delivers [of
      "raw_rst_packet \<lparr>address = 0x0A000002, port = 80\<rparr> \<lparr>address = 0x0A000002, port = 81\<rparr> 7 9 True"
      "replicate 65535 0" "replicate 65535 0"
      "\<lparr>address = 0x0A000002, port = 80\<rparr>" "\<lparr>address = 0x0A000002, port = 81\<rparr>"
      example_env TcpStack_new]
  by (auto simp: is_local_def TcpStack_new_def)

end
