(* ===== verification/Tcp_Socket.thy ===== *)
theory Tcp_Socket
  imports Tcp_Output
begin

text \<open>
  \<^verbatim>\<open>TcpSocket.h\<close> and \<^verbatim>\<open>TcpSocket.cpp\<close>: the application interface. A socket object holds only the id
  of its control block; its operations take the object and the stack and return both. A call
  that waits on a condition variable has the outcome \<open>Blocks\<close> while the condition does not hold;
  \<^verbatim>\<open>connect\<close> is split at its wait into the part that queues the SYN and the condition it waits for.

  The relation \<open>stack_step\<close> interleaves the application calls with the operations of the daemon
  thread and with arbitrary datagrams from the network; \<open>reachable\<close> is its closure from a new
  stack.
\<close>

record TcpSocket =
  sock_id :: socket_id

definition TcpSocket_new :: TcpSocket where
  "TcpSocket_new = \<lparr>sock_id = 0\<rparr>"

definition TcpSocket_state :: "TcpSocket \<Rightarrow> TcpStack \<Rightarrow> TcpState" where
  "TcpSocket_state k s = (case get_tcb s (sock_id k) of None \<Rightarrow> CLOSED | Some t \<Rightarrow> current_state t)"

definition TcpSocket_bind ::
  "stack_env \<Rightarrow> IPv4Address \<Rightarrow> TcpSocket \<Rightarrow> TcpStack \<Rightarrow> TcpSocket \<times> TcpStack" where
  "TcpSocket_bind e addr k s =
     (let addr = (if address addr = 0 then addr\<lparr>address := address (local_address e)\<rparr> else addr);
          (addr, s) = (if port addr = 0
            then let (p, s) = allocate_ephemeral_port s in (addr\<lparr>port := p\<rparr>, s)
            else (addr, s));
          (i, s) = bind_socket addr s;
          k = k\<lparr>sock_id := i\<rparr>
      in case get_tcb s i of
           None \<Rightarrow> (k, s)
         | Some t \<Rightarrow>
             (let (iss, s) = generate_random_uint32 e s;
                  s = modify_tcb i (\<lambda>t. t\<lparr>SND_ISS := iss, SND_NXT := iss\<rparr>) s
              in (k, s)))"

definition TcpSocket_listen :: "TcpSocket \<Rightarrow> TcpStack \<Rightarrow> TcpStack" where
  "TcpSocket_listen k s =
     (case get_tcb s (sock_id k) of
        None \<Rightarrow> s
      | Some t \<Rightarrow>
          if current_state t \<noteq> CLOSED then s
          else modify_tcb (sock_id k) (\<lambda>t. t\<lparr>current_state := LISTEN\<rparr>) s)"

text \<open>\<^verbatim>\<open>connect\<close> up to its wait; the condition that ends the wait; the whole call, which is done
  at once when there is no control block.\<close>

definition TcpSocket_connect_start ::
  "stack_env \<Rightarrow> IPv4Address \<Rightarrow> TcpSocket \<Rightarrow> TcpStack \<Rightarrow> TcpSocket \<times> TcpStack" where
  "TcpSocket_connect_start e addr k s =
     (let local_addr = (case get_tcb s (sock_id k) of
            Some t \<Rightarrow> src_address t | None \<Rightarrow> \<lparr>address = 0, port = 0\<rparr>);
          (i, s) = register_connection e local_addr addr (sock_id k) s;
          k = k\<lparr>sock_id := i\<rparr>
      in case get_tcb s i of
           None \<Rightarrow> (k, s)
         | Some t \<Rightarrow>
             (let (iss, s) = generate_random_uint32 e s;
                  s = modify_tcb i (\<lambda>t. t\<lparr>SND_ISS := iss, SND_UNA := iss, SND_NXT := iss + 1\<rparr>) s;
                  s = modify_tcb i (TCB_set_state SYN_SENT) s
              in (k, add_dirty_tcb i s)))"

definition TcpSocket_connect_ready :: "TcpSocket \<Rightarrow> TcpStack \<Rightarrow> bool" where
  "TcpSocket_connect_ready k s =
     (case get_tcb s (sock_id k) of
        None \<Rightarrow> False
      | Some t \<Rightarrow> current_state t = ESTABLISHED \<or> current_state t = CLOSED)"

definition TcpSocket_accept :: "TcpSocket \<Rightarrow> TcpStack \<Rightarrow> TcpSocket outcome" where
  "TcpSocket_accept k s =
     (case get_tcb s (sock_id k) of
        None \<Rightarrow> Returns TcpSocket_new s
      | Some t \<Rightarrow>
          if current_state t \<noteq> LISTEN then Returns TcpSocket_new s
          else
            (case accept_queue t of
               [] \<Rightarrow> Blocks s
             | child_id # rest \<Rightarrow>
                 Returns \<lparr>sock_id = child_id\<rparr>
                   (modify_tcb (sock_id k) (\<lambda>t. t\<lparr>accept_queue := rest\<rparr>) s)))"

definition TcpSocket_send :: "TcpSocket \<Rightarrow> bytes \<Rightarrow> TcpStack \<Rightarrow> nat outcome" where
  "TcpSocket_send k data s =
     (case get_tcb s (sock_id k) of
        None \<Rightarrow> Returns 0 s
      | Some t \<Rightarrow>
          (case BlockingBuffer_write MAX_IPV4_PACKET_SIZE (send_buffer t) data of
             None \<Rightarrow> Blocks s
           | Some (buf, sent_data) \<Rightarrow>
               (let s = modify_tcb (sock_id k) (\<lambda>t. t\<lparr>send_buffer := buf\<rparr>) s
                in Returns sent_data (add_dirty_tcb (sock_id k) s))))"

text \<open>Both branches of \<^verbatim>\<open>recv\<close> return the number of bytes read, zero at the end of the stream; the
  bytes themselves are the result here.\<close>

definition TcpSocket_recv :: "TcpSocket \<Rightarrow> nat \<Rightarrow> TcpStack \<Rightarrow> bytes outcome" where
  "TcpSocket_recv k n s =
     (case get_tcb s (sock_id k) of
        None \<Rightarrow> Returns [] s
      | Some t \<Rightarrow>
          (case BlockingBuffer_read MAX_IPV4_PACKET_SIZE (recv_buffer t) n of
             None \<Rightarrow> Blocks s
           | Some (buf, data) \<Rightarrow>
               Returns data (modify_tcb (sock_id k) (\<lambda>t. t\<lparr>recv_buffer := buf\<rparr>) s)))"

definition TcpSocket_close :: "stack_env \<Rightarrow> TcpSocket \<Rightarrow> TcpStack \<Rightarrow> TcpStack" where
  "TcpSocket_close e k s =
     (if sock_id k = 0 then s else fst (close_connection e (sock_id k) s))"

subsection \<open>Interleavings\<close>

text \<open>
  One step of the system: a call of the application, an operation of the daemon, or the arrival
  of any bytes at all (\<open>Receive\<close>, which covers the loopback queue too). A handler that blocks in
  the middle of storing data leaves the state it reached (\<open>Receive_blocks\<close>) and goes on from
  there later (\<open>Resume\<close>).
\<close>

inductive stack_step :: "stack_env \<Rightarrow> TcpStack \<Rightarrow> TcpStack \<Rightarrow> bool" for e :: stack_env where
  Bind: "TcpSocket_bind e addr k s = (k', s') \<Longrightarrow> stack_step e s s'"
| Listen: "stack_step e s (TcpSocket_listen k s)"
| Connect: "TcpSocket_connect_start e addr k s = (k', s') \<Longrightarrow> stack_step e s s'"
| Accept: "TcpSocket_accept k s = Returns k' s' \<Longrightarrow> stack_step e s s'"
| Send: "TcpSocket_send k data s = Returns n s' \<Longrightarrow> stack_step e s s'"
| Recv: "TcpSocket_recv k n s = Returns data s' \<Longrightarrow> stack_step e s s'"
| Close: "stack_step e s (TcpSocket_close e k s)"
| Stop: "stack_step e s (stop s)"
| Process: "stack_step e s (process_dirty_blocks e s)"
| Dequeue: "loopback_packet_queue s = raw # rest \<Longrightarrow>
    stack_step e s (s\<lparr>loopback_packet_queue := rest\<rparr>)"
| Receive: "process_incoming_packet e raw s = Returns n s' \<Longrightarrow> stack_step e s s'"
| Receive_blocks: "process_incoming_packet e raw s = Blocks s' \<Longrightarrow> stack_step e s s'"
| Resume: "established_payload e i packet s = Returns n s' \<Longrightarrow> stack_step e s s'"
| Retransmit: "stack_step e s (check_retransmissions e s)"

inductive reachable :: "stack_env \<Rightarrow> TcpStack \<Rightarrow> bool" for e :: stack_env where
  Start: "reachable e TcpStack_new"
| Step: "reachable e s \<Longrightarrow> stack_step e s s' \<Longrightarrow> reachable e s'"

end
