(* ===== verification/Tcp_Invariants.thy ===== *)
theory Tcp_Invariants
  imports Tcp_Socket
begin

text \<open>
  Invariants of the running stack. Every operation of the daemon and of the application is a
  sequence of primitive steps (\<open>micro\<close>): transmit a segment, update one control block without
  damaging it (\<open>evolves\<close>), create or destroy a block, or change tables and counters that hold no
  blocks. The locale \<open>stack_invariant\<close> is the interface between the two: whatever holds of a new
  stack and is kept by each primitive step holds in every reachable state. It is interpreted for
  the well-formedness of the control blocks and for that of the datagrams produced.
\<close>

subsection \<open>Lookups after a state change\<close>

lemma get_tcb_modify [simp]:
  "get_tcb (modify_tcb i f s) = (get_tcb s)(i := map_option f (get_tcb s i))"
  using st.modify_law [of i f "socket_table s"] by (auto simp: get_tcb_def modify_tcb_def fun_eq_iff)

lemma get_tcb_frame [simp]:
  "get_tcb (transmit e src dst p s) = get_tcb s"
  "get_tcb (s\<lparr>listener_table := l\<rparr>) = get_tcb s"
  "get_tcb (s\<lparr>connection_table := c\<rparr>) = get_tcb s"
  "get_tcb (s\<lparr>dirty_socket_ids := d\<rparr>) = get_tcb s"
  "get_tcb (s\<lparr>loopback_packet_queue := q\<rparr>) = get_tcb s"
  "get_tcb (s\<lparr>tun_output := q\<rparr>) = get_tcb s"
  "get_tcb (s\<lparr>next_port := p'\<rparr>) = get_tcb s"
  "get_tcb (s\<lparr>is_running := b\<rparr>) = get_tcb s"
  "get_tcb (s\<lparr>clock_reads := n\<rparr>) = get_tcb s"
  "get_tcb (s\<lparr>draws := n\<rparr>) = get_tcb s"
  "get_tcb (add_dirty_tcb i s) = get_tcb s"
  by (simp_all add: get_tcb_def fun_eq_iff add_dirty_tcb_def)

lemma get_tcb_null [simp]: "get_tcb s 0 = None"
  by (simp add: get_tcb_def SocketTable_find_socket_def)

lemma get_tcb_new [simp]: "get_tcb TcpStack_new i = None"
  by (simp add: get_tcb_def TcpStack_new_def SocketTable_new_def SocketTable_find_socket_def)

lemma modify_tcb_frame [simp]:
  "listener_table (modify_tcb i f s) = listener_table s"
  "connection_table (modify_tcb i f s) = connection_table s"
  "dirty_socket_ids (modify_tcb i f s) = dirty_socket_ids s"
  "loopback_packet_queue (modify_tcb i f s) = loopback_packet_queue s"
  "tun_output (modify_tcb i f s) = tun_output s"
  "is_running (modify_tcb i f s) = is_running s"
  "next_port (modify_tcb i f s) = next_port s"
  "clock_reads (modify_tcb i f s) = clock_reads s"
  "draws (modify_tcb i f s) = draws s"
  by (simp_all add: modify_tcb_def)

lemma get_tcb_create:
  "get_tcb (s\<lparr>socket_table := snd (SocketTable_create_socket st a b (socket_table s))\<rparr>) i = Some t \<Longrightarrow>
     get_tcb s i = Some t \<or> t = (TCB_new st a b)\<lparr>tcb_id := i\<rparr>"
  by (auto simp: get_tcb_def SocketTable_create_socket_def SocketTable_find_socket_def Let_def
      update_conv' split: if_splits)

lemma get_tcb_destroy:
  "get_tcb (s\<lparr>socket_table := fst (SocketTable_destroy_socket j (socket_table s))\<rparr>) i =
     (if i = j then None else get_tcb s i)"
  by (auto simp: get_tcb_def SocketTable_destroy_socket_def SocketTable_find_socket_def delete_conv')

subsection \<open>Primitive steps\<close>

definition evolves :: "tcb \<Rightarrow> tcb \<Rightarrow> bool" where
  "evolves t t' \<longleftrightarrow> tcb_id t' = tcb_id t \<and> (TCB_inv t \<longrightarrow> TCB_inv t')
     \<and> (current_state t \<noteq> TIME_WAIT \<longrightarrow> current_state t' \<noteq> TIME_WAIT)"

text \<open>A segment that fits into a datagram of 1500 bytes.\<close>

definition mtu_packet :: "TcpPacket \<Rightarrow> bool" where
  "mtu_packet p \<longleftrightarrow> plain_packet p \<and> length (tcp_payload p) \<le> 1460"

lemma mtu_packets [simp]:
  "mtu_packet (control_packet t syn ack rst fin sn an w)"
  "mtu_packet (raw_rst_packet src dst sn an ackf)"
  "mtu_packet (create_writer_tcp_packet t data sn) \<longleftrightarrow> length data \<le> 1460"
  by (auto simp: mtu_packet_def)

inductive micro :: "stack_env \<Rightarrow> TcpStack \<Rightarrow> TcpStack \<Rightarrow> bool" for e :: stack_env where
  Transmit: "mtu_packet p \<Longrightarrow> TcpHeader_source_port_ntoh (tcp_header p) = port src \<Longrightarrow>
    TcpHeader_dest_port_ntoh (tcp_header p) = port dst \<Longrightarrow> micro e s (transmit e src dst p s)"
| Update: "(\<And>t. get_tcb s i = Some t \<Longrightarrow> evolves t (f t)) \<Longrightarrow> micro e s (modify_tcb i f s)"
| Create: "st \<noteq> TIME_WAIT \<Longrightarrow>
    micro e s (s\<lparr>socket_table := snd (SocketTable_create_socket st a b (socket_table s))\<rparr>)"
| Destroy: "micro e s (s\<lparr>socket_table := fst (SocketTable_destroy_socket i (socket_table s))\<rparr>)"
| Bookkeeping: "socket_table s' = socket_table s \<Longrightarrow> tun_output s' = tun_output s \<Longrightarrow>
    set (loopback_packet_queue s') \<subseteq> set (loopback_packet_queue s) \<Longrightarrow>
    (is_running s' \<longrightarrow> is_running s) \<Longrightarrow> micro e s s'"

locale stack_invariant =
  fixes P :: "TcpStack \<Rightarrow> bool"
  assumes new: "P TcpStack_new"
    and kept: "P s \<Longrightarrow> micro e s s' \<Longrightarrow> P s'"
begin

lemma kept_by_many: "(micro e)\<^sup>*\<^sup>* s s' \<Longrightarrow> P s \<Longrightarrow> P s'"
  by (induction rule: rtranclp_induct) (auto intro: kept)

lemma always:
  assumes "reachable e s" and "\<And>s s'. stack_step e s s' \<Longrightarrow> (micro e)\<^sup>*\<^sup>* s s'"
  shows "P s"
  using assms(1) by (induction rule: reachable.induct) (auto intro: new kept_by_many assms(2))

end

subsubsection \<open>Introduction rules, outermost operation first\<close>

named_theorems micros \<open>decomposition of operations into primitive steps\<close>

lemma micros_refl [micros]: "(micro e)\<^sup>*\<^sup>* s s"
  by simp

lemma micros_transmit [micros]:
  "(micro e)\<^sup>*\<^sup>* s s' \<Longrightarrow> mtu_packet p \<Longrightarrow> TcpHeader_source_port_ntoh (tcp_header p) = port src \<Longrightarrow>
    TcpHeader_dest_port_ntoh (tcp_header p) = port dst \<Longrightarrow> (micro e)\<^sup>*\<^sup>* s (transmit e src dst p s')"
  by (rule rtranclp.rtrancl_into_rtrancl) (auto intro: micro.Transmit)

lemma micros_update [micros]:
  "(micro e)\<^sup>*\<^sup>* s s' \<Longrightarrow> (\<And>t. get_tcb s' i = Some t \<Longrightarrow> evolves t (f t)) \<Longrightarrow>
    (micro e)\<^sup>*\<^sup>* s (modify_tcb i f s')"
  by (rule rtranclp.rtrancl_into_rtrancl) (auto intro: micro.Update)

lemma micros_create [micros]:
  "(micro e)\<^sup>*\<^sup>* s s' \<Longrightarrow> st \<noteq> TIME_WAIT \<Longrightarrow>
    (micro e)\<^sup>*\<^sup>* s (s'\<lparr>socket_table := snd (SocketTable_create_socket st a b (socket_table s'))\<rparr>)"
  by (rule rtranclp.rtrancl_into_rtrancl) (auto intro: micro.Create)

lemma micros_destroy [micros]:
  "(micro e)\<^sup>*\<^sup>* s s' \<Longrightarrow>
    (micro e)\<^sup>*\<^sup>* s (s'\<lparr>socket_table := fst (SocketTable_destroy_socket i (socket_table s'))\<rparr>)"
  by (rule rtranclp.rtrancl_into_rtrancl) (auto intro: micro.Destroy)

lemma micros_bookkeeping:
  "(micro e)\<^sup>*\<^sup>* s s' \<Longrightarrow> socket_table s'' = socket_table s' \<Longrightarrow> tun_output s'' = tun_output s' \<Longrightarrow>
    set (loopback_packet_queue s'') \<subseteq> set (loopback_packet_queue s') \<Longrightarrow>
    (is_running s'' \<longrightarrow> is_running s') \<Longrightarrow> (micro e)\<^sup>*\<^sup>* s s''"
  by (rule rtranclp.rtrancl_into_rtrancl) (auto intro: micro.Bookkeeping)

lemma micros_tables [micros]:
  assumes "(micro e)\<^sup>*\<^sup>* s s'"
  shows "(micro e)\<^sup>*\<^sup>* s (s'\<lparr>listener_table := l\<rparr>)" "(micro e)\<^sup>*\<^sup>* s (s'\<lparr>connection_table := c\<rparr>)"
    "(micro e)\<^sup>*\<^sup>* s (s'\<lparr>dirty_socket_ids := d\<rparr>)" "(micro e)\<^sup>*\<^sup>* s (s'\<lparr>is_running := False\<rparr>)"
    "(micro e)\<^sup>*\<^sup>* s (s'\<lparr>next_port := p\<rparr>)" "(micro e)\<^sup>*\<^sup>* s (s'\<lparr>clock_reads := n\<rparr>)"
    "(micro e)\<^sup>*\<^sup>* s (s'\<lparr>draws := n\<rparr>)" "(micro e)\<^sup>*\<^sup>* s (add_dirty_tcb i s')"
  by (rule micros_bookkeeping [OF assms]; simp add: add_dirty_tcb_def)+

lemma micros_erase_destroy [micros]:
  "(micro e)\<^sup>*\<^sup>* s s' \<Longrightarrow> (micro e)\<^sup>*\<^sup>* s (s'\<lparr>connection_table := c,
    socket_table := fst (SocketTable_destroy_socket i (socket_table s'))\<rparr>)"
  using micros_destroy [of e s "s'\<lparr>connection_table := c\<rparr>" i] micros_tables(2) [of e s s' c] by simp

subsection \<open>Every operation is a sequence of primitive steps\<close>

lemmas evolve_simps = evolves_def TCB_inv_def TCB_set_state_def TCB_close_def Let_def

lemmas unfold_sends = send_control_packet_eq send_raw_rst_eq case_prod_unfold Let_def

lemma process_block_none: "get_tcb s i = None \<Longrightarrow> process_block e i s = s"
  by (simp add: process_block_def)

lemma micros_process_block [micros]:
  assumes "(micro e)\<^sup>*\<^sup>* s0 s"
  shows "(micro e)\<^sup>*\<^sup>* s0 (process_block e i s)"
proof (cases "get_tcb s i")
  case None
  with assms show ?thesis by (simp add: process_block_none)
next
  case (Some t)
  show ?thesis
    unfolding process_block_eq [OF Some] Let_def
    using assms next_chunk_bounded(1) [of t]
    by (simp; intro conjI impI micros; simp add: evolve_simps)
qed

lemma micros_process_dirty_blocks [micros]:
  assumes "(micro e)\<^sup>*\<^sup>* s0 s"
  shows "(micro e)\<^sup>*\<^sup>* s0 (process_dirty_blocks e s)"
proof -
  have "(micro e)\<^sup>*\<^sup>* s0 (fold (process_block e) ids s)" if "(micro e)\<^sup>*\<^sup>* s0 s" for ids s
    using that by (induction ids arbitrary: s) (auto intro: micros_process_block)
  then show ?thesis
    using assms by (simp add: process_dirty_blocks_def micros_tables)
qed

lemma micros_retransmit_block [micros]:
  assumes "(micro e)\<^sup>*\<^sup>* s0 s"
  shows "(micro e)\<^sup>*\<^sup>* s0 (retransmit_block e now i t s)"
  using assms retransmit_chunk_bounded [of t]
  by (simp add: retransmit_block_eq; intro impI micros; simp add: evolve_simps)

lemma micros_check_retransmissions [micros]:
  assumes "(micro e)\<^sup>*\<^sup>* s0 s"
  shows "(micro e)\<^sup>*\<^sup>* s0 (check_retransmissions e s)"
proof -
  have "(micro e)\<^sup>*\<^sup>* s0 (fold (\<lambda>(i, b). retransmit_block e now i b) xs s)"
    if "(micro e)\<^sup>*\<^sup>* s0 s" for xs now s
    using that by (induction xs arbitrary: s) (auto intro: micros_retransmit_block)
  then show ?thesis
    using assms by (simp add: check_retransmissions_def system_clock_now_def
        SocketTable_for_each_socket_def micros_tables)
qed

lemma destroy_connection_eq:
  "\<exists>i c. fst (destroy_connection a b s) =
     s\<lparr>socket_table := fst (SocketTable_destroy_socket i (socket_table s)), connection_table := c\<rparr>"
proof (cases "map_of (connection_table s) (a, b)")
  case None
  then show ?thesis
    by (intro exI [of _ 0] exI [of _ "connection_table s"])
      (auto simp: destroy_connection_def ConnectionTable_destroy_connection_def
        SocketTable_destroy_socket_def)
next
  case (Some i)
  then show ?thesis
    by (intro exI [of _ i] exI [of _ "AList.delete (a, b) (connection_table s)"])
      (auto simp: destroy_connection_def ConnectionTable_destroy_connection_def
        SocketTable_destroy_socket_def)
qed

lemma micros_destroy_connection [micros]:
  assumes "(micro e)\<^sup>*\<^sup>* s0 s"
  shows "(micro e)\<^sup>*\<^sup>* s0 (fst (destroy_connection a b s))"
proof -
  obtain i c where "fst (destroy_connection a b s) =
      s\<lparr>socket_table := fst (SocketTable_destroy_socket i (socket_table s)), connection_table := c\<rparr>"
    using destroy_connection_eq by blast
  then show ?thesis
    using assms micros_tables(2) [OF micros_destroy [OF assms, of i], of c] by simp
qed

lemma micros_close_connection [micros]:
  assumes "(micro e)\<^sup>*\<^sup>* s0 s"
  shows "(micro e)\<^sup>*\<^sup>* s0 (fst (close_connection e i s))"
proof (cases "get_tcb s i")
  case (Some t)
  have fin: "(micro e)\<^sup>*\<^sup>* s0 (fst (close_with_fin e i st s))" if "st \<noteq> TIME_WAIT" for st
    using assms that
    by (simp add: close_with_fin_def unfold_sends split: option.split)
      (intro conjI allI impI micros; simp add: evolve_simps)
  have "(micro e)\<^sup>*\<^sup>* s0 (fst (destroy_connection a b (modify_tcb i TCB_close s)))" for a b
    using assms by (intro micros; simp add: evolve_simps)
  with fin Some show ?thesis by (simp add: close_connection_def Let_def)
qed (use assms in \<open>simp add: close_connection_def\<close>)

lemma micros_handle_closed [micros]:
  assumes "(micro e)\<^sup>*\<^sup>* s0 s"
  shows "(micro e)\<^sup>*\<^sup>* s0 (fst (handle_closed_reset_response e src dst packet s))"
  using assms by (simp add: handle_closed_reset_response_def unfold_sends micros)

lemma micros_handle_passive_open [micros]:
  assumes "(micro e)\<^sup>*\<^sup>* s0 s"
  shows "(micro e)\<^sup>*\<^sup>* s0 (fst (handle_passive_open_syn e src dst packet s))"
proof -
  let ?c = "SocketTable_create_socket SYN_RECEIVED dst src (socket_table s)"
  have "(micro e)\<^sup>*\<^sup>* s0 (s\<lparr>socket_table := snd ?c\<rparr>)"
    using assms by (rule micros_create) simp
  then show ?thesis
    using assms
    by (simp add: handle_passive_open_syn_def generate_random_uint32_def unfold_sends split: option.split)
      (intro conjI allI impI micros; simp add: evolve_simps)
qed

lemma micros_handle_syn_sent [micros]:
  assumes "(micro e)\<^sup>*\<^sup>* s0 s"
  shows "(micro e)\<^sup>*\<^sup>* s0 (fst (handle_syn_sent_state e i src packet s))"
  using assms
  by (simp add: handle_syn_sent_state_def unfold_sends split: option.split)
    (intro conjI allI impI micros; simp add: evolve_simps)

lemma micros_handle_syn_received [micros]:
  assumes "(micro e)\<^sup>*\<^sup>* s0 s"
  shows "(micro e)\<^sup>*\<^sup>* s0 (fst (handle_syn_received_state e i src packet s))"
  using assms
  by (simp add: handle_syn_received_state_def unfold_sends split: option.split)
    (intro conjI allI impI micros; simp add: evolve_simps)

lemma micros_handle_fin_wait_1 [micros]:
  assumes "(micro e)\<^sup>*\<^sup>* s0 s"
  shows "(micro e)\<^sup>*\<^sup>* s0 (fst (handle_fin_wait_1_state e i packet s))"
  using assms
  by (simp add: handle_fin_wait_1_state_def unfold_sends split: option.split)
    (intro conjI allI impI micros; simp add: evolve_simps)

lemma micros_handle_fin_wait_2 [micros]:
  assumes "(micro e)\<^sup>*\<^sup>* s0 s"
  shows "(micro e)\<^sup>*\<^sup>* s0 (fst (handle_fin_wait_2_state e i packet s))"
  using assms
  by (simp add: handle_fin_wait_2_state_def unfold_sends split: option.split)
    (intro conjI allI impI micros; simp add: evolve_simps)

lemma micros_handle_closing [micros]:
  assumes "(micro e)\<^sup>*\<^sup>* s0 s"
  shows "(micro e)\<^sup>*\<^sup>* s0 (fst (handle_closing_state i packet s))"
    and "(micro e)\<^sup>*\<^sup>* s0 (fst (handle_last_ack_state i packet s))"
  using assms
  by (simp_all add: handle_closing_state_def handle_last_ack_state_def Let_def split: option.split)
    (intro conjI allI impI micros; simp add: evolve_simps)+

text \<open>The state that a handler returns, or has reached when it blocks.\<close>

fun outcome_states :: "'a outcome \<Rightarrow> TcpStack list" where
  "outcome_states (Returns _ s) = [s]"
| "outcome_states (Blocks s) = [s]"
| "outcome_states Undefined = []"

lemma evolves_ack_tcb: "evolves t (ack_tcb packet t)"
proof -
  have "BlockingBuffer_inv Size (fst (BlockingBuffer_discard Size b n))"
    if "BlockingBuffer_inv Size b" for Size n and b :: byte_buffer
    using that rb.disc_seq [of Size b n] by (cases "BlockingBuffer_discard Size b n") auto
  then show ?thesis by (simp add: evolve_simps ack_tcb_def)
qed

lemma evolves_recv_buffer:
  assumes "BlockingBuffer_write MAX_IPV4_PACKET_SIZE (recv_buffer t) data = Some (buf, n)"
  shows "evolves t (t\<lparr>recv_buffer := buf\<rparr>)"
  using assms rb.wr_seq [of MAX_IPV4_PACKET_SIZE "recv_buffer t" data buf n] by (auto simp: evolve_simps)

lemma micros_established_payload:
  assumes "(micro e)\<^sup>*\<^sup>* s0 s"
  shows "list_all ((micro e)\<^sup>*\<^sup>* s0) (outcome_states (established_payload e i packet s))"
  using assms
  by (auto simp: established_payload_def unfold_sends split: option.split
      intro!: micros evolves_recv_buffer)

lemma micros_handle_established:
  assumes "(micro e)\<^sup>*\<^sup>* s0 s"
  shows "list_all ((micro e)\<^sup>*\<^sup>* s0) (outcome_states (handle_established_state e i packet s))"
proof (cases "get_tcb s i")
  case None
  with assms show ?thesis by (simp add: handle_established_state_def)
next
  case (Some t)
  have fin: "(micro e)\<^sup>*\<^sup>* s0 (fst (established_fin e i t packet s))"
    using assms Some
    by (simp add: established_fin_def unfold_sends)
      (intro conjI allI impI micros; simp add: evolve_simps)
  have "(micro e)\<^sup>*\<^sup>* s0 (if TcpPacketView_ack packet then established_ack i t packet s else s)"
    using assms Some
    by (auto simp: established_ack_def Let_def intro!: micros evolves_ack_tcb)
  moreover from this have "(micro e)\<^sup>*\<^sup>* s0 (modify_tcb i (\<lambda>t. t\<lparr>RCV_NXT := f t\<rparr>)
      (if TcpPacketView_ack packet then established_ack i t packet s else s))" for f
    by (rule micros_update) (simp add: evolve_simps)
  ultimately show ?thesis
    using fin Some
    by (simp add: handle_established_state_def case_prod_unfold micros_established_payload Let_def)
qed

lemma micros_process_incoming:
  assumes "(micro e)\<^sup>*\<^sup>* s0 s"
  shows "list_all ((micro e)\<^sup>*\<^sup>* s0) (outcome_states (process_incoming_packet e raw s))"
proof -
  have "list_all ((micro e)\<^sup>*\<^sup>* s0) (outcome_states (dispatch_state e i t src dst packet s))"
    for i t src dst packet
    using assms micros_handle_established [OF assms, of i packet]
    by (cases "current_state t") (simp_all add: dispatch_state_def returns_def micros)
  then have "list_all ((micro e)\<^sup>*\<^sup>* s0) (outcome_states (process_segment e src dst packet s))"
    for src dst packet
    using assms by (simp add: process_segment_def returns_def micros Let_def split: option.split)
  then show ?thesis using assms by (simp add: process_incoming_packet_def Let_def)
qed

lemma ephemeral_loop_state:
  "\<exists>p. snd (ephemeral_loop n s) = s\<lparr>next_port := p\<rparr>"
proof (induction n arbitrary: s)
  case (Suc n)
  show ?case
    using Suc [of "s\<lparr>next_port := 49152\<rparr>"] Suc [of "s\<lparr>next_port := next_port s + 1\<rparr>"]
    by (auto simp: Let_def)
qed (auto simp: exI)

lemma micros_allocate [micros]:
  "(micro e)\<^sup>*\<^sup>* s0 s \<Longrightarrow> (micro e)\<^sup>*\<^sup>* s0 (snd (allocate_ephemeral_port s))"
  using ephemeral_loop_state [of 16384 s] micros_tables(5) [of e s0 s]
  by (auto simp: allocate_ephemeral_port_def)

lemma micros_bind_socket [micros]:
  "(micro e)\<^sup>*\<^sup>* s0 s \<Longrightarrow> (micro e)\<^sup>*\<^sup>* s0 (snd (bind_socket addr s))"
  using micros_tables(1) [OF micros_create [of e s0 s CLOSED addr IPv4Address_default],
      of "AList.update (port addr) (fst (SocketTable_create_socket CLOSED addr IPv4Address_default
        (socket_table s))) (listener_table s)"]
  by (simp add: bind_socket_def ListenerTable_bind_new_def case_prod_unfold Let_def)

lemma micros_connection_table:
  assumes "(micro e)\<^sup>*\<^sup>* s0 s"
    and "ConnectionTable_register_connection a b k (socket_table s, connection_table s) = (i, st, c)"
  shows "(micro e)\<^sup>*\<^sup>* s0 (s\<lparr>socket_table := st, connection_table := c\<rparr>)"
proof -
  have "st = snd (SocketTable_create_socket CLOSED a b (socket_table s)) \<or>
      st = SocketTable_modify k (\<lambda>t. t\<lparr>src_address := a, dst_address := b\<rparr>) (socket_table s)"
    using assms(2)
    by (auto simp: ConnectionTable_register_connection_def case_prod_unfold Let_def split: if_splits)
  then show ?thesis
  proof
    assume "st = snd (SocketTable_create_socket CLOSED a b (socket_table s))"
    then show ?thesis using assms(1) by (auto intro: micros)
  next
    assume "st = SocketTable_modify k (\<lambda>t. t\<lparr>src_address := a, dst_address := b\<rparr>) (socket_table s)"
    then have "s\<lparr>socket_table := st\<rparr> = modify_tcb k (\<lambda>t. t\<lparr>src_address := a, dst_address := b\<rparr>) s"
      by (simp add: modify_tcb_def)
    moreover have "(micro e)\<^sup>*\<^sup>* s0 (modify_tcb k (\<lambda>t. t\<lparr>src_address := a, dst_address := b\<rparr>) s)"
      using assms(1) by (rule micros_update) (simp add: evolve_simps)
    ultimately show ?thesis by (auto intro: micros)
  qed
qed

lemma micros_register_connection [micros]:
  assumes "(micro e)\<^sup>*\<^sup>* s0 s"
  shows "(micro e)\<^sup>*\<^sup>* s0 (snd (register_connection e a b k s))"
  using assms
  by (auto simp: register_connection_def Let_def case_prod_unfold
      intro!: micros_connection_table [where k = k] micros_allocate prod_eqI)

lemma micros_bind [micros]:
  assumes "(micro e)\<^sup>*\<^sup>* s0 s"
  shows "(micro e)\<^sup>*\<^sup>* s0 (snd (TcpSocket_bind e addr k s))"
  using assms
  by (auto simp: TcpSocket_bind_def case_prod_unfold Let_def generate_random_uint32_def
      evolve_simps split: option.split intro!: micros)

lemma micros_connect [micros]:
  assumes "(micro e)\<^sup>*\<^sup>* s0 s"
  shows "(micro e)\<^sup>*\<^sup>* s0 (snd (TcpSocket_connect_start e addr k s))"
  using assms
  by (auto simp: TcpSocket_connect_start_def case_prod_unfold Let_def generate_random_uint32_def
      evolve_simps split: option.split intro!: micros)

lemma micros_calls:
  assumes "(micro e)\<^sup>*\<^sup>* s0 s"
  shows "(micro e)\<^sup>*\<^sup>* s0 (TcpSocket_listen k s)" "(micro e)\<^sup>*\<^sup>* s0 (TcpSocket_close e k s)"
    "(micro e)\<^sup>*\<^sup>* s0 (stop s)"
    "TcpSocket_accept k s = Returns k' s' \<Longrightarrow> (micro e)\<^sup>*\<^sup>* s0 s'"
  using assms
  by (auto simp: TcpSocket_listen_def TcpSocket_close_def stop_def TcpSocket_accept_def evolve_simps
      split: option.splits if_splits list.splits intro!: micros)

lemma evolves_send_buffer:
  assumes "BlockingBuffer_write MAX_IPV4_PACKET_SIZE (send_buffer t) data = Some (buf, n)"
  shows "evolves t (t\<lparr>send_buffer := buf\<rparr>)"
  using assms rb.wr_seq [of MAX_IPV4_PACKET_SIZE "send_buffer t" data buf n] by (auto simp: evolve_simps)

lemma evolves_read:
  assumes "BlockingBuffer_read MAX_IPV4_PACKET_SIZE (recv_buffer t) m = Some (buf, data)"
  shows "evolves t (t\<lparr>recv_buffer := buf\<rparr>)"
  using assms rb.rd_seq [of MAX_IPV4_PACKET_SIZE "recv_buffer t" m buf data] by (auto simp: evolve_simps)

lemma micros_data:
  assumes "(micro e)\<^sup>*\<^sup>* s0 s"
  shows "TcpSocket_send k data s = Returns n s' \<Longrightarrow> (micro e)\<^sup>*\<^sup>* s0 s'"
    "TcpSocket_recv k m s = Returns data s' \<Longrightarrow> (micro e)\<^sup>*\<^sup>* s0 s'"
  using assms
  by (auto simp: TcpSocket_send_def TcpSocket_recv_def Let_def split: option.splits
      intro!: micros evolves_send_buffer evolves_read)

lemma stack_step_micros:
  assumes "stack_step e s s'"
  shows "(micro e)\<^sup>*\<^sup>* s s'"
  using assms
proof cases
  case (Bind addr k k')
  then show ?thesis using micros_bind [of e s s addr k] by simp
next
  case (Connect addr k k')
  then show ?thesis using micros_connect [of e s s addr k] by simp
next
  case (Receive raw n)
  then show ?thesis using micros_process_incoming [of e s s raw] by simp
next
  case (Receive_blocks raw)
  then show ?thesis using micros_process_incoming [of e s s raw] by simp
next
  case (Resume i packet n)
  then show ?thesis using micros_established_payload [of e s s i packet] by simp
next
  case (Dequeue raw rest)
  then show ?thesis by (auto intro: micros_bookkeeping [OF micros_refl])
qed (auto intro: micros_calls micros_data micros)

text \<open>The loop of the daemon thread, over any events of the device.\<close>

lemma micros_drain_loopback:
  "(micro e)\<^sup>*\<^sup>* s0 s \<Longrightarrow> list_all ((micro e)\<^sup>*\<^sup>* s0) (outcome_states (drain_loopback e batch s))"
proof (induction e batch s rule: drain_loopback.induct)
  case (2 e raw batch s)
  then show ?case
    using micros_process_incoming [OF 2(2), of raw]
    by (cases "process_incoming_packet e raw s") (auto intro: micros)
qed simp

lemma micros_drain_tun:
  "(micro e)\<^sup>*\<^sup>* s0 s \<Longrightarrow> list_all ((micro e)\<^sup>*\<^sup>* s0) (outcome_states (drain_tun e evs s))"
proof (induction e evs s rule: drain_tun.induct)
  case (2 e ev evs s)
  have "list_all ((micro e)\<^sup>*\<^sup>* s0) (outcome_states (read_incoming_packets e ev s))"
    using 2(2) micros_process_incoming [OF 2(2)]
    by (simp add: read_incoming_packets_def case_prod_unfold Let_def)
  then show ?case
    using 2 by (cases "read_incoming_packets e ev s") (auto intro: micros)
qed simp

lemma micros_lifecycle_iteration:
  assumes "(micro e)\<^sup>*\<^sup>* s0 s"
  shows "list_all ((micro e)\<^sup>*\<^sup>* s0) (outcome_states (lifecycle_iteration e evs s))"
proof -
  define s1 where "s1 = (if dirty_socket_ids s \<noteq> [] then process_dirty_blocks e s else s)"
  have "(micro e)\<^sup>*\<^sup>* s0 s1" using assms by (simp add: s1_def micros)
  then have s2: "(micro e)\<^sup>*\<^sup>* s0 (s1\<lparr>loopback_packet_queue := []\<rparr>)"
    by (rule micros_bookkeeping) simp_all
  let ?o = "drain_loopback e (loopback_packet_queue s1) (s1\<lparr>loopback_packet_queue := []\<rparr>)"
  have o: "list_all ((micro e)\<^sup>*\<^sup>* s0) (outcome_states ?o)" using s2 by (rule micros_drain_loopback)
  have eq: "lifecycle_iteration e evs s = (case ?o of
      Returns _ s \<Rightarrow> (case drain_tun e evs s of
        Returns _ s \<Rightarrow> Returns () (check_retransmissions e s) | Blocks s \<Rightarrow> Blocks s
      | Undefined \<Rightarrow> Undefined)
    | Blocks s \<Rightarrow> Blocks s | Undefined \<Rightarrow> Undefined)"
    by (simp add: lifecycle_iteration_def s1_def Let_def)
  show ?thesis
  proof (cases ?o)
    case (Returns u s3)
    with o have "(micro e)\<^sup>*\<^sup>* s0 s3" by simp
    then show ?thesis
      using Returns micros_drain_tun [of e s0 s3 evs]
      by (cases "drain_tun e evs s3") (auto simp: eq intro: micros)
  qed (use o eq in simp_all)
qed

lemma micros_lifecycle:
  "(micro e)\<^sup>*\<^sup>* s0 s \<Longrightarrow> list_all ((micro e)\<^sup>*\<^sup>* s0) (outcome_states (lifecycle e rounds s))"
proof (induction e rounds s rule: lifecycle.induct)
  case (2 e evs rounds s)
  then show ?case
    using micros_lifecycle_iteration [OF 2(2), of evs]
    by (cases "lifecycle_iteration e evs s") auto
qed simp

text \<open>A stopped stack stays stopped: nothing the daemon does sets the flag again.\<close>

lemma stopped_forever: "(micro e)\<^sup>*\<^sup>* s s' \<Longrightarrow> \<not> is_running s \<Longrightarrow> \<not> is_running s'"
  by (induction rule: rtranclp_induct) (auto elim!: micro.cases simp: transmit_def modify_tcb_def split: if_splits)

lemma lifecycle_iteration_stopped:
  assumes "lifecycle_iteration e evs s = Returns u s'" and "\<not> is_running s"
  shows "\<not> is_running s'"
  using micros_lifecycle_iteration [of e s s evs] assms by (auto dest: stopped_forever)

text \<open>The destructor: \<^verbatim>\<open>stop_\<close> sets the flag while the daemon is in some iteration; \<^verbatim>\<open>join\<close> waits for that
  iteration and for the loop, which is offered any number of further rounds.\<close>

definition TcpStack_destroy :: "stack_env \<Rightarrow> tun_event list \<Rightarrow> tun_event list list \<Rightarrow> TcpStack \<Rightarrow> unit outcome" where
  "TcpStack_destroy e evs rounds s =
     (case lifecycle_iteration e evs (stop s) of
        Returns _ s \<Rightarrow> lifecycle e rounds s
      | Blocks s \<Rightarrow> Blocks s
      | Undefined \<Rightarrow> Undefined)"

text \<open>The destructor waits for the current iteration and for nothing else; it does not return when that iteration
  is blocked in a full receive buffer.\<close>

lemma destroy_ends_with_iteration: "TcpStack_destroy e evs rounds s = lifecycle_iteration e evs (stop s)"
proof -
  have "\<not> is_running s' \<Longrightarrow> lifecycle e rounds s' = Returns () s'" for s' by (cases rounds) simp_all
  then show ?thesis
    using lifecycle_iteration_stopped [of e evs "stop s"]
    by (cases "lifecycle_iteration e evs (stop s)") (simp_all add: TcpStack_destroy_def stop_def)
qed

subsection \<open>Invariants of reachable states\<close>

definition sockets_ok :: "TcpStack \<Rightarrow> bool" where
  "sockets_ok s \<longleftrightarrow> (\<forall>i t. get_tcb s i = Some t \<longrightarrow>
     tcb_id t = i \<and> TCB_inv t \<and> current_state t \<noteq> TIME_WAIT)"

definition wf_datagram :: "bytes \<Rightarrow> bool" where
  "wf_datagram raw \<longleftrightarrow> (\<exists>src dst p. raw = datagram src dst p \<and> mtu_packet p
     \<and> TcpHeader_source_port_ntoh (tcp_header p) = port src
     \<and> TcpHeader_dest_port_ntoh (tcp_header p) = port dst)"

definition output_ok :: "TcpStack \<Rightarrow> bool" where
  "output_ok s \<longleftrightarrow> list_all wf_datagram (loopback_packet_queue s) \<and> list_all wf_datagram (tun_output s)"

interpretation sockets: stack_invariant sockets_ok
proof
  show "sockets_ok TcpStack_new" by (simp add: sockets_ok_def)
next
  fix e s s'
  assume "sockets_ok s" and "micro e s s'"
  from this(2,1) show "sockets_ok s'"
  proof cases
    case (Update i f)
    then show ?thesis using \<open>sockets_ok s\<close> by (auto simp: sockets_ok_def evolves_def)
  next
    case (Create st a b)
    then show ?thesis
      using \<open>sockets_ok s\<close> by (auto simp: sockets_ok_def TCB_inv_def TCB_new_def MAX_IPV4_PACKET_SIZE_def
          dest!: get_tcb_create)
  next
    case (Destroy i)
    then show ?thesis using \<open>sockets_ok s\<close> by (simp add: sockets_ok_def get_tcb_destroy)
  next
    case Bookkeeping
    then show ?thesis using \<open>sockets_ok s\<close> by (simp add: sockets_ok_def get_tcb_def)
  qed (simp add: sockets_ok_def)
qed

interpretation outputs: stack_invariant output_ok
proof
  show "output_ok TcpStack_new" by (simp add: output_ok_def TcpStack_new_def)
next
  fix e s s'
  assume "output_ok s" and "micro e s s'"
  from this(2,1) show "output_ok s'"
    by cases (auto simp: output_ok_def transmit_def wf_datagram_def list_all_iff)
qed

lemma reachable_sockets_ok: "reachable e s \<Longrightarrow> sockets_ok s"
  using sockets.always stack_step_micros by blast

lemma reachable_output_ok: "reachable e s \<Longrightarrow> output_ok s"
  using outputs.always stack_step_micros by blast

lemma wf_datagram_views:
  assumes "wf_datagram raw"
  shows "IPv4PacketView_valid raw \<and> OnesComplementChecksum (take 20 raw) = 0
    \<and> TcpPacketView_valid (IPv4PacketView_payload raw)
    \<and> ComputeTcpChecksum (IPv4PacketView_source_address_ntoh raw)
        (IPv4PacketView_destination_address_ntoh raw) (take 20 (IPv4PacketView_payload raw))
        (drop 20 (IPv4PacketView_payload raw)) = Some 0"
    "40 \<le> length raw \<and> length raw \<le> 1500 \<and> unat (IPv4PacketView_total_length_ntoh raw) = length raw
    \<and> length (TcpPacketView_payload (IPv4PacketView_payload raw)) = length raw - 40"
proof -
  obtain src dst p where p: "raw = datagram src dst p" "plain_packet p" "length (tcp_payload p) \<le> 1460"
    using assms by (auto simp: wf_datagram_def mtu_packet_def)
  have "TcpHeader_data_offset (tcp_header p) = 5" using p(2) by (simp add: plain_packet_def)
  note v = datagram_view [OF p(2), of src dst] TcpPacket_encode_view(1,2) [OF this, of src dst]
  show "IPv4PacketView_valid raw \<and> OnesComplementChecksum (take 20 raw) = 0
    \<and> TcpPacketView_valid (IPv4PacketView_payload raw)
    \<and> ComputeTcpChecksum (IPv4PacketView_source_address_ntoh raw)
        (IPv4PacketView_destination_address_ntoh raw) (take 20 (IPv4PacketView_payload raw))
        (drop 20 (IPv4PacketView_payload raw)) = Some 0"
    using v TcpPacket_encode_checksum [of p src dst] p(1,2) by (simp add: plain_packet_def)
  show "40 \<le> length raw \<and> length raw \<le> 1500 \<and> unat (IPv4PacketView_total_length_ntoh raw) = length raw
    \<and> length (TcpPacketView_payload (IPv4PacketView_payload raw)) = length raw - 40"
    using v p(1,3) by simp
qed



text \<open>C13. Every datagram that is queued for loopback or was handed to the TUN device in a reachable
  state is a valid IPv4 datagram that carries a valid TCP segment, and both its header checksum and its
  TCP checksum verify.\<close>

theorem reachable_output_valid:
  assumes "reachable e s" and "raw \<in> set (loopback_packet_queue s) \<union> set (tun_output s)"
  shows "IPv4PacketView_valid raw \<and> OnesComplementChecksum (take 20 raw) = 0
    \<and> TcpPacketView_valid (IPv4PacketView_payload raw)
    \<and> ComputeTcpChecksum (IPv4PacketView_source_address_ntoh raw)
        (IPv4PacketView_destination_address_ntoh raw) (take 20 (IPv4PacketView_payload raw))
        (drop 20 (IPv4PacketView_payload raw)) = Some 0"
  using reachable_output_ok [OF assms(1)] assms(2)
  by (intro wf_datagram_views(1)) (auto simp: output_ok_def list_all_iff)

lemma reachable_output_example:
  "\<exists>s raw. reachable example_env s \<and> loopback_packet_queue s = [raw] \<and> length raw = 40"
proof -
  let ?a = "\<lparr>address = 0x0A000002, port = 80\<rparr>" and ?b = "\<lparr>address = 0x0A000002, port = 81\<rparr>"
  let ?p = "control_packet (TCB_new CLOSED ?a ?b) True False False False 7 0 65535"
  let ?s = "transmit example_env ?b ?a (raw_rst_packet ?b ?a 0 8 True) TcpStack_new"
  have "process_incoming_packet example_env (datagram ?a ?b ?p) TcpStack_new =
      returns (handle_closed_reset_response example_env ?a ?b (TcpPacket_encode ?p ?a ?b) TcpStack_new)"
    by (simp add: process_incoming_datagram process_segment_def find_connections_tcb_def
        ConnectionTable_find_def TcpStack_new_def ListenerTable_contains_def)
  then have "\<exists>n. process_incoming_packet example_env (datagram ?a ?b ?p) TcpStack_new = Returns n ?s"
    by (simp add: returns_def handle_closed_reset_response_def control_view send_raw_rst_eq)
  then have r: "reachable example_env ?s"
    using reachable.Start stack_step.Receive reachable.Step by blast
  have q: "loopback_packet_queue ?s = [datagram ?b ?a (raw_rst_packet ?b ?a 0 8 True)]"
    by (simp add: transmit_def is_local_def TcpStack_new_def)
  show ?thesis
    using r q by (intro exI [of _ ?s] exI [of _ "datagram ?b ?a (raw_rst_packet ?b ?a 0 8 True)"]) simp
qed

theorem reachable_output_valid_witness:
  "\<exists>s raw. reachable example_env s \<and> loopback_packet_queue s = [raw] \<and> IPv4PacketView_valid raw
     \<and> OnesComplementChecksum (take 20 raw) = 0"
proof -
  obtain s raw where s: "reachable example_env s" "loopback_packet_queue s = [raw]"
    using reachable_output_example by blast
  then show ?thesis
    using reachable_output_valid [OF s(1), of raw] by (intro exI [of _ s] exI [of _ raw]) simp
qed

text \<open>C14. No datagram that the stack produces is longer than 1500 bytes, however much data the application
  hands over, whatever window a peer announces and however often a segment is sent again; its length field is its
  length, and all but 40 bytes of it are payload.\<close>

theorem reachable_output_mtu:
  assumes "reachable e s" and "raw \<in> set (loopback_packet_queue s) \<union> set (tun_output s)"
  shows "40 \<le> length raw \<and> length raw \<le> 1500 \<and> unat (IPv4PacketView_total_length_ntoh raw) = length raw
    \<and> length (TcpPacketView_payload (IPv4PacketView_payload raw)) = length raw - 40"
  using reachable_output_ok [OF assms(1)] assms(2)
  by (intro wf_datagram_views(2)) (auto simp: output_ok_def list_all_iff)

theorem reachable_output_mtu_witness:
  "\<exists>s raw. reachable example_env s \<and> loopback_packet_queue s = [raw]
     \<and> unat (IPv4PacketView_total_length_ntoh raw) = 40
     \<and> TcpPacketView_payload (IPv4PacketView_payload raw) = []"
proof -
  obtain s raw where s: "reachable example_env s" "loopback_packet_queue s = [raw]" "length raw = 40"
    using reachable_output_example by blast
  then show ?thesis
    using reachable_output_mtu [OF s(1), of raw] by (intro exI [of _ s] exI [of _ raw]) simp
qed

end
