(* ===== verification/Tcp_Transitions.thy ===== *)
theory Tcp_Transitions
  imports Tcp_Invariants
begin

text \<open>
  The connection state machine. \<open>rfc793\<close> lists the transitions that RFC 793 allows on the arrival of
  a segment; \<open>collapse\<close> identifies \<^verbatim>\<open>TIME_WAIT\<close>, which the stack does not use, with \<^verbatim>\<open>CLOSED\<close>. The
  handlers refine this abstract machine: processing any segment moves at most the socket it is
  addressed to, along one transition of the RFC up to \<open>collapse\<close>.
\<close>

inductive rfc793 :: "TcpState \<Rightarrow> TcpState \<Rightarrow> bool" where
  "rfc793 LISTEN SYN_RECEIVED"
| "rfc793 SYN_SENT ESTABLISHED"
| "rfc793 SYN_SENT SYN_RECEIVED"
| "rfc793 SYN_SENT CLOSED"
| "rfc793 SYN_RECEIVED ESTABLISHED"
| "rfc793 SYN_RECEIVED CLOSED"
| "rfc793 ESTABLISHED CLOSE_WAIT"
| "rfc793 ESTABLISHED CLOSED"
| "rfc793 FIN_WAIT_1 FIN_WAIT_2"
| "rfc793 FIN_WAIT_1 CLOSING"
| "rfc793 FIN_WAIT_1 TIME_WAIT"
| "rfc793 FIN_WAIT_2 TIME_WAIT"
| "rfc793 CLOSING TIME_WAIT"
| "rfc793 LAST_ACK CLOSED"

inductive_simps rfc793_from [simp]:
  "rfc793 CLOSED r" "rfc793 LISTEN r" "rfc793 SYN_SENT r" "rfc793 SYN_RECEIVED r"
  "rfc793 ESTABLISHED r" "rfc793 FIN_WAIT_1 r" "rfc793 FIN_WAIT_2 r" "rfc793 CLOSE_WAIT r"
  "rfc793 CLOSING r" "rfc793 LAST_ACK r" "rfc793 TIME_WAIT r"

definition collapse :: "TcpState \<Rightarrow> TcpState" where
  "collapse r = (if r = TIME_WAIT then CLOSED else r)"

definition receive_move :: "TcpState \<Rightarrow> TcpState \<Rightarrow> bool" where
  "receive_move a b \<longleftrightarrow> (\<exists>r. rfc793 a r \<and> b = collapse r)"

lemma receive_move_from [simp]:
  "receive_move SYN_SENT b \<longleftrightarrow> b = ESTABLISHED \<or> b = SYN_RECEIVED \<or> b = CLOSED"
  "receive_move SYN_RECEIVED b \<longleftrightarrow> b = ESTABLISHED \<or> b = CLOSED"
  "receive_move ESTABLISHED b \<longleftrightarrow> b = CLOSE_WAIT \<or> b = CLOSED"
  "receive_move FIN_WAIT_1 b \<longleftrightarrow> b = FIN_WAIT_2 \<or> b = CLOSING \<or> b = CLOSED"
  "receive_move FIN_WAIT_2 b \<longleftrightarrow> b = CLOSED"
  "receive_move CLOSING b \<longleftrightarrow> b = CLOSED"
  "receive_move LAST_ACK b \<longleftrightarrow> b = CLOSED"
  by (auto simp: receive_move_def collapse_def)

text \<open>Every block is kept in its state or destroyed, except possibly block \<open>i\<close>, which may make
  one transition.\<close>

definition moves_only :: "socket_id \<Rightarrow> TcpStack \<Rightarrow> TcpStack \<Rightarrow> bool" where
  "moves_only i s s' \<longleftrightarrow> (\<forall>j t t'. get_tcb s j = Some t \<longrightarrow> get_tcb s' j = Some t' \<longrightarrow>
     current_state t' = current_state t
     \<or> j = i \<and> receive_move (current_state t) (current_state t'))"

lemma moves_only_refl [simp]: "moves_only i s s"
  by (simp add: moves_only_def)

lemma get_tcb_destroy_connection:
  "get_tcb (fst (destroy_connection a b s)) j \<in> {None, get_tcb s j}"
proof -
  obtain i c where "fst (destroy_connection a b s) =
      s\<lparr>socket_table := fst (SocketTable_destroy_socket i (socket_table s)), connection_table := c\<rparr>"
    using destroy_connection_eq by blast
  then show ?thesis by (simp add: get_tcb_destroy)
qed

lemma get_tcb_erase_destroy:
  "get_tcb (s\<lparr>connection_table := c,
     socket_table := fst (SocketTable_destroy_socket j (socket_table s))\<rparr>) i =
   (if i = j then None else get_tcb s i)"
  using get_tcb_destroy [of j "s\<lparr>connection_table := c\<rparr>" i] by simp

lemma moves_only_destroy_connection:
  assumes "moves_only i s s'"
  shows "moves_only i s (fst (destroy_connection a b s'))"
  using assms get_tcb_destroy_connection [of a b s'] unfolding moves_only_def
  by (metis insertE option.distinct(1) singletonD)

lemmas move_simps = moves_only_def TCB_set_state_def unfold_sends

lemma moves_handle_closed: "moves_only i s (fst (handle_closed_reset_response e src dst packet s))"
  by (simp add: handle_closed_reset_response_def move_simps)

lemma moves_handle_syn_sent:
  assumes "get_tcb s i = Some t" and "current_state t = SYN_SENT"
  shows "moves_only i s (fst (handle_syn_sent_state e i src packet s))"
  using assms by (simp add: handle_syn_sent_state_def move_simps)

lemma moves_handle_syn_received:
  assumes "get_tcb s i = Some t" and "current_state t = SYN_RECEIVED"
  shows "moves_only i s (fst (handle_syn_received_state e i src packet s))"
  using assms by (auto simp: handle_syn_received_state_def move_simps get_tcb_erase_destroy)

lemma moves_handle_fin_wait_1:
  assumes "get_tcb s i = Some t" and "current_state t = FIN_WAIT_1"
  shows "moves_only i s (fst (handle_fin_wait_1_state e i packet s))"
  using assms
  by (auto simp: handle_fin_wait_1_state_def unfold_sends intro!: moves_only_destroy_connection)
    (auto simp: move_simps)

lemma moves_handle_fin_wait_2:
  assumes "get_tcb s i = Some t" and "current_state t = FIN_WAIT_2"
  shows "moves_only i s (fst (handle_fin_wait_2_state e i packet s))"
  using assms
  by (auto simp: handle_fin_wait_2_state_def unfold_sends intro!: moves_only_destroy_connection)
    (auto simp: move_simps)

lemma moves_handle_closing:
  assumes "get_tcb s i = Some t" and "current_state t = CLOSING"
  shows "moves_only i s (fst (handle_closing_state i packet s))"
  using assms
  by (auto simp: handle_closing_state_def Let_def intro!: moves_only_destroy_connection)
    (auto simp: move_simps)

lemma moves_handle_last_ack:
  assumes "get_tcb s i = Some t" and "current_state t = LAST_ACK"
  shows "moves_only i s (fst (handle_last_ack_state i packet s))"
  using assms
  by (auto simp: handle_last_ack_state_def Let_def intro!: moves_only_destroy_connection)
    (auto simp: move_simps)

lemma ack_tcb_state [simp]: "current_state (ack_tcb packet t) = current_state t"
  by (simp add: ack_tcb_def Let_def)

lemma moves_handle_established:
  assumes "get_tcb s i = Some t" and "current_state t = ESTABLISHED"
  shows "list_all (moves_only i s) (outcome_states (handle_established_state e i packet s))"
  using assms
  by (auto simp: handle_established_state_def established_fin_def established_ack_def
      established_payload_def move_simps split: option.split)

lemma modify_tcb_next_id [simp]:
  "next_id (socket_table (modify_tcb i f s)) = next_id (socket_table s)"
  by (simp add: modify_tcb_def)

lemma get_tcb_created:
  assumes "get_tcb s (next_id (socket_table s)) = None"
  shows "get_tcb (s\<lparr>socket_table := snd (SocketTable_create_socket st a b (socket_table s))\<rparr>) =
    (if next_id (socket_table s) = 0 then get_tcb s
     else (get_tcb s)(next_id (socket_table s) \<mapsto> (TCB_new st a b)\<lparr>tcb_id := next_id (socket_table s)\<rparr>))"
  by (auto simp: get_tcb_def SocketTable_create_socket_def SocketTable_find_socket_def Let_def
      update_conv' fun_eq_iff)

text \<open>A SYN on a bound port: exactly one block appears, in \<^verbatim>\<open>SYN_RECEIVED\<close>, with its numbers taken
  from the segment and from the generator.\<close>

definition syn_child :: "socket_id \<Rightarrow> IPv4Address \<Rightarrow> IPv4Address \<Rightarrow> bytes \<Rightarrow> u32 \<Rightarrow> tcb" where
  "syn_child i src dst packet iss = (TCB_new SYN_RECEIVED dst src)\<lparr>tcb_id := i,
     RCV_IRS := TcpPacketView_seq_num_ntoh packet, RCV_NXT := TcpPacketView_seq_num_ntoh packet + 1,
     SND_WND := ucast (TcpPacketView_window_ntoh packet),
     SND_ISS := iss, SND_UNA := iss, SND_NXT := iss + 1\<rparr>"

lemma passive_open_eq:
  fixes s :: TcpStack and e src dst packet
  defines "i \<equiv> next_id (socket_table s)" and "s' \<equiv> fst (handle_passive_open_syn e src dst packet s)"
    and "child \<equiv> syn_child (next_id (socket_table s)) src dst packet (env_random e (draws s))"
  assumes "get_tcb s i = None" and "i \<noteq> 0" and "find_listener s (port dst) \<noteq> 0"
    and "TcpPacketView_syn packet" and "\<not> TcpPacketView_ack packet"
  shows "get_tcb s' = (get_tcb s)(i \<mapsto> child)"
    and "connection_table s' = ConnectionTable_insert src dst i (connection_table s)"
    and "listener_table s' = listener_table s" and "dirty_socket_ids s' = dirty_socket_ids s"
    and "draws s' = draws s + 1" and "next_id (socket_table s') = i + 1"
    and "emits e dst src (control_packet child True True False False (SND_ISS child) (RCV_NXT child) 65535)
      s s'"
proof -
  let ?s = "s\<lparr>socket_table := snd (SocketTable_create_socket SYN_RECEIVED dst src (socket_table s))\<rparr>"
  have i: "fst (SocketTable_create_socket SYN_RECEIVED dst src (socket_table s)) = i"
    "next_id (snd (SocketTable_create_socket SYN_RECEIVED dst src (socket_table s))) = i + 1"
    by (simp_all add: SocketTable_create_socket_def i_def Let_def)
  have g: "get_tcb ?s = (get_tcb s)(i \<mapsto> (TCB_new SYN_RECEIVED dst src)\<lparr>tcb_id := i\<rparr>)"
    using get_tcb_created [of s SYN_RECEIVED dst src] assms(4,5) by (simp add: i_def)
  note s' = s'_def handle_passive_open_syn_def generate_random_uint32_def case_prod_unfold Let_def i g
    send_control_packet_eq modify_tcb_next_id child_def syn_child_def i_def [symmetric]
  show "get_tcb s' = (get_tcb s)(i \<mapsto> child)"
    "connection_table s' = ConnectionTable_insert src dst i (connection_table s)"
    "listener_table s' = listener_table s" "dirty_socket_ids s' = dirty_socket_ids s"
    "draws s' = draws s + 1" "next_id (socket_table s') = i + 1"
    "emits e dst src (control_packet child True True False False (SND_ISS child) (RCV_NXT child) 65535)
      s s'"
    using assms(5-8) by (simp_all add: s' emits_def)
qed

text \<open>The endpoints of a datagram, as \<^verbatim>\<open>process_incoming_packet_\<close> reads them.\<close>

definition incoming_src :: "bytes \<Rightarrow> IPv4Address" where
  "incoming_src raw = \<lparr>address = IPv4PacketView_source_address_ntoh raw,
     port = TcpPacketView_source_port_ntoh (IPv4PacketView_payload raw)\<rparr>"

definition incoming_dst :: "bytes \<Rightarrow> IPv4Address" where
  "incoming_dst raw = \<lparr>address = IPv4PacketView_destination_address_ntoh raw,
     port = TcpPacketView_dest_port_ntoh (IPv4PacketView_payload raw)\<rparr>"

text \<open>The effect of a segment on the blocks: a move of block \<open>i\<close>, and a new block only for a SYN.\<close>

definition receives :: "socket_id \<Rightarrow> IPv4Address \<Rightarrow> IPv4Address \<Rightarrow> TcpStack \<Rightarrow> TcpStack \<Rightarrow> bool" where
  "receives i src dst s s' \<longleftrightarrow> moves_only i s s' \<and>
     (\<forall>j t'. get_tcb s j = None \<longrightarrow> get_tcb s' j = Some t' \<longrightarrow> j = next_id (socket_table s)
        \<and> current_state t' = SYN_RECEIVED \<and> src_address t' = dst \<and> dst_address t' = src)"

definition no_new :: "TcpStack \<Rightarrow> TcpStack \<Rightarrow> bool" where
  "no_new s s' \<longleftrightarrow> (\<forall>j. get_tcb s j = None \<longrightarrow> get_tcb s' j = None)"

lemma receivesI: "moves_only i s s' \<Longrightarrow> no_new s s' \<Longrightarrow> receives i src dst s s'"
  by (auto simp: receives_def no_new_def)

lemma no_new_refl [simp]: "no_new s s"
  by (simp add: no_new_def)

lemma no_new_destroy_connection: "no_new s s' \<Longrightarrow> no_new s (fst (destroy_connection a b s'))"
  using get_tcb_destroy_connection [of a b s'] unfolding no_new_def
  by (metis empty_iff insert_iff)

lemma no_new_handlers:
  "no_new s (fst (handle_closed_reset_response e src dst packet s))"
  "no_new s (fst (handle_syn_sent_state e i src packet s))"
  "no_new s (fst (handle_syn_received_state e i src packet s))"
  "no_new s (fst (handle_fin_wait_1_state e i packet s))"
  "no_new s (fst (handle_fin_wait_2_state e i packet s))"
  "no_new s (fst (handle_closing_state i packet s))"
  "no_new s (fst (handle_last_ack_state i packet s))"
proof -
  show "no_new s (fst (handle_fin_wait_1_state e i packet s))"
    "no_new s (fst (handle_fin_wait_2_state e i packet s))"
    "no_new s (fst (handle_closing_state i packet s))"
    "no_new s (fst (handle_last_ack_state i packet s))"
    by (auto simp: handle_fin_wait_1_state_def handle_fin_wait_2_state_def handle_closing_state_def
        handle_last_ack_state_def unfold_sends split: option.split intro!: no_new_destroy_connection)
      (auto simp: no_new_def)
qed (auto simp: no_new_def handle_closed_reset_response_def handle_syn_sent_state_def
    handle_syn_received_state_def unfold_sends get_tcb_erase_destroy split: option.split)

lemma no_new_established:
  "list_all (no_new s) (outcome_states (handle_established_state e i packet s))"
  by (auto simp: no_new_def handle_established_state_def established_fin_def established_ack_def
      established_payload_def unfold_sends split: option.split)

lemma receives_passive_open:
  assumes "get_tcb s (next_id (socket_table s)) = None"
  shows "receives i src dst s (fst (handle_passive_open_syn e src dst packet s))"
proof (cases "find_listener s (port dst) \<noteq> 0 \<and> TcpPacketView_syn packet \<and> \<not> TcpPacketView_ack packet")
  case True
  show ?thesis
  proof (cases "next_id (socket_table s) = 0")
    case z: True
    have "get_tcb (fst (handle_passive_open_syn e src dst packet s)) = get_tcb s"
      using True z get_tcb_created [OF assms, of SYN_RECEIVED dst src]
      by (simp add: handle_passive_open_syn_def case_prod_unfold Let_def SocketTable_create_socket_def)
    then show ?thesis by (simp add: receives_def moves_only_def)
  next
    case False
    then show ?thesis
      using True passive_open_eq(1) [OF assms False] assms
      by (auto simp: receives_def moves_only_def syn_child_def)
  qed
qed (auto simp: receives_def handle_passive_open_syn_def)

lemma receives_dispatch:
  assumes "get_tcb s (next_id (socket_table s)) = None" and "get_tcb s i = Some t"
  shows "list_all (receives i src dst s) (outcome_states (dispatch_state e i t src dst packet s))"
proof (cases "current_state t")
  case ESTABLISHED
  then show ?thesis
    using moves_handle_established [OF assms(2)] no_new_established
    by (auto simp: dispatch_state_def list_all_iff intro: receivesI)
qed (use assms in \<open>auto simp: dispatch_state_def returns_def receives_passive_open no_new_handlers
      moves_handle_closed moves_handle_syn_sent moves_handle_syn_received moves_handle_fin_wait_1
      moves_handle_fin_wait_2 moves_handle_closing moves_handle_last_ack
      intro!: receivesI\<close>)

lemma receives_process_incoming:
  assumes "get_tcb s (next_id (socket_table s)) = None"
  shows "list_all (receives (find_connections_tcb s (incoming_src raw) (incoming_dst raw))
      (incoming_src raw) (incoming_dst raw) s) (outcome_states (process_incoming_packet e raw s))"
proof -
  have "list_all (receives (find_connections_tcb s src dst) src dst s)
      (outcome_states (process_segment e src dst packet s))" for src dst packet
    using assms receives_dispatch [OF assms]
    by (auto simp: process_segment_def Let_def returns_def receives_passive_open no_new_handlers
        moves_handle_closed split: option.split intro!: receivesI)
  then show ?thesis
    by (auto simp: process_incoming_packet_def Let_def incoming_src_def incoming_dst_def
        intro!: receivesI)
qed

text \<open>C5. The stack refines the state machine of RFC 793 with \<^verbatim>\<open>TIME_WAIT\<close> identified with \<^verbatim>\<open>CLOSED\<close>:
  whatever bytes arrive, a block that exists before and after keeps its state, or it is the
  block that the connection table assigns to the datagram's endpoints and it makes one
  transition of the RFC; a block that appears has the id that was next, is in \<^verbatim>\<open>SYN_RECEIVED\<close>
  and has the datagram's endpoints. The id counter must not have come around to a used id.\<close>

theorem process_incoming_refines_rfc793:
  assumes "get_tcb s (next_id (socket_table s)) = None"
    and "s' \<in> set (outcome_states (process_incoming_packet e raw s))" and "get_tcb s' i = Some t'"
  shows "case get_tcb s i of
      Some t \<Rightarrow> current_state t' = current_state t
        \<or> i = find_connections_tcb s (incoming_src raw) (incoming_dst raw)
          \<and> (\<exists>r. rfc793 (current_state t) r \<and> current_state t' = collapse r)
    | None \<Rightarrow> i = next_id (socket_table s) \<and> current_state t' = SYN_RECEIVED
        \<and> src_address t' = incoming_dst raw \<and> dst_address t' = incoming_src raw"
  using receives_process_incoming [OF assms(1), of raw e] assms(2,3)
  by (auto simp: list_all_iff receives_def moves_only_def receive_move_def split: option.split)

text \<open>A server on port 80 of the example environment, and a first SYN for it.\<close>

definition example_server :: TcpStack where
  "example_server = TcpSocket_listen \<lparr>sock_id = 1\<rparr>
     (snd (TcpSocket_bind example_env \<lparr>address = 0, port = 80\<rparr> TcpSocket_new TcpStack_new))"

definition example_syn :: bytes where
  "example_syn = datagram \<lparr>address = 0x0A000003, port = 5000\<rparr> \<lparr>address = 0x0A000002, port = 80\<rparr>
     (control_packet (TCB_new SYN_SENT \<lparr>address = 0x0A000003, port = 5000\<rparr>
        \<lparr>address = 0x0A000002, port = 80\<rparr>) True False False False 77 0 65535)"

lemma example_server_simps [simp]:
  "get_tcb example_server 2 = None" "next_id (socket_table example_server) = 2"
  "find_listener example_server 80 = 1" "connection_table example_server = []"
  "get_tcb example_server 1 = Some ((TCB_new LISTEN \<lparr>address = 0x0A000002, port = 80\<rparr>
     IPv4Address_default)\<lparr>tcb_id := 1, SND_ISS := 1000, SND_NXT := 1000\<rparr>)"
  "loopback_packet_queue example_server = []" "tun_output example_server = []"
  "draws example_server = 1" "dirty_socket_ids example_server = []"
  by (simp_all add: example_server_def TcpSocket_listen_def TcpSocket_bind_def bind_socket_def
      ListenerTable_bind_new_def SocketTable_create_socket_def TcpStack_new_def SocketTable_new_def
      Let_def get_tcb_def SocketTable_find_socket_def generate_random_uint32_def modify_tcb_def
      SocketTable_modify_def ListenerTable_find_def SocketTable_contains_def TCB_new_def
      TcpSocket_new_def)

lemma example_syn_simps [simp]:
  "incoming_src example_syn = \<lparr>address = 0x0A000003, port = 5000\<rparr>"
  "incoming_dst example_syn = \<lparr>address = 0x0A000002, port = 80\<rparr>"
  by (simp_all add: incoming_src_def incoming_dst_def example_syn_def datagram_view control_view)

lemma example_syn_processed:
  fixes c
  defines "c \<equiv> TcpPacket_encode (control_packet (TCB_new SYN_SENT \<lparr>address = 0x0A000003, port = 5000\<rparr>
      \<lparr>address = 0x0A000002, port = 80\<rparr>) True False False False 77 0 65535)
      \<lparr>address = 0x0A000003, port = 5000\<rparr> \<lparr>address = 0x0A000002, port = 80\<rparr>"
  shows "\<exists>n. process_incoming_packet example_env example_syn example_server = Returns n
    (fst (handle_passive_open_syn example_env \<lparr>address = 0x0A000003, port = 5000\<rparr>
      \<lparr>address = 0x0A000002, port = 80\<rparr> c example_server))"
  by (simp add: example_syn_def process_incoming_datagram process_segment_def c_def returns_def
      find_connections_tcb_def ConnectionTable_find_def ListenerTable_contains_eq control_view)

theorem process_incoming_refines_rfc793_witness:
  "\<exists>s' t'. s' \<in> set (outcome_states (process_incoming_packet example_env example_syn example_server))
     \<and> get_tcb s' 2 = Some t' \<and> current_state t' = SYN_RECEIVED
     \<and> dst_address t' = \<lparr>address = 0x0A000003, port = 5000\<rparr>"
proof -
  obtain n c where p: "process_incoming_packet example_env example_syn example_server = Returns n
      (fst (handle_passive_open_syn example_env \<lparr>address = 0x0A000003, port = 5000\<rparr>
        \<lparr>address = 0x0A000002, port = 80\<rparr> c example_server))" (is "_ = Returns n ?s'")
      and c: "TcpPacketView_syn c" "\<not> TcpPacketView_ack c"
    using example_syn_processed control_view(8,10) by (metis control_packet_fields(7,8))
  have g: "get_tcb ?s' 2 = Some (syn_child 2 \<lparr>address = 0x0A000003, port = 5000\<rparr>
      \<lparr>address = 0x0A000002, port = 80\<rparr> c 1001)"
    using passive_open_eq(1) [of example_server "\<lparr>address = 0x0A000002, port = 80\<rparr>" c] c by simp
  show ?thesis
    using process_incoming_refines_rfc793 [of example_server ?s' example_env example_syn 2, OF _ _ g] p g
    by auto
qed

end
