(* ===== verification/Tcp_Sender.thy ===== *)
theory Tcp_Sender
  imports Tcp_Transitions
begin

text \<open>
  The sending half of a connection: the sliding window of \<^verbatim>\<open>process_block_\<close>, retransmission, and the
  processing of acknowledgements. The send buffer holds the bytes from \<^verbatim>\<open>SND.UNA\<close> on; its first
  \<open>in_flight\<close> bytes have been sent. \<open>sender_ok\<close> says that no more bytes are in flight than the buffer
  holds, which makes the offsets into the buffer meaningful.
\<close>

definition sender_ok :: "tcb \<Rightarrow> bool" where
  "sender_ok t \<longleftrightarrow> TCB_inv t \<and> unat (in_flight t) \<le> length (send_stream t)"

text \<open>The byte of the stream that has sequence number \<open>q\<close>.\<close>

definition stream_at :: "tcb \<Rightarrow> u32 \<Rightarrow> u8" where
  "stream_at t q = send_stream t ! unat (q - SND_UNA t)"

lemma stream_bound: "TCB_inv t \<Longrightarrow> length (send_stream t) \<le> 65535"
  using rb.bounded [of MAX_IPV4_PACKET_SIZE "send_buffer t"]
  by (simp add: TCB_inv_def MAX_IPV4_PACKET_SIZE_def)

lemma buffer_size [simp]: "BlockingBuffer_size (send_buffer t) = length (send_stream t)"
  by (simp add: BlockingBuffer_size_def)

lemma unat_add_small:
  fixes a :: u32
  assumes "unat a + n < 2 ^ 32"
  shows "unat (a + of_nat n) = unat a + n"
  using assms by (simp add: unat_word_ariths unat_of_nat)

subsection \<open>Sending\<close>

lemma unat_usable_window: "unat (usable_window t) = unat (SND_WND t) - unat (in_flight t)"
  by (simp add: usable_window_def word_less_nat_alt unat_sub word_le_nat_alt)

lemma next_chunk_eq:
  assumes "TCB_inv t"
  shows "next_chunk t = take (min (unat (SND_WND t) - unat (in_flight t)) 1460)
    (drop (unat (in_flight t)) (send_stream t))"
  using assms by (simp add: next_chunk_def rb.peek_seq TCB_inv_def unat_usable_window)

lemma next_chunk_length:
  assumes "TCB_inv t"
  shows "length (next_chunk t) = min (min (unat (SND_WND t) - unat (in_flight t)) 1460)
    (length (send_stream t) - unat (in_flight t))"
  using assms by (simp add: next_chunk_eq)

lemma next_chunk_fits:
  assumes "TCB_inv t"
  shows "unat (in_flight t) \<le> length (send_stream t) \<Longrightarrow>
      unat (in_flight t) + length (next_chunk t) \<le> length (send_stream t)"
    and "unat (in_flight t) \<le> unat (SND_WND t) \<Longrightarrow>
      unat (in_flight t) + length (next_chunk t) \<le> unat (SND_WND t)"
  by (auto simp: next_chunk_length [OF assms] min_def)

lemma in_flight_after_send:
  assumes "sender_ok t"
  shows "unat (in_flight (after_send t)) = unat (in_flight t) + length (next_chunk t)"
proof -
  have "in_flight (after_send t) = in_flight t + of_nat (length (next_chunk t))"
    by (simp add: in_flight_def after_send_def)
  moreover have "unat (in_flight t) + length (next_chunk t) < 2 ^ 32"
    using assms stream_bound [of t] next_chunk_bounded(1) [of t] by (simp add: sender_ok_def)
  ultimately show ?thesis by (simp add: unat_add_small)
qed

lemma after_send_simps [simp]:
  "send_buffer (after_send t) = send_buffer t" "recv_buffer (after_send t) = recv_buffer t"
  "SND_WND (after_send t) = SND_WND t" "SND_UNA (after_send t) = SND_UNA t"
  "current_state (after_send t) = current_state t"
  by (simp_all add: after_send_def)

lemma sender_ok_after_send:
  assumes "sender_ok t"
  shows "sender_ok (after_send t)"
  using assms in_flight_after_send [OF assms] next_chunk_fits(1) [of t]
  by (auto simp: sender_ok_def TCB_inv_def)

text \<open>What \<^verbatim>\<open>process_block_\<close> does to the block: only the time stamp and \<^verbatim>\<open>SND.NXT\<close> change.\<close>

definition sent :: "int \<Rightarrow> tcb \<Rightarrow> tcb" where
  "sent now t = t\<lparr>last_written := now,
     SND_NXT := SND_NXT t + of_nat (length (if sendable t then next_chunk t else []))\<rparr>"

lemma get_tcb_process_block:
  assumes "get_tcb s i = Some t" and "current_state t \<noteq> SYN_SENT"
  shows "get_tcb (process_block e i s) = (get_tcb s)(i \<mapsto> sent (env_now e (clock_reads s)) t)"
  using assms(2) by (auto simp: process_block_eq [OF assms(1)] Let_def sent_def assms(1))

lemma process_block_output:
  assumes "get_tcb s i = Some t" and "current_state t \<noteq> SYN_SENT"
  shows "if sendable t \<and> next_chunk t \<noteq> []
    then emits e (src_address t) (dst_address t)
      (create_writer_tcp_packet t (next_chunk t) (SND_NXT t)) s (process_block e i s)
    else loopback_packet_queue (process_block e i s) = loopback_packet_queue s
      \<and> tun_output (process_block e i s) = tun_output s"
  using assms(2) by (simp add: process_block_eq [OF assms(1)] Let_def emits_def add_dirty_tcb_def)

lemma chunk_bytes:
  assumes "sender_ok t" and "k < length (next_chunk t)"
  shows "next_chunk t ! k = stream_at t (SND_NXT t + of_nat k)"
proof -
  have inv: "TCB_inv t" using assms(1) by (simp add: sender_ok_def)
  have "unat (SND_NXT t + of_nat k - SND_UNA t) = unat (in_flight t + of_nat k)"
    by (simp add: in_flight_def add_diff_eq diff_add_eq)
  moreover have "unat (in_flight t) + k < 2 ^ 32"
    using assms stream_bound [OF inv] next_chunk_bounded(1) [of t] by (simp add: sender_ok_def)
  ultimately show ?thesis
    using assms inv by (simp add: sender_ok_def stream_at_def next_chunk_eq unat_add_small)
qed

text \<open>C8. The sender's sliding window. For a connected block with at most as many bytes in flight as
  its buffer holds, one call of \<^verbatim>\<open>process_block_\<close> sends at most one data segment: it starts at
  \<^verbatim>\<open>SND.NXT\<close>, carries at most 1460 bytes, and its bytes are exactly those of the stream at its
  sequence numbers; it sends whenever the peer's window and the buffer allow it and sends nothing
  otherwise; afterwards \<^verbatim>\<open>SND.NXT\<close> has advanced by the payload, what is in flight still fits the
  peer's window if it did before, no byte has left the buffer, and the condition on the bytes in
  flight still holds.\<close>

theorem process_block_sliding_window:
  assumes "get_tcb s i = Some t" and "sendable t" and "sender_ok t"
  shows "\<exists>t' data. get_tcb (process_block e i s) i = Some t'
    \<and> length data = min (min (unat (SND_WND t) - unat (in_flight t)) 1460)
        (length (send_stream t) - unat (in_flight t))
    \<and> (data = [] \<longrightarrow> loopback_packet_queue (process_block e i s) = loopback_packet_queue s
        \<and> tun_output (process_block e i s) = tun_output s)
    \<and> (data \<noteq> [] \<longrightarrow> emits e (src_address t) (dst_address t)
        (create_writer_tcp_packet t data (SND_NXT t)) s (process_block e i s))
    \<and> (\<forall>k < length data. data ! k = stream_at t (SND_NXT t + of_nat k))
    \<and> SND_NXT t' = SND_NXT t + of_nat (length data)
    \<and> unat (in_flight t') = unat (in_flight t) + length data
    \<and> (in_flight t \<le> SND_WND t \<longrightarrow> in_flight t' \<le> SND_WND t')
    \<and> send_stream t' = send_stream t \<and> sender_ok t'"
proof -
  let ?t' = "sent (env_now e (clock_reads s)) t"
  have inv: "TCB_inv t" using assms(3) by (simp add: sender_ok_def)
  have ns: "current_state t \<noteq> SYN_SENT" using assms(2) by (auto simp: sendable_def)
  have fl: "in_flight ?t' = in_flight (after_send t)"
    using assms(2) by (simp add: sent_def after_send_def in_flight_def)
  have "sender_ok ?t'"
    using sender_ok_after_send [OF assms(3)] fl
    by (simp add: sender_ok_def sent_def TCB_inv_def)
  then show ?thesis
    using get_tcb_process_block [OF assms(1) ns, of e] process_block_output [OF assms(1) ns, of e]
      in_flight_after_send [OF assms(3)] next_chunk_length [OF inv] chunk_bytes [OF assms(3)]
      next_chunk_fits(2) [OF inv] assms(2) fl
    by (intro exI [of _ ?t'] exI [of _ "next_chunk t"])
      (auto simp: sent_def word_le_nat_alt)
qed

subsection \<open>Acknowledgements\<close>

lemma ack_tcb_new:
  assumes "seq_after (TcpPacketView_ack_num_ntoh packet) (SND_UNA t)"
  shows "ack_tcb packet t = t\<lparr>
    send_buffer := fst (BlockingBuffer_discard MAX_IPV4_PACKET_SIZE (send_buffer t)
      (unat (TcpPacketView_ack_num_ntoh packet - SND_UNA t))),
    SND_UNA := TcpPacketView_ack_num_ntoh packet,
    SND_WND := ucast (TcpPacketView_window_ntoh packet), has_recived_ack := True\<rparr>"
  using assms by (simp add: ack_tcb_def Let_def)

lemma ack_tcb_old:
  assumes "\<not> seq_after (TcpPacketView_ack_num_ntoh packet) (SND_UNA t)"
  shows "ack_tcb packet t = t\<lparr>SND_WND := ucast (TcpPacketView_window_ntoh packet),
    has_recived_ack := True\<rparr>"
  using assms by (simp add: ack_tcb_def Let_def)

lemma discard_stream:
  assumes "BlockingBuffer_inv Size b"
  shows "contents Size (fst (BlockingBuffer_discard Size b n)) = drop n (contents Size b)"
    and "BlockingBuffer_inv Size (fst (BlockingBuffer_discard Size b n))"
  using rb.disc_seq [OF assms, of n] by (cases "BlockingBuffer_discard Size b n"; simp)+

text \<open>A number in the sender's window is ahead of \<^verbatim>\<open>SND.UNA\<close> exactly when it acknowledges something.\<close>

lemma seq_after_window:
  assumes "unat (a - b) < 2 ^ 31"
  shows "seq_after a b \<longleftrightarrow> a \<noteq> b"
proof -
  have "int (unat (a - b)) < int (2 ^ 31)" using assms by (simp only: of_nat_less_iff)
  then have "uint (a - b) < 2 ^ 31" by (simp only: uint_nat of_nat_power of_nat_numeral)
  then have "sint (a - b) = uint (a - b)"
    unfolding sint_uint by (intro signed_take_bit_int_eq_self order_trans [OF _ uint_ge_0]) simp_all
  moreover have "0 < uint (a - b) \<longleftrightarrow> a - b \<noteq> 0"
    using uint_ge_0 [of "a - b"] by (metis less_le uint_0_eq uint_0_iff)
  ultimately show ?thesis by (simp add: seq_after_def)
qed

lemma ack_in_window:
  fixes t packet
  defines "n \<equiv> unat (TcpPacketView_ack_num_ntoh packet - SND_UNA t)"
  assumes "sender_ok t" and "n \<le> unat (in_flight t)"
  shows "SND_UNA (ack_tcb packet t) = TcpPacketView_ack_num_ntoh packet"
    and "send_stream (ack_tcb packet t) = drop n (send_stream t)"
    and "unat (in_flight (ack_tcb packet t)) = unat (in_flight t) - n"
    and "sender_ok (ack_tcb packet t)"
    and "SND_WND (ack_tcb packet t) = ucast (TcpPacketView_window_ntoh packet)"
    and "SND_NXT (ack_tcb packet t) = SND_NXT t"
proof -
  let ?a = "TcpPacketView_ack_num_ntoh packet"
  have inv: "TCB_inv t" "n \<le> 65535"
    using assms stream_bound [of t] by (simp_all add: sender_ok_def)
  then have bi: "BlockingBuffer_inv MAX_IPV4_PACKET_SIZE (send_buffer t)" by (simp add: TCB_inv_def)
  have new: "seq_after ?a (SND_UNA t) \<longleftrightarrow> ?a \<noteq> SND_UNA t"
    using inv(2) by (intro seq_after_window) (simp add: n_def)
  show una: "SND_UNA (ack_tcb packet t) = ?a"
    using new by (cases "seq_after ?a (SND_UNA t)") (simp_all add: ack_tcb_new ack_tcb_old)
  show str: "send_stream (ack_tcb packet t) = drop n (send_stream t)"
    using new bi by (cases "seq_after ?a (SND_UNA t)")
      (simp_all add: ack_tcb_new ack_tcb_old discard_stream n_def)
  show nxt: "SND_NXT (ack_tcb packet t) = SND_NXT t"
    and "SND_WND (ack_tcb packet t) = ucast (TcpPacketView_window_ntoh packet)"
    by (simp_all add: ack_tcb_def Let_def)
  have "in_flight (ack_tcb packet t) = in_flight t - (?a - SND_UNA t)"
    using una nxt by (simp add: in_flight_def)
  then show fl: "unat (in_flight (ack_tcb packet t)) = unat (in_flight t) - n"
    using assms(3) by (simp add: n_def unat_sub word_le_nat_alt)
  have "TCB_inv (ack_tcb packet t)" using evolves_ack_tcb [of t packet] inv(1) by (simp add: evolves_def)
  then show "sender_ok (ack_tcb packet t)"
    using assms(2,3) fl str diff_le_mono by (simp add: sender_ok_def flip: length_contents)
qed

text \<open>C9. Acknowledgement processing in \<^verbatim>\<open>ESTABLISHED\<close>. An acknowledgement number between \<^verbatim>\<open>SND.UNA\<close>
  and \<^verbatim>\<open>SND.NXT\<close> (modulo \<open>2\<^sup>3\<^sup>2\<close>, so across the wrap-around too) removes exactly the acknowledged
  bytes from the front of the stream; the bytes that were not acknowledged keep their sequence
  numbers, the peer's window is taken over, and the sender stays consistent. A number behind
  \<^verbatim>\<open>SND.UNA\<close> changes neither the stream nor \<^verbatim>\<open>SND.UNA\<close>.\<close>

theorem ack_processing:
  fixes t packet
  defines "a \<equiv> TcpPacketView_ack_num_ntoh packet" and "t' \<equiv> ack_tcb packet t"
  assumes "sender_ok t"
  shows "SND_WND t' = ucast (TcpPacketView_window_ntoh packet)
    \<and> (unat (a - SND_UNA t) \<le> unat (in_flight t) \<longrightarrow>
        sender_ok t' \<and> SND_UNA t' = a \<and> SND_NXT t' = SND_NXT t
        \<and> unat (in_flight t') = unat (in_flight t) - unat (a - SND_UNA t)
        \<and> send_stream t = take (unat (a - SND_UNA t)) (send_stream t) @ send_stream t'
        \<and> (\<forall>k < length (send_stream t'). stream_at t' (a + of_nat k) = stream_at t (a + of_nat k)))
    \<and> (sint (a - SND_UNA t) \<le> 0 \<longrightarrow> send_stream t' = send_stream t \<and> SND_UNA t' = SND_UNA t)"
proof -
  have w: "SND_WND t' = ucast (TcpPacketView_window_ntoh packet)"
    by (simp add: t'_def ack_tcb_def Let_def)
  have old: "sint (a - SND_UNA t) \<le> 0 \<longrightarrow> send_stream t' = send_stream t \<and> SND_UNA t' = SND_UNA t"
    by (simp add: t'_def ack_tcb_old seq_after_def a_def)
  have str: "stream_at t' (a + of_nat k) = stream_at t (a + of_nat k)"
    if n: "unat (a - SND_UNA t) \<le> unat (in_flight t)" and k: "k < length (send_stream t')" for k
  proof -
    note ack = ack_in_window [OF assms(3), of packet, folded a_def t'_def, OF n]
    have b: "length (send_stream t) \<le> 65535" "unat (a - SND_UNA t) \<le> length (send_stream t)"
      using assms(3) stream_bound [of t] n by (auto simp: sender_ok_def)
    have "unat (of_nat k :: u32) = k" "unat ((a - SND_UNA t) + of_nat k) = unat (a - SND_UNA t) + k"
      using b k ack(2) by (auto intro!: unat_of_nat_small unat_add_small simp flip: length_contents)
    moreover have "unat (a + of_nat k - SND_UNA t) = unat ((a - SND_UNA t) + of_nat k)"
      by (simp add: add_diff_eq diff_add_eq)
    ultimately show ?thesis
      using ack(1,2) b(2) by (simp add: stream_at_def)
  qed
  show ?thesis
    using w old str ack_in_window [OF assms(3), of packet, folded a_def t'_def]
    by (auto simp flip: append_take_drop_id)
qed

subsection \<open>Segmentation\<close>

text \<open>The datagrams on the path between two endpoints, and the payload of one.\<close>

definition wire :: "stack_env \<Rightarrow> tcb \<Rightarrow> TcpStack \<Rightarrow> bytes list" where
  "wire e t s =
     (if is_local e (src_address t) (dst_address t) then loopback_packet_queue s else tun_output s)"

definition payload_of :: "bytes \<Rightarrow> bytes" where
  "payload_of raw = TcpPacketView_payload (IPv4PacketView_payload raw)"

lemma wire_emits: "emits e (src_address t) (dst_address t) p s s' \<Longrightarrow>
    wire e t s' = wire e t s @ [datagram (src_address t) (dst_address t) p]"
  by (simp add: wire_def emits_def)

lemma payload_of_datagram: "plain_packet p \<Longrightarrow> payload_of (datagram src dst p) = tcp_payload p"
  by (simp add: payload_of_def datagram_view TcpPacket_encode_view plain_packet_def)

lemma chunk_step:
  fixes f0 L W k :: nat
  assumes "f = min (f0 + 1460 * k) (max f0 (min L W))"
  shows "f + min (min (W - f) 1460) (L - f) = min (f0 + 1460 * Suc k) (max f0 (min L W))"
proof -
  define M where "M = min L W"
  have "min (min (W - f) 1460) (L - f) = min 1460 (M - f)" by (auto simp: min_def M_def)
  moreover have "f + min 1460 (M - f) = min (f0 + 1460 * Suc k) (max f0 M)"
    using assms unfolding M_def [symmetric]
    by (cases "f0 \<le> M"; cases "f0 + 1460 * k \<le> M") (auto simp: min_def max_def)
  ultimately show ?thesis by (simp add: M_def)
qed

text \<open>The block and the wire after \<open>k\<close> rounds of \<^verbatim>\<open>process_block_\<close>.\<close>

definition rounds_ok :: "stack_env \<Rightarrow> nat \<Rightarrow> tcb \<Rightarrow> TcpStack \<Rightarrow> tcb \<Rightarrow> TcpStack \<Rightarrow> bool" where
  "rounds_ok e k t s t' s' \<longleftrightarrow> sendable t' \<and> sender_ok t' \<and> send_stream t' = send_stream t
     \<and> SND_UNA t' = SND_UNA t \<and> SND_WND t' = SND_WND t
     \<and> src_address t' = src_address t \<and> dst_address t' = dst_address t
     \<and> unat (in_flight t') = min (unat (in_flight t) + 1460 * k)
         (max (unat (in_flight t)) (min (length (send_stream t)) (unat (SND_WND t))))
     \<and> (\<exists>raws. wire e t s' = wire e t s @ raws \<and> list_all (\<lambda>raw. length (payload_of raw) \<le> 1460) raws
         \<and> concat (map payload_of raws) = take (unat (in_flight t') - unat (in_flight t))
             (drop (unat (in_flight t)) (send_stream t)))"

lemma take_add_drop:
  "a \<le> b \<Longrightarrow> take (b - a) (drop a xs) @ take n (drop b xs) = take (b + n - a) (drop a xs)"
  using take_add [of "b - a" n "drop a xs"] by simp

lemma rounds_step:
  assumes r: "rounds_ok e k t s t1 s1" and g: "get_tcb s1 i = Some t1"
  shows "rounds_ok e (Suc k) t s (sent (env_now e (clock_reads s1)) t1) (process_block e i s1)"
proof -
  let ?t2 = "sent (env_now e (clock_reads s1)) t1"
  have sa: "sendable t1" "sender_ok t1" using r by (simp_all add: rounds_ok_def)
  then have inv: "TCB_inv t1" and ns: "current_state t1 \<noteq> SYN_SENT"
    by (auto simp: sender_ok_def sendable_def)
  have fl: "unat (in_flight ?t2) = unat (in_flight t1) + length (next_chunk t1)"
    using in_flight_after_send [OF sa(2)] sa(1) by (simp add: sent_def after_send_def in_flight_def)
  obtain raws where raws: "wire e t s1 = wire e t s @ raws"
      "list_all (\<lambda>raw. length (payload_of raw) \<le> 1460) raws"
      "concat (map payload_of raws) = take (unat (in_flight t1) - unat (in_flight t))
         (drop (unat (in_flight t)) (send_stream t))"
    using r by (auto simp: rounds_ok_def)
  have wt: "wire e t x = wire e t1 x" for x using r by (simp add: rounds_ok_def wire_def)
  define new where "new = (if next_chunk t1 = [] then [] else
    [datagram (src_address t1) (dst_address t1) (create_writer_tcp_packet t1 (next_chunk t1) (SND_NXT t1))])"
  have pl: "concat (map payload_of new) = next_chunk t1"
      "list_all (\<lambda>raw. length (payload_of raw) \<le> 1460) new"
    using next_chunk_bounded(1) [of t1] by (simp_all add: new_def payload_of_datagram)
  have w: "wire e t (process_block e i s1) = wire e t s @ raws @ new"
    using process_block_output [OF g ns, of e] sa(1) raws(1)
    by (auto simp: wt new_def dest: wire_emits split: if_splits) (auto simp: wire_def)
  have ge: "unat (in_flight t) \<le> unat (in_flight t1)" using r by (simp add: rounds_ok_def)
  have "take (unat (in_flight t1) - unat (in_flight t)) (drop (unat (in_flight t)) (send_stream t))
      @ next_chunk t1 = take (unat (in_flight t1) + length (next_chunk t1) - unat (in_flight t))
        (drop (unat (in_flight t)) (send_stream t))"
  proof -
    have "next_chunk t1 = take (length (next_chunk t1)) (drop (unat (in_flight t1)) (send_stream t))"
      using r by (simp add: next_chunk_eq [OF inv] rounds_ok_def min_def)
    then show ?thesis by (metis take_add_drop [OF ge])
  qed
  then have out: "\<exists>raws. wire e t (process_block e i s1) = wire e t s @ raws
      \<and> list_all (\<lambda>raw. length (payload_of raw) \<le> 1460) raws
      \<and> concat (map payload_of raws) = take (unat (in_flight ?t2) - unat (in_flight t))
          (drop (unat (in_flight t)) (send_stream t))"
    using w raws(2,3) pl fl by (intro exI [of _ "raws @ new"]) simp
  have same: "send_stream t1 = send_stream t" "SND_WND t1 = SND_WND t"
    and rf: "unat (in_flight t1) = min (unat (in_flight t) + 1460 * k)
      (max (unat (in_flight t)) (min (length (send_stream t)) (unat (SND_WND t))))"
    using r by (simp_all only: rounds_ok_def)
  have num: "unat (in_flight ?t2) = min (unat (in_flight t) + 1460 * Suc k)
      (max (unat (in_flight t)) (min (length (send_stream t)) (unat (SND_WND t))))"
    by (simp only: fl next_chunk_length [OF inv] same chunk_step [OF rf])
  have "sender_ok ?t2"
    using sender_ok_after_send [OF sa(2)] sa(1)
    by (simp add: sender_ok_def sent_def TCB_inv_def after_send_def in_flight_def)
  then show ?thesis
    using r out num by (simp only: rounds_ok_def) (simp add: sent_def sendable_def)
qed

lemma rounds:
  assumes "get_tcb s i = Some t" and "sendable t" and "sender_ok t"
  shows "\<exists>t'. get_tcb ((process_block e i ^^ k) s) i = Some t'
    \<and> rounds_ok e k t s t' ((process_block e i ^^ k) s)"
proof (induction k)
  case 0
  then show ?case using assms by (auto simp: rounds_ok_def)
next
  case (Suc k)
  then obtain t1 where t1: "get_tcb ((process_block e i ^^ k) s) i = Some t1"
      "rounds_ok e k t s t1 ((process_block e i ^^ k) s)" by blast
  have "current_state t1 \<noteq> SYN_SENT" using t1(2) by (auto simp: rounds_ok_def sendable_def)
  with t1 show ?case using rounds_step [OF t1(2,1)] get_tcb_process_block [OF t1(1)] by simp
qed

text \<open>C10. Segmentation loses nothing: calling \<^verbatim>\<open>process_block_\<close> often enough, with no acknowledgement
  in between, puts on the wire segments of at most 1460 bytes whose payloads concatenate to
  exactly the unsent part of the stream that the peer's window admits, in order; a call per 1460
  bytes is enough.\<close>

theorem segmentation_lossless:
  fixes k :: nat
  assumes "get_tcb s i = Some t" and "sendable t" and "sender_ok t"
    and "min (length (send_stream t)) (unat (SND_WND t)) \<le> unat (in_flight t) + 1460 * k"
  shows "\<exists>t' raws. get_tcb ((process_block e i ^^ k) s) i = Some t'
    \<and> wire e t ((process_block e i ^^ k) s) = wire e t s @ raws
    \<and> list_all (\<lambda>raw. length (payload_of raw) \<le> 1460) raws
    \<and> concat (map payload_of raws) =
        take (min (length (send_stream t)) (unat (SND_WND t)) - unat (in_flight t))
          (drop (unat (in_flight t)) (send_stream t))
    \<and> unat (in_flight t') = max (unat (in_flight t)) (min (length (send_stream t)) (unat (SND_WND t)))
    \<and> send_stream t' = send_stream t \<and> sender_ok t'"
proof -
  obtain t' where t': "get_tcb ((process_block e i ^^ k) s) i = Some t'"
      "rounds_ok e k t s t' ((process_block e i ^^ k) s)"
    using rounds [OF assms(1-3)] by blast
  define M where "M = min (length (send_stream t)) (unat (SND_WND t))"
  have f: "unat (in_flight t') = max (unat (in_flight t)) M"
    using t'(2) assms(4) unfolding rounds_ok_def M_def [symmetric] by linarith
  then have "unat (in_flight t') - unat (in_flight t) = M - unat (in_flight t)" by simp
  with t' f show ?thesis unfolding rounds_ok_def M_def [symmetric] by (metis (no_types, lifting))
qed

subsection \<open>Retransmission\<close>

definition retransmitted :: "int \<Rightarrow> tcb \<Rightarrow> tcb" where
  "retransmitted now t = t\<lparr>last_written := now, retransmit_attempts := retransmit_attempts t + 1\<rparr>"

lemma retransmit_chunk_eq:
  "TCB_inv t \<Longrightarrow> retransmit_chunk t = take (min (unat (in_flight t)) 1460) (send_stream t)"
  by (simp add: retransmit_chunk_def rb.peek_seq TCB_inv_def)

lemma retransmit_due_chunk:
  assumes "sender_ok t" and "retransmit_due now t"
  shows "retransmit_chunk t \<noteq> []"
proof -
  have "0 < unat (in_flight t)" using assms(2) by (simp add: retransmit_due_def word_less_nat_alt)
  then have "0 < length (retransmit_chunk t)"
    using assms(1) by (simp add: sender_ok_def retransmit_chunk_eq)
  then show ?thesis by simp
qed

lemma get_tcb_retransmit_block:
  "get_tcb (retransmit_block e now i t s) =
     (if retransmit_due now t \<and> retransmit_chunk t \<noteq> []
      then (get_tcb s)(i := map_option (retransmitted now) (get_tcb s i)) else get_tcb s)"
  by (simp add: retransmit_block_eq retransmitted_def [abs_def])

abbreviation retransmit_pass :: "stack_env \<Rightarrow> int \<Rightarrow> (socket_id \<times> tcb) list \<Rightarrow> TcpStack \<Rightarrow> TcpStack" where
  "retransmit_pass e now xs s \<equiv> fold (\<lambda>(i, b). retransmit_block e now i b) xs s"

lemma retransmit_pass_other:
  "i \<notin> fst ` set xs \<Longrightarrow> get_tcb (retransmit_pass e now xs s) i = get_tcb s i"
proof (induction xs arbitrary: s)
  case (Cons x xs)
  then show ?case
    by (cases x) (simp add: get_tcb_retransmit_block)
qed simp

lemma retransmit_pass_get:
  assumes "distinct (map fst xs)" and "map_of xs i = Some t" and "get_tcb s i = Some u"
  shows "get_tcb (retransmit_pass e now xs s) i =
    Some (if retransmit_due now t \<and> retransmit_chunk t \<noteq> [] then retransmitted now u else u)"
  using assms
proof (induction xs arbitrary: s)
  case (Cons x xs)
  obtain j b where x: "x = (j, b)" by (cases x)
  show ?case
  proof (cases "j = i")
    case True
    with Cons.prems x show ?thesis
      by (simp add: retransmit_pass_other get_tcb_retransmit_block)
  next
    case False
    with Cons.prems x show ?thesis
      by (simp add: Cons.IH get_tcb_retransmit_block)
  qed
qed simp

lemma wire_retransmit_block:
  "\<exists>raws. wire e t (retransmit_block e now i u s) = wire e t s @ raws"
  by (simp add: retransmit_block_eq wire_def)

lemma wire_retransmit_pass:
  "\<exists>raws. wire e t (retransmit_pass e now xs s) = wire e t s @ raws"
proof (induction xs arbitrary: s)
  case (Cons x xs)
  obtain j b where x: "x = (j, b)" by (cases x)
  obtain r1 where "wire e t (retransmit_block e now j b s) = wire e t s @ r1"
    using wire_retransmit_block by blast
  moreover obtain r2 where "wire e t (retransmit_pass e now xs (retransmit_block e now j b s)) =
      wire e t (retransmit_block e now j b s) @ r2"
    using Cons by blast
  ultimately show ?case using x by simp
qed simp

text \<open>The segment that a block sends again.\<close>

definition resent :: "tcb \<Rightarrow> bytes" where
  "resent t = datagram (src_address t) (dst_address t) (create_writer_tcp_packet t (retransmit_chunk t) (SND_UNA t))"

abbreviation resends :: "int \<Rightarrow> tcb \<Rightarrow> bool" where
  "resends now t \<equiv> retransmit_due now t \<and> retransmit_chunk t \<noteq> []"

lemma retransmit_block_exact:
  assumes "i \<noteq> 0" and "sockets (socket_table s) = ys @ (i, t) # xs" and "i \<notin> fst ` set ys"
  shows "retransmit_block e now i t s =
    (if resends now t
     then s\<lparr>socket_table := (socket_table s)\<lparr>sockets := ys @ (i, retransmitted now t) # xs\<rparr>,
            loopback_packet_queue := loopback_packet_queue s
              @ (if is_local e (src_address t) (dst_address t) then [resent t] else []),
            tun_output := tun_output s @ (if is_local e (src_address t) (dst_address t) then [] else [resent t])\<rparr>
     else s)"
proof -
  have "map_of ys i = None" using assms(3) by (simp add: map_of_eq_None_iff)
  then have "map_of (sockets (socket_table s)) i = Some t" using assms(2) by (simp add: map_add_def)
  moreover have "AList.update i v (ys @ (i, t) # xs) = ys @ (i, v) # xs" for v
    using assms(3) by (induction ys) auto
  ultimately show ?thesis
    using assms(1,2)
    by (simp add: retransmit_block_eq modify_tcb_def SocketTable_modify_def SocketTable_find_socket_def transmit_def
        resent_def retransmitted_def)
qed

lemma retransmit_pass_exact:
  assumes "distinct (map fst (ys @ xs))" and "0 \<notin> fst ` set xs" and "sockets (socket_table s) = ys @ xs"
  shows "retransmit_pass e now xs s =
    s\<lparr>socket_table := (socket_table s)\<lparr>sockets := ys @ map (\<lambda>(i, t). (i, if resends now t then retransmitted now t else t)) xs\<rparr>,
      loopback_packet_queue := loopback_packet_queue s
        @ map resent (filter (\<lambda>t. resends now t \<and> is_local e (src_address t) (dst_address t)) (map snd xs)),
      tun_output := tun_output s
        @ map resent (filter (\<lambda>t. resends now t \<and> \<not> is_local e (src_address t) (dst_address t)) (map snd xs))\<rparr>"
  using assms
proof (induction xs arbitrary: s ys)
  case (Cons x xs)
  obtain i t where x: "x = (i, t)" by (cases x)
  let ?y = "(i, if resends now t then retransmitted now t else t)" and ?s = "retransmit_block e now i t s"
  have s: "?s = (if resends now t
     then s\<lparr>socket_table := (socket_table s)\<lparr>sockets := ys @ (i, retransmitted now t) # xs\<rparr>,
            loopback_packet_queue := loopback_packet_queue s
              @ (if is_local e (src_address t) (dst_address t) then [resent t] else []),
            tun_output := tun_output s @ (if is_local e (src_address t) (dst_address t) then [] else [resent t])\<rparr>
     else s)"
    using Cons.prems x by (intro retransmit_block_exact) auto
  have "sockets (socket_table ?s) = (ys @ [?y]) @ xs" using Cons.prems(3) x by (auto simp: s)
  moreover have "distinct (map fst ((ys @ [?y]) @ xs))" "0 \<notin> fst ` set xs" using Cons.prems x by simp_all
  ultimately have "retransmit_pass e now xs ?s = ?s\<lparr>socket_table := (socket_table ?s)\<lparr>sockets := (ys @ [?y])
        @ map (\<lambda>(i, t). (i, if resends now t then retransmitted now t else t)) xs\<rparr>,
      loopback_packet_queue := loopback_packet_queue ?s
        @ map resent (filter (\<lambda>t. resends now t \<and> is_local e (src_address t) (dst_address t)) (map snd xs)),
      tun_output := tun_output ?s
        @ map resent (filter (\<lambda>t. resends now t \<and> \<not> is_local e (src_address t) (dst_address t)) (map snd xs))\<rparr>"
    using Cons.IH [of "ys @ [?y]" ?s] by blast
  then show ?case using x by (cases "resends now t") (auto simp: s)
qed simp

text \<open>C11. What the retransmission pass does, completely, on a well-formed table: every block that is \<^verbatim>\<open>ESTABLISHED\<close>, has
  unacknowledged bytes, whose timeout has passed and which has bytes to send gets a new time stamp and one more attempt, and
  every other block stays as it is; for each of these blocks, in the order of the iteration, one datagram is appended to the
  loopback queue or to the output of the device, with the oldest unacknowledged bytes, at most 1460 of them, and the sequence number
  \<^verbatim>\<open>SND.UNA\<close>; the clock is read once; nothing else of the stack changes. A due block whose bytes in flight are in its buffer
  has bytes to send.\<close>

theorem retransmission_pass:
  fixes e s
  defines "now \<equiv> env_now e (clock_reads s)" and "xs \<equiv> sockets (socket_table s)"
    and "data \<equiv> \<lambda>t. take (min (unat (in_flight t)) 1460) (send_stream t)"
    and "due \<equiv> \<lambda>t. current_state t = ESTABLISHED \<and> in_flight t > 0
      \<and> env_now e (clock_reads s) - last_written t \<ge> RTO t * 1000000"
  defines "again \<equiv> filter (\<lambda>t. due t \<and> data t \<noteq> []) (map snd xs)"
    and "segment \<equiv> \<lambda>t. datagram (src_address t) (dst_address t) (create_writer_tcp_packet t (data t) (SND_UNA t))"
  assumes "SocketTable_inv (socket_table s)"
  shows "check_retransmissions e s = s\<lparr>clock_reads := clock_reads s + 1,
      socket_table := (socket_table s)\<lparr>sockets :=
        map (\<lambda>(i, t). (i, if due t \<and> data t \<noteq> []
          then t\<lparr>last_written := now, retransmit_attempts := retransmit_attempts t + 1\<rparr> else t)) xs\<rparr>,
      loopback_packet_queue := loopback_packet_queue s
        @ map segment (filter (\<lambda>t. is_local e (src_address t) (dst_address t)) again),
      tun_output := tun_output s
        @ map segment (filter (\<lambda>t. \<not> is_local e (src_address t) (dst_address t)) again)\<rparr>
    \<and> (\<forall>t. sender_ok t \<and> due t \<longrightarrow> data t \<noteq> [])"
proof
  have inv: "TCB_inv t" if "(i, t) \<in> set xs" for i t
    using that assms(7) by (auto simp: SocketTable_inv_def list_all_iff xs_def)
  have eq: "resends now t = (due t \<and> data t \<noteq> [])" "resent t = segment t" if "(i, t) \<in> set xs" for i t
    by (simp_all add: resent_def segment_def due_def data_def now_def retransmit_due_def retransmit_chunk_eq [OF inv [OF that]])
  have "distinct (map fst xs)" "0 \<notin> fst ` set xs"
    using assms(7) by (auto simp: SocketTable_inv_def list_all_iff xs_def)
  then have "check_retransmissions e s = s\<lparr>clock_reads := clock_reads s + 1,
      socket_table := (socket_table s)\<lparr>sockets := map (\<lambda>(i, t). (i, if resends now t then retransmitted now t else t)) xs\<rparr>,
      loopback_packet_queue := loopback_packet_queue s
        @ map resent (filter (\<lambda>t. resends now t \<and> is_local e (src_address t) (dst_address t)) (map snd xs)),
      tun_output := tun_output s
        @ map resent (filter (\<lambda>t. resends now t \<and> \<not> is_local e (src_address t) (dst_address t)) (map snd xs))\<rparr>"
    using retransmit_pass_exact [of "[]" xs "s\<lparr>clock_reads := clock_reads s + 1\<rparr>" e now]
    by (simp add: check_retransmissions_def system_clock_now_def SocketTable_for_each_socket_def now_def xs_def)
  moreover have "map (\<lambda>(i, t). (i, if resends now t then retransmitted now t else t)) xs = map (\<lambda>(i, t). (i, if due t \<and> data t \<noteq> []
      then t\<lparr>last_written := now, retransmit_attempts := retransmit_attempts t + 1\<rparr> else t)) xs"
    using eq(1) by (auto simp: retransmitted_def intro!: map_cong)
  moreover have "map resent (filter (\<lambda>t. resends now t \<and> P t) (map snd xs)) = map segment (filter P again)" for P
    unfolding again_def filter_filter using eq by (intro map_cong filter_cong) force+
  ultimately show "check_retransmissions e s = s\<lparr>clock_reads := clock_reads s + 1,
      socket_table := (socket_table s)\<lparr>sockets :=
        map (\<lambda>(i, t). (i, if due t \<and> data t \<noteq> []
          then t\<lparr>last_written := now, retransmit_attempts := retransmit_attempts t + 1\<rparr> else t)) xs\<rparr>,
      loopback_packet_queue := loopback_packet_queue s
        @ map segment (filter (\<lambda>t. is_local e (src_address t) (dst_address t)) again),
      tun_output := tun_output s
        @ map segment (filter (\<lambda>t. \<not> is_local e (src_address t) (dst_address t)) again)\<rparr>"
    by simp
  show "\<forall>t. sender_ok t \<and> due t \<longrightarrow> data t \<noteq> []"
    using retransmit_due_chunk [of _ now] retransmit_chunk_eq
    by (fastforce simp: due_def data_def now_def retransmit_due_def sender_ok_def)
qed

subsection \<open>Examples\<close>

text \<open>A connected block with data to send, alone in a stack.\<close>

definition example_block :: "bytes \<Rightarrow> tcb" where
  "example_block data = (TCB_new ESTABLISHED \<lparr>address = 0x0A000002, port = 80\<rparr>
     \<lparr>address = 0x0A000003, port = 5000\<rparr>)\<lparr>tcb_id := 1,
     send_buffer := fst (the (BlockingBuffer_write MAX_IPV4_PACKET_SIZE (BlockingBuffer_new (\<lambda>_. 0)) data))\<rparr>"

definition example_stack :: "tcb \<Rightarrow> TcpStack" where
  "example_stack t = TcpStack_new\<lparr>socket_table := \<lparr>next_id = 2, sockets = [(1, t)]\<rparr>\<rparr>"

lemma get_tcb_example_stack [simp]: "get_tcb (example_stack t) 1 = Some t"
  "SocketTable_inv (socket_table (example_stack t)) \<longleftrightarrow> tcb_id t = 1 \<and> TCB_inv t"
  "clock_reads (example_stack t) = 0" "wire e u (example_stack t) = []"
  by (simp_all add: example_stack_def get_tcb_def SocketTable_find_socket_def SocketTable_inv_def
      TcpStack_new_def wire_def)

lemma example_block_simps [simp]:
  assumes "length data \<le> 65535"
  shows "send_stream (example_block data) = data" "TCB_inv (example_block data)"
    "curr_len (send_buffer (example_block data)) = length data"
proof -
  let ?b = "BlockingBuffer_new (\<lambda>_. 0) :: byte_buffer"
  have b: "BlockingBuffer_inv MAX_IPV4_PACKET_SIZE ?b" by (simp add: MAX_IPV4_PACKET_SIZE_def)
  have "BlockingBuffer_write MAX_IPV4_PACKET_SIZE ?b data \<noteq> None"
    using rb.wr_blocks [OF b, of data] by (simp add: MAX_IPV4_PACKET_SIZE_def)
  then obtain b' n where w: "BlockingBuffer_write MAX_IPV4_PACKET_SIZE ?b data = Some (b', n)" by auto
  have c: "contents MAX_IPV4_PACKET_SIZE b' = data" "BlockingBuffer_inv MAX_IPV4_PACKET_SIZE b'"
    using rb.wr_seq [OF b w] assms by (simp_all add: MAX_IPV4_PACKET_SIZE_def)
  show s: "send_stream (example_block data) = data" and "TCB_inv (example_block data)"
    by (simp_all add: example_block_def w b c TCB_inv_def TCB_new_def)
  show "curr_len (send_buffer (example_block data)) = length data"
    using arg_cong [OF s, of length] by simp
qed

lemma example_block_fields [simp]:
  "in_flight (example_block data) = 0" "SND_WND (example_block data) = 65535"
  "sendable (example_block data)" "tcb_id (example_block data) = 1"
  "current_state (example_block data) = ESTABLISHED" "SND_NXT (example_block data) = 0"
  "SND_UNA (example_block data) = 0" "last_written (example_block data) = 0"
  "RTO (example_block data) = 500"
  by (simp_all add: example_block_def TCB_new_def in_flight_def sendable_def)

lemma example_block_sender [simp]: "length data \<le> 65535 \<Longrightarrow> sender_ok (example_block data)"
  by (simp add: sender_ok_def)

theorem process_block_sliding_window_witness:
  "\<exists>t'. get_tcb (process_block example_env 1 (example_stack (example_block [1, 2, 3]))) 1 = Some t'
     \<and> SND_NXT t' = 3 \<and> unat (in_flight t') = 3 \<and> send_stream t' = [1, 2, 3]"
  using process_block_sliding_window
    [of "example_stack (example_block [1, 2, 3])" 1 "example_block [1, 2, 3]" example_env]
  by auto

theorem segmentation_lossless_witness:
  "\<exists>raws. wire example_env (example_block (replicate 3000 7))
      ((process_block example_env 1 ^^ 3) (example_stack (example_block (replicate 3000 7)))) = raws
     \<and> concat (map payload_of raws) = replicate 3000 7"
  using segmentation_lossless [of "example_stack (example_block (replicate 3000 7))" 1
      "example_block (replicate 3000 7)" 3 example_env]
  by auto

theorem ack_processing_witness:
  "\<exists>t packet. sender_ok t \<and> unat (in_flight t) = 3 \<and> TcpPacketView_ack_num_ntoh packet = 2
     \<and> SND_UNA (ack_tcb packet t) = 2 \<and> unat (in_flight (ack_tcb packet t)) = 1"
proof -
  let ?t = "(example_block [1, 2, 3])\<lparr>SND_NXT := 3\<rparr>"
  let ?p = "TcpPacket_encode (control_packet ?t False True False False 0 2 65535)
    IPv4Address_default IPv4Address_default"
  have s: "send_stream ?t = [1, 2, 3]" by simp
  have "sender_ok ?t"
    using example_block_simps(2) [of "[1, 2, 3]"]
    by (simp add: sender_ok_def in_flight_def TCB_inv_def)
  then show ?thesis
    using ack_processing [of ?t ?p]
    by (intro exI [of _ ?t] exI [of _ ?p]) (simp add: control_view in_flight_def)
qed

theorem retransmission_pass_witness:
  "\<exists>t s. get_tcb s 1 = Some t \<and> get_tcb (check_retransmissions example_env s) 1 =
      Some (t\<lparr>last_written := 0, retransmit_attempts := 1\<rparr>)
    \<and> wire example_env t (check_retransmissions example_env s) =
        wire example_env t s @ [datagram (src_address t) (dst_address t) (create_writer_tcp_packet t [1, 2, 3] 0)]"
proof -
  let ?t = "(example_block [1, 2, 3])\<lparr>SND_NXT := 3, last_written := - 1000000000\<rparr>"
  have ok: "SocketTable_inv (socket_table (example_stack ?t))"
    using example_block_simps(2) [of "[1, 2, 3]"] by (simp add: TCB_inv_def)
  have t: "retransmit_attempts ?t = 0" "unat (in_flight ?t) = 3" "in_flight ?t = 3" "send_stream ?t = [1, 2, 3]"
    "sockets (socket_table (example_stack ?t)) = [(1, ?t)]"
    using example_block_simps(1) [of "[1, 2, 3]"]
    by (simp_all add: example_block_def TCB_new_def in_flight_def example_stack_def)
  let ?s' = "check_retransmissions example_env (example_stack ?t)"
  have s': "sockets (socket_table ?s') = [(1, ?t\<lparr>last_written := 0, retransmit_attempts := 1\<rparr>)]"
    "wire example_env ?t ?s' = [datagram (src_address ?t) (dst_address ?t) (create_writer_tcp_packet ?t [1, 2, 3] 0)]"
    using conjunct1 [OF retransmission_pass [OF ok, of example_env]] t
    by (simp_all add: wire_def example_stack_def TcpStack_new_def)
  then have "get_tcb ?s' 1 = Some (?t\<lparr>last_written := 0, retransmit_attempts := 1\<rparr>)"
    by (simp add: get_tcb_def SocketTable_find_socket_def)
  then show ?thesis using s'(2) by (intro exI [of _ ?t] exI [of _ "example_stack ?t"]) simp
qed

end
