(* ===== verification/Tcp_Scenarios.thy ===== *)
theory Tcp_Scenarios
  imports Tcp_Sender
begin

text \<open>
  Conversations between two stacks that exchange real datagrams: the three-way handshake, the
  transfer of a data segment with its acknowledgement, and the release of a connection. Each
  scenario runs the operations of the model on the bytes that the other side has put on the wire,
  for arbitrary states of both stacks that satisfy the stated conditions.
\<close>

subsection \<open>Routing in terms of lookups\<close>

lemma find_connections_eq:
  "find_connections_tcb s a b =
     (case map_of (connection_table s) (a, b) of
        Some i \<Rightarrow> if get_tcb s i = None then 0 else i | None \<Rightarrow> 0)"
  by (simp add: find_connections_tcb_def ConnectionTable_find_def SocketTable_contains_eq get_tcb_def
      split: option.split)

lemma find_listener_eq:
  "find_listener s p =
     (case map_of (listener_table s) p of
        Some i \<Rightarrow> if get_tcb s i = None then 0 else i | None \<Rightarrow> 0)"
  by (simp add: ListenerTable_find_def SocketTable_contains_eq get_tcb_def split: option.split)

lemma find_connections_cong:
  assumes "connection_table s' = connection_table s" and "\<And>i. get_tcb s' i = None \<longleftrightarrow> get_tcb s i = None"
  shows "find_connections_tcb s' a b = find_connections_tcb s a b"
  using assms by (simp add: find_connections_eq split: option.split)

lemma find_listener_cong:
  assumes "listener_table s' = listener_table s" and "\<And>i. get_tcb s' i = None \<longleftrightarrow> get_tcb s i = None"
  shows "find_listener s' p = find_listener s p"
  unfolding find_listener_eq using assms by (simp split: option.split)

lemma find_connections_some: "find_connections_tcb s a b = i \<Longrightarrow> i \<noteq> 0 \<Longrightarrow> get_tcb s i \<noteq> None"
  by (auto simp: find_connections_eq split: option.splits if_splits)

text \<open>Arrival of a segment for a block in a known state.\<close>

lemma arrival:
  assumes "find_connections_tcb s src dst = i" and "get_tcb s i = Some t" and "plain_packet p"
    and "TcpHeader_source_port_ntoh (tcp_header p) = port src"
    and "TcpHeader_dest_port_ntoh (tcp_header p) = port dst"
  shows "process_incoming_packet e (datagram src dst p) s =
    dispatch_state e i t src dst (TcpPacket_encode p src dst) s"
proof -
  have "i \<noteq> 0" using assms(2) by (rule contrapos_pn) simp
  then show ?thesis
    using assms by (simp add: process_incoming_datagram process_segment_def)
qed

subsection \<open>The three-way handshake\<close>

text \<open>The client's block after the SYN-ACK, and the server's child after the final ACK.\<close>

lemma syn_sent_syn_ack:
  assumes "get_tcb s i = Some t" and "\<not> TcpPacketView_rst packet" and "TcpPacketView_syn packet"
    and "TcpPacketView_ack packet" and "TcpPacketView_ack_num_ntoh packet = SND_NXT t"
  defines "t' \<equiv> t\<lparr>RCV_IRS := TcpPacketView_seq_num_ntoh packet,
      RCV_NXT := TcpPacketView_seq_num_ntoh packet + 1, SND_UNA := SND_NXT t,
      SND_WND := ucast (TcpPacketView_window_ntoh packet), current_state := ESTABLISHED\<rparr>"
  shows "fst (handle_syn_sent_state e i src packet s) =
    transmit e (src_address t) (dst_address t)
      (control_packet t' False True False False (SND_NXT t) (RCV_NXT t') 65535)
      (modify_tcb i (\<lambda>_. t') s)"
  using assms by (simp add: handle_syn_sent_state_def send_control_packet_eq Let_def)

lemma syn_received_ack:
  assumes "get_tcb s i = Some t" and "\<not> TcpPacketView_rst packet" and "\<not> TcpPacketView_syn packet"
    and "TcpPacketView_ack packet" and "TcpPacketView_ack_num_ntoh packet = SND_NXT t"
  defines "t' \<equiv> t\<lparr>SND_UNA := SND_NXT t, SND_WND := ucast (TcpPacketView_window_ntoh packet),
      current_state := ESTABLISHED\<rparr>"
  shows "fst (handle_syn_received_state e i src packet s) =
    modify_tcb (find_listener (modify_tcb i (\<lambda>_. t') s) (port (src_address t)))
      (\<lambda>l. l\<lparr>accept_queue := accept_queue l @ [i]\<rparr>) (modify_tcb i (\<lambda>_. t') s)"
  using assms by (simp add: handle_syn_received_state_def Let_def)

lemma process_block_syn:
  assumes "get_tcb s i = Some t" and "current_state t = SYN_SENT"
  shows "emits e (src_address t) (dst_address t)
      (control_packet t True False False False (SND_ISS t) 0 65535) s (process_block e i s)"
    and "get_tcb (process_block e i s) = (get_tcb s)(i \<mapsto> t\<lparr>last_written := env_now e (clock_reads s)\<rparr>)"
    and "connection_table (process_block e i s) = connection_table s"
  using assms(2) by (simp_all add: process_block_eq [OF assms(1)] Let_def emits_def assms(1))

lemma dispatch_simps:
  "current_state t = SYN_SENT \<Longrightarrow>
     dispatch_state e i t src dst packet s = returns (handle_syn_sent_state e i src packet s)"
  "current_state t = SYN_RECEIVED \<Longrightarrow>
     dispatch_state e i t src dst packet s = returns (handle_syn_received_state e i src packet s)"
  "current_state t = ESTABLISHED \<Longrightarrow>
     dispatch_state e i t src dst packet s = handle_established_state e i packet s"
  "current_state t = FIN_WAIT_1 \<Longrightarrow>
     dispatch_state e i t src dst packet s = returns (handle_fin_wait_1_state e i packet s)"
  "current_state t = FIN_WAIT_2 \<Longrightarrow>
     dispatch_state e i t src dst packet s = returns (handle_fin_wait_2_state e i packet s)"
  "current_state t = LAST_ACK \<Longrightarrow>
     dispatch_state e i t src dst packet s = returns (handle_last_ack_state i packet s)"
  by (simp_all add: dispatch_state_def)

text \<open>The server's answer to the SYN.\<close>

lemma handshake_server:
  fixes sB :: TcpStack and t :: tcb and x :: u32
  defines "j \<equiv> next_id (socket_table sB)"
  assumes "get_tcb sB j = None" and "j \<noteq> 0" and "find_listener sB (port b) \<noteq> 0"
    and "find_connections_tcb sB a b = 0" and "src_address t = a" and "dst_address t = b"
  defines "p \<equiv> control_packet t True False False False x 0 65535"
  shows "\<exists>n sB1 u. process_incoming_packet eb (datagram a b p) sB = Returns n sB1
    \<and> get_tcb sB1 = (get_tcb sB)(j \<mapsto> u) \<and> u = syn_child j a b (TcpPacket_encode p a b) (env_random eb (draws sB))
    \<and> find_connections_tcb sB1 a b = j \<and> listener_table sB1 = listener_table sB
    \<and> connection_table sB1 = ConnectionTable_insert a b j (connection_table sB)
    \<and> emits eb b a (control_packet u True True False False (SND_ISS u) (RCV_NXT u) 65535) sB sB1"
proof -
  let ?c = "TcpPacket_encode p a b"
  let ?s = "fst (handle_passive_open_syn eb a b ?c sB)"
  have c: "TcpPacketView_syn ?c" "\<not> TcpPacketView_ack ?c" by (simp_all add: p_def control_view)
  have "plain_packet p" "TcpHeader_source_port_ntoh (tcp_header p) = port a"
    "TcpHeader_dest_port_ntoh (tcp_header p) = port b"
    using assms(6,7) by (simp_all add: p_def)
  then have "process_incoming_packet eb (datagram a b p) sB =
      returns (handle_passive_open_syn eb a b ?c sB)"
    using c assms(4,5)
    by (simp add: process_incoming_datagram process_segment_def ListenerTable_contains_eq)
  moreover note opened = passive_open_eq [of sB b ?c eb a, folded j_def, OF assms(2-4) c]
  moreover have "find_connections_tcb ?s a b = j"
    using opened(1,2) by (simp add: find_connections_eq ConnectionTable_insert_def update_conv')
  ultimately show ?thesis by (auto simp: returns_def)
qed

text \<open>The client's answer to a SYN-ACK from block \<open>u\<close>, and the server's reaction to the final ACK.\<close>

lemma handshake_client:
  fixes t u :: tcb and y :: u32
  assumes "get_tcb s i = Some t" and "current_state t = SYN_SENT" and "find_connections_tcb s b a = i"
    and "src_address t = a" and "dst_address t = b" and "src_address u = b" and "dst_address u = a"
    and "advertised_window u = 65535"
  defines "t2 \<equiv> t\<lparr>RCV_IRS := y, RCV_NXT := y + 1, SND_UNA := SND_NXT t, SND_WND := 65535,
      current_state := ESTABLISHED\<rparr>"
  shows "\<exists>n. process_incoming_packet e (datagram b a
      (control_packet u True True False False y (SND_NXT t) 65535)) s =
    Returns n (transmit e a b (control_packet t2 False True False False (SND_NXT t) (y + 1) 65535)
      (modify_tcb i (\<lambda>_. t2) s))"
proof -
  let ?p = "control_packet u True True False False y (SND_NXT t) 65535"
  let ?c = "TcpPacket_encode ?p b a"
  have "process_incoming_packet e (datagram b a ?p) s = dispatch_state e i t b a ?c s"
    using assms(6,7) by (intro arrival [OF assms(3,1)]) simp_all
  then show ?thesis
    using syn_sent_syn_ack [OF assms(1), of ?c e b] assms(2,4,5,8)
    by (simp add: dispatch_simps returns_def t2_def control_view)
qed

lemma handshake_accept:
  fixes t u :: tcb and x :: u32
  assumes "get_tcb s j = Some u" and "current_state u = SYN_RECEIVED" and "find_connections_tcb s a b = j"
    and "src_address t = a" and "dst_address t = b" and "src_address u = b"
    and "advertised_window t = 65535"
  defines "u2 \<equiv> u\<lparr>SND_UNA := SND_NXT u, SND_WND := 65535, current_state := ESTABLISHED\<rparr>"
  shows "\<exists>n. process_incoming_packet e (datagram a b
      (control_packet t False True False False x (SND_NXT u) 65535)) s =
    Returns n (modify_tcb (find_listener (modify_tcb j (\<lambda>_. u2) s) (port b))
      (\<lambda>q. q\<lparr>accept_queue := accept_queue q @ [j]\<rparr>) (modify_tcb j (\<lambda>_. u2) s))"
proof -
  let ?p = "control_packet t False True False False x (SND_NXT u) 65535"
  let ?c = "TcpPacket_encode ?p a b"
  have "process_incoming_packet e (datagram a b ?p) s = dispatch_state e j u a b ?c s"
    using assms(4,5) by (intro arrival [OF assms(3,1)]) simp_all
  then show ?thesis
    using syn_received_ack [OF assms(1), of ?c e a] assms(2,6,7)
    by (simp add: dispatch_simps returns_def u2_def control_view)
qed

lemma syn_child_simps:
  assumes "u = syn_child j a b packet iss"
  shows "src_address u = b" "dst_address u = a" "RCV_NXT u = TcpPacketView_seq_num_ntoh packet + 1"
    "current_state u = SYN_RECEIVED" "SND_NXT u = iss + 1" "SND_ISS u = iss"
    "advertised_window u = 65535"
  using assms by (simp_all add: syn_child_def TCB_new_def advertised_window_def
      BlockingBuffer_available_capacity_def MAX_IPV4_PACKET_SIZE_def)

lemma empty_window: "curr_len (recv_buffer t) = 0 \<Longrightarrow> advertised_window t = 65535"
  by (simp add: advertised_window_def BlockingBuffer_available_capacity_def MAX_IPV4_PACKET_SIZE_def)

text \<open>The handshake step by step, with everything that it leaves in the two blocks and tables.\<close>

lemma handshake_blocks:
  fixes sB :: TcpStack and b :: IPv4Address
  defines "j \<equiv> next_id (socket_table sB)" and "l \<equiv> find_listener sB (port b)"
  assumes "get_tcb sA i = Some t" and "current_state t = SYN_SENT"
    and "SND_NXT t = SND_ISS t + 1" and "src_address t = a" and "dst_address t = b"
    and "find_connections_tcb sA b a = i" and "curr_len (recv_buffer t) = 0"
    and "get_tcb sB j = None" and "j \<noteq> 0" and "get_tcb sB l = Some listener"
    and "find_connections_tcb sB a b = 0"
  shows "\<exists>p1 p2 p3 n1 n2 n3 sB1 sA2 sB2 t' u'.
      emits ea a b p1 sA (process_block ea i sA)
    \<and> process_incoming_packet eb (datagram a b p1) sB = Returns n1 sB1 \<and> emits eb b a p2 sB sB1
    \<and> process_incoming_packet ea (datagram b a p2) (process_block ea i sA) = Returns n2 sA2
    \<and> emits ea a b p3 (process_block ea i sA) sA2
    \<and> process_incoming_packet eb (datagram a b p3) sB1 = Returns n3 sB2
    \<and> get_tcb sA2 i = Some t' \<and> get_tcb sB2 j = Some u'
    \<and> current_state t' = ESTABLISHED \<and> current_state u' = ESTABLISHED
    \<and> SND_NXT t' = RCV_NXT u' \<and> SND_NXT u' = RCV_NXT t' \<and> in_flight t' = 0 \<and> in_flight u' = 0
    \<and> SND_WND t' = 65535 \<and> SND_WND u' = 65535
    \<and> src_address u' = b \<and> dst_address u' = a
    \<and> map_option accept_queue (get_tcb sB2 l) = Some (accept_queue listener @ [j])
    \<and> src_address t' = a \<and> dst_address t' = b \<and> SND_UNA t' = SND_NXT t' \<and> SND_UNA u' = SND_NXT u'
    \<and> send_buffer t' = send_buffer t \<and> recv_buffer t' = recv_buffer t
    \<and> send_buffer u' = BlockingBuffer_new (\<lambda>_. 0) \<and> recv_buffer u' = BlockingBuffer_new (\<lambda>_. 0)
    \<and> connection_table sA2 = connection_table sA \<and> connection_table sB2 = ConnectionTable_insert a b j (connection_table sB)
    \<and> get_tcb sB2 l = Some (listener\<lparr>accept_queue := accept_queue listener @ [j]\<rparr>)"
proof -
  define p1 where "p1 = control_packet t True False False False (SND_ISS t) 0 65535"
  define sA1 where "sA1 = process_block ea i sA"
  define t1 where "t1 = t\<lparr>last_written := env_now ea (clock_reads sA)\<rparr>"
  have A1: "emits ea a b p1 sA sA1" "get_tcb sA1 = (get_tcb sA)(i \<mapsto> t1)"
    using process_block_syn [OF assms(3,4), of ea] assms(6,7) by (simp_all add: p1_def sA1_def t1_def)
  have A1c: "find_connections_tcb sA1 b a = i"
    using find_connections_cong [of sA1 sA b a] process_block_syn(3) [OF assms(3,4), of ea] A1(2) assms(3,8)
    by (simp add: sA1_def)
  have l: "l \<noteq> 0" "l \<noteq> j" using assms(10,12) by auto
  obtain n1 sB1 u where B1: "process_incoming_packet eb (datagram a b p1) sB = Returns n1 sB1"
      "get_tcb sB1 = (get_tcb sB)(j \<mapsto> u)"
      "u = syn_child j a b (TcpPacket_encode p1 a b) (env_random eb (draws sB))"
      "find_connections_tcb sB1 a b = j" "listener_table sB1 = listener_table sB"
      "emits eb b a (control_packet u True True False False (SND_ISS u) (RCV_NXT u) 65535) sB sB1"
      "connection_table sB1 = ConnectionTable_insert a b j (connection_table sB)"
    using handshake_server [where sB = sB and b = b and a = a and t = t and x = "SND_ISS t" and eb = eb] assms(6,7,10,11,13) l
    by (auto simp: p1_def j_def l_def)
  note u = syn_child_simps [OF B1(3)]
  have nx: "SND_NXT t1 = SND_NXT t" "RCV_NXT u = SND_NXT t" "curr_len (recv_buffer t1) = 0"
    using assms(5,9) u(3) by (simp_all add: t1_def p1_def control_view)
  define t2 where "t2 = t1\<lparr>RCV_IRS := SND_ISS u, RCV_NXT := SND_ISS u + 1, SND_UNA := SND_NXT t1,
      SND_WND := 65535, current_state := ESTABLISHED\<rparr>"
  define p3 where "p3 = control_packet t2 False True False False (SND_NXT t1) (SND_ISS u + 1) 65535"
  define sA2 where "sA2 = transmit ea a b p3 (modify_tcb i (\<lambda>_. t2) sA1)"
  obtain n2 where A2: "process_incoming_packet ea (datagram b a
      (control_packet u True True False False (SND_ISS u) (RCV_NXT u) 65535)) sA1 = Returns n2 sA2"
    using handshake_client [where s = sA1 and i = i and t = t1 and b = b and a = a and u = u and e = ea
        and y = "SND_ISS u"] A1(2) A1c assms(4,6,7) u nx
    by (auto simp: t1_def sA2_def p3_def t2_def)
  define u2 where "u2 = u\<lparr>SND_UNA := SND_NXT u, SND_WND := 65535, current_state := ESTABLISHED\<rparr>"
  define sB2 where "sB2 = modify_tcb l (\<lambda>q. q\<lparr>accept_queue := accept_queue q @ [j]\<rparr>)
    (modify_tcb j (\<lambda>_. u2) sB1)"
  have "find_listener (modify_tcb j (\<lambda>_. u2) sB1) (port b) = l"
    using B1(2,5) l unfolding l_def find_listener_eq by (auto split: option.splits if_splits)
  then obtain n3 where B2: "process_incoming_packet eb (datagram a b p3) sB1 = Returns n3 sB2"
    using handshake_accept [where s = sB1 and j = j and u = u and a = a and b = b and t = t2 and e = eb
        and x = "SND_NXT t1"] B1(2,4) assms(6,7) u empty_window [of t2] nx(3)
    by (auto simp: p3_def sB2_def u2_def t2_def t1_def)
  have "get_tcb sA2 i = Some t2" "get_tcb sB2 j = Some u2"
    "map_option accept_queue (get_tcb sB2 l) = Some (accept_queue listener @ [j])"
    "emits ea a b p3 sA1 sA2"
    using A1(2) B1(2) l assms(12) by (simp_all add: sA2_def sB2_def emits_def)
  moreover have "SND_NXT t2 = RCV_NXT u2" "SND_NXT u2 = RCV_NXT t2" "in_flight t2 = 0" "in_flight u2 = 0"
    "SND_WND t2 = 65535" "SND_WND u2 = 65535" "current_state t2 = ESTABLISHED"
    "current_state u2 = ESTABLISHED" "src_address u2 = b" "dst_address u2 = a"
    using nx u by (simp_all add: t2_def u2_def in_flight_def)
  moreover have "src_address t2 = a" "dst_address t2 = b" "SND_UNA t2 = SND_NXT t2" "SND_UNA u2 = SND_NXT u2"
    "send_buffer t2 = send_buffer t" "recv_buffer t2 = recv_buffer t"
    "send_buffer u2 = BlockingBuffer_new (\<lambda>_. 0)" "recv_buffer u2 = BlockingBuffer_new (\<lambda>_. 0)"
    using assms(6,7) B1(3) by (simp_all add: t1_def t2_def u2_def syn_child_def TCB_new_def)
  moreover have "connection_table sA2 = connection_table sA"
    "connection_table sB2 = ConnectionTable_insert a b j (connection_table sB)"
    "get_tcb sB2 l = Some (listener\<lparr>accept_queue := accept_queue listener @ [j]\<rparr>)"
    using B1(2,7) l assms(12) process_block_syn(3) [OF assms(3,4), of ea] by (simp_all add: sA2_def sB2_def sA1_def)
  moreover note A1(1) A2 B1(1,6) B2
  ultimately show ?thesis
    unfolding sA1_def [symmetric]
    by blast
qed

text \<open>C3. The three-way handshake. A client whose block is in \<^verbatim>\<open>SYN_SENT\<close> towards endpoint \<open>b\<close> and a
  server that is bound to the port of \<open>b\<close> and has no connection from \<open>a\<close>: the client's block sends a
  SYN, the server answers with SYN-ACK from a new block, the client answers with an ACK, and when
  the server has processed it both blocks are \<^verbatim>\<open>ESTABLISHED\<close>, each side expects exactly the sequence
  number the other will send next, nothing is in flight, both know the peer's full window, and
  the new block is at the end of the listener's accept queue.\<close>

theorem three_way_handshake:
  fixes sB :: TcpStack and b :: IPv4Address
  defines "j \<equiv> next_id (socket_table sB)" and "l \<equiv> find_listener sB (port b)"
  assumes "get_tcb sA i = Some t" and "current_state t = SYN_SENT"
    and "SND_NXT t = SND_ISS t + 1" and "src_address t = a" and "dst_address t = b"
    and "find_connections_tcb sA b a = i" and "curr_len (recv_buffer t) = 0"
    and "get_tcb sB j = None" and "j \<noteq> 0" and "get_tcb sB l = Some listener"
    and "find_connections_tcb sB a b = 0"
  shows "\<exists>p1 p2 p3 n1 n2 n3 sB1 sA2 sB2 t' u'.
      emits ea a b p1 sA (process_block ea i sA)
    \<and> process_incoming_packet eb (datagram a b p1) sB = Returns n1 sB1 \<and> emits eb b a p2 sB sB1
    \<and> process_incoming_packet ea (datagram b a p2) (process_block ea i sA) = Returns n2 sA2
    \<and> emits ea a b p3 (process_block ea i sA) sA2
    \<and> process_incoming_packet eb (datagram a b p3) sB1 = Returns n3 sB2
    \<and> get_tcb sA2 i = Some t' \<and> get_tcb sB2 j = Some u'
    \<and> current_state t' = ESTABLISHED \<and> current_state u' = ESTABLISHED
    \<and> SND_NXT t' = RCV_NXT u' \<and> SND_NXT u' = RCV_NXT t' \<and> in_flight t' = 0 \<and> in_flight u' = 0
    \<and> SND_WND t' = 65535 \<and> SND_WND u' = 65535
    \<and> src_address u' = b \<and> dst_address u' = a
    \<and> map_option accept_queue (get_tcb sB2 l) = Some (accept_queue listener @ [j])"
  using handshake_blocks [OF assms(3-)[unfolded j_def l_def], of ea eb] unfolding j_def l_def by blast

end
