(* ===== verification/Tcp_Transfer.thy ===== *)
theory Tcp_Transfer
  imports Tcp_Scenarios
begin

text \<open>
  The transfer of data over an established connection: the receiving side stores the payload,
  advances \<^verbatim>\<open>RCV.NXT\<close> and acknowledges; the acknowledgement releases the bytes at the sender.
\<close>

subsection \<open>The receiver\<close>

lemma ack_tcb_frame [simp]:
  "recv_buffer (ack_tcb packet t) = recv_buffer t" "RCV_NXT (ack_tcb packet t) = RCV_NXT t"
  "SND_NXT (ack_tcb packet t) = SND_NXT t" "src_address (ack_tcb packet t) = src_address t"
  "dst_address (ack_tcb packet t) = dst_address t"
  by (simp_all add: ack_tcb_def Let_def)

lemma established_ack_frame:
  assumes "get_tcb s j = Some u"
  shows "get_tcb (established_ack j u packet s) = (get_tcb s)(j \<mapsto> ack_tcb packet u)"
    and "connection_table (established_ack j u packet s) = connection_table s"
    and "loopback_packet_queue (established_ack j u packet s) = loopback_packet_queue s"
    and "tun_output (established_ack j u packet s) = tun_output s"
  using assms by (simp_all add: established_ack_def Let_def add_dirty_tcb_def)

lemma write_fits:
  assumes "BlockingBuffer_inv Size b" and "length (contents Size b) + length xs \<le> Size" and "xs \<noteq> []"
  shows "\<exists>b'. BlockingBuffer_write Size b xs = Some (b', length xs) \<and> BlockingBuffer_inv Size b'
    \<and> contents Size b' = contents Size b @ xs"
proof -
  have "0 < length xs" using assms(3) by simp
  then have "length (contents Size b) \<noteq> Size" using assms(2) by linarith
  then have "BlockingBuffer_write Size b xs \<noteq> None" using rb.wr_blocks [OF assms(1), of xs] by blast
  then obtain b' n where w: "BlockingBuffer_write Size b xs = Some (b', n)" by auto
  have "n = length xs" using rb.wr_seq [OF assms(1) w] assms(2) by linarith
  with rb.wr_seq [OF assms(1) w] w show ?thesis by simp
qed

lemma established_receives_block:
  fixes u :: tcb and packet :: bytes
  defines "data \<equiv> TcpPacketView_payload packet"
  assumes "get_tcb s j = Some u" and "TCB_inv u" and "\<not> TcpPacketView_fin packet"
    and "data \<noteq> []" and "length (recv_stream u) + length data \<le> 65535"
  shows "\<exists>n s' buf. handle_established_state e j packet s = Returns n s'
    \<and> BlockingBuffer_inv MAX_IPV4_PACKET_SIZE buf \<and> contents MAX_IPV4_PACKET_SIZE buf = recv_stream u @ data
    \<and> (let u' = (if TcpPacketView_ack packet then ack_tcb packet u else u)
             \<lparr>RCV_NXT := RCV_NXT u + of_nat (length data), recv_buffer := buf\<rparr>
       in get_tcb s' = (get_tcb s)(j \<mapsto> u') \<and> connection_table s' = connection_table s
        \<and> emits e (src_address u) (dst_address u)
            (control_packet u' False True False False (SND_NXT u') (RCV_NXT u') 65535) s s')"
proof -
  define u1 where "u1 = (if TcpPacketView_ack packet then ack_tcb packet u else u)"
  define s1 where "s1 = (if TcpPacketView_ack packet then established_ack j u packet s else s)"
  have u1: "recv_buffer u1 = recv_buffer u" "RCV_NXT u1 = RCV_NXT u" "SND_NXT u1 = SND_NXT u"
    "src_address u1 = src_address u" "dst_address u1 = dst_address u" "current_state u1 = current_state u"
    "TCB_inv u1"
    using assms(3) evolves_ack_tcb [of u packet] by (simp_all add: u1_def evolves_def)
  have s1: "get_tcb s1 = (get_tcb s)(j \<mapsto> u1)" "connection_table s1 = connection_table s"
    "loopback_packet_queue s1 = loopback_packet_queue s" "tun_output s1 = tun_output s"
    using established_ack_frame [OF assms(2), of packet] assms(2)
    by (simp_all add: s1_def u1_def fun_upd_idem)
  obtain buf where buf: "BlockingBuffer_write MAX_IPV4_PACKET_SIZE (recv_buffer u) data = Some (buf, length data)"
      "BlockingBuffer_inv MAX_IPV4_PACKET_SIZE buf"
      "contents MAX_IPV4_PACKET_SIZE buf = recv_stream u @ data"
    using write_fits [of MAX_IPV4_PACKET_SIZE "recv_buffer u" data] assms(3,5,6)
    by (auto simp: TCB_inv_def MAX_IPV4_PACKET_SIZE_def)
  define u' where "u' = u1\<lparr>RCV_NXT := RCV_NXT u + of_nat (length data), recv_buffer := buf\<rparr>"
  define s' where "s' = transmit e (src_address u) (dst_address u)
    (control_packet u' False True False False (SND_NXT u') (RCV_NXT u') 65535)
    (modify_tcb j (\<lambda>_. u')
      (modify_tcb j (\<lambda>t. t\<lparr>RCV_NXT := RCV_NXT t + of_nat (length data)\<rparr>) s1))"
  have "established_payload e j packet
      (modify_tcb j (\<lambda>t. t\<lparr>RCV_NXT := RCV_NXT t + of_nat (length data)\<rparr>) s1) =
      Returns (snd (send_control_packet e u' False True False False (SND_NXT u') (RCV_NXT u')
        (modify_tcb j (\<lambda>_. u')
          (modify_tcb j (\<lambda>t. t\<lparr>RCV_NXT := RCV_NXT t + of_nat (length data)\<rparr>) s1)))) s'"
    using s1(1) buf(1) u1 by (simp add: established_payload_def data_def [symmetric] Let_def
        case_prod_unfold s'_def u'_def send_control_packet_eq)
  then obtain n where "handle_established_state e j packet s = Returns n s'"
    using assms(2,4,5) by (simp add: handle_established_state_def Let_def data_def s1_def)
  moreover have "get_tcb s' = (get_tcb s)(j \<mapsto> u')" using s1(1) by (simp add: s'_def)
  moreover have "connection_table s' = connection_table s" "emits e (src_address u) (dst_address u)
      (control_packet u' False True False False (SND_NXT u') (RCV_NXT u') 65535) s s'"
    using s1 by (simp_all add: s'_def emits_def)
  moreover have "(if TcpPacketView_ack packet then ack_tcb packet u else u)
      \<lparr>RCV_NXT := RCV_NXT u + of_nat (length data), recv_buffer := buf\<rparr> = u'"
    by (simp add: u'_def u1_def)
  ultimately show ?thesis
    using buf(2,3) by (intro exI [of _ n] exI [of _ s'] exI [of _ buf]) (simp only: Let_def simp_thms)
qed

lemma established_receives:
  fixes u :: tcb and packet :: bytes
  defines "data \<equiv> TcpPacketView_payload packet"
  assumes "get_tcb s j = Some u" and "TCB_inv u" and "\<not> TcpPacketView_fin packet"
    and "data \<noteq> []" and "length (recv_stream u) + length data \<le> 65535"
  shows "\<exists>n s' u'. handle_established_state e j packet s = Returns n s'
    \<and> get_tcb s' = (get_tcb s)(j \<mapsto> u') \<and> connection_table s' = connection_table s
    \<and> recv_stream u' = recv_stream u @ data \<and> RCV_NXT u' = RCV_NXT u + of_nat (length data)
    \<and> SND_NXT u' = SND_NXT u \<and> current_state u' = current_state u \<and> TCB_inv u'
    \<and> src_address u' = src_address u \<and> dst_address u' = dst_address u
    \<and> emits e (src_address u) (dst_address u)
        (control_packet u' False True False False (SND_NXT u') (RCV_NXT u') 65535) s s'"
proof -
  define u1 where "u1 = (if TcpPacketView_ack packet then ack_tcb packet u else u)"
  have u1: "recv_buffer u1 = recv_buffer u" "RCV_NXT u1 = RCV_NXT u" "SND_NXT u1 = SND_NXT u"
    "src_address u1 = src_address u" "dst_address u1 = dst_address u" "current_state u1 = current_state u"
    "TCB_inv u1"
    using assms(3) evolves_ack_tcb [of u packet] by (simp_all add: u1_def evolves_def)
  obtain n s' buf where r: "handle_established_state e j packet s = Returns n s'"
      "BlockingBuffer_inv MAX_IPV4_PACKET_SIZE buf" "contents MAX_IPV4_PACKET_SIZE buf = recv_stream u @ data"
      "let u' = u1\<lparr>RCV_NXT := RCV_NXT u + of_nat (length data), recv_buffer := buf\<rparr>
       in get_tcb s' = (get_tcb s)(j \<mapsto> u') \<and> connection_table s' = connection_table s
        \<and> emits e (src_address u) (dst_address u)
            (control_packet u' False True False False (SND_NXT u') (RCV_NXT u') 65535) s s'"
    using established_receives_block [OF assms(2-4), of e] assms(5,6) unfolding data_def u1_def by blast
  let ?u = "u1\<lparr>RCV_NXT := RCV_NXT u + of_nat (length data), recv_buffer := buf\<rparr>"
  have "TCB_inv ?u" using u1(7) r(2) by (simp add: TCB_inv_def)
  then show ?thesis
    using r u1 unfolding Let_def by (intro exI [of _ n] exI [of _ s'] exI [of _ ?u]) simp
qed

text \<open>A segment without payload only updates the sending half.\<close>

lemma established_pure_ack:
  assumes "get_tcb s i = Some t" and "\<not> TcpPacketView_fin packet" and "TcpPacketView_ack packet"
    and "TcpPacketView_payload packet = []"
  shows "handle_established_state e i packet s = Returns 0 (established_ack i t packet s)"
  using assms by (simp add: handle_established_state_def Let_def)

subsection \<open>One round trip\<close>

lemma process_block_frame:
  assumes "get_tcb s i = Some t" and "current_state t \<noteq> SYN_SENT"
  shows "connection_table (process_block e i s) = connection_table s"
  using assms(2) by (simp add: process_block_eq [OF assms(1)] Let_def add_dirty_tcb_def)

lemma advertised_free:
  "TCB_inv t \<Longrightarrow> ucast (advertised_window t) = (of_nat (65535 - length (recv_stream t)) :: u32)"
  by (simp add: advertised_window_def BlockingBuffer_available_capacity_def MAX_IPV4_PACKET_SIZE_def
      min_def unsigned_of_nat take_bit_nat_eq_self)

text \<open>The sender processes the acknowledgement of everything it has sent.\<close>

lemma ack_arrives:
  fixes t u :: tcb
  assumes "get_tcb s i = Some t" and "current_state t = ESTABLISHED" and "sender_ok t"
    and "find_connections_tcb s b a = i" and "src_address u = b" and "dst_address u = a"
    and "TCB_inv u"
  shows "\<exists>s' t'. process_incoming_packet e (datagram b a
      (control_packet u False True False False y (SND_NXT t) 65535)) s = Returns 0 s'
    \<and> get_tcb s' = (get_tcb s)(i \<mapsto> t') \<and> connection_table s' = connection_table s
    \<and> SND_UNA t' = SND_NXT t \<and> SND_NXT t' = SND_NXT t \<and> in_flight t' = 0
    \<and> send_stream t' = drop (unat (in_flight t)) (send_stream t)
    \<and> unat (SND_WND t') = 65535 - length (recv_stream u) \<and> sender_ok t'
    \<and> current_state t' = ESTABLISHED \<and> src_address t' = src_address t \<and> dst_address t' = dst_address t"
proof -
  let ?p = "control_packet u False True False False y (SND_NXT t) 65535"
  let ?c = "TcpPacket_encode ?p b a"
  have c: "\<not> TcpPacketView_fin ?c" "TcpPacketView_ack ?c" "TcpPacketView_payload ?c = []"
    "TcpPacketView_ack_num_ntoh ?c = SND_NXT t" "TcpPacketView_window_ntoh ?c = advertised_window u"
    by (simp_all add: control_view)
  have "process_incoming_packet e (datagram b a ?p) s = dispatch_state e i t b a ?c s"
    using assms(5,6) by (intro arrival [OF assms(4,1)]) simp_all
  then have "process_incoming_packet e (datagram b a ?p) s = Returns 0 (established_ack i t ?c s)"
    using established_pure_ack [OF assms(1) c(1-3)] assms(2) by (simp add: dispatch_simps)
  moreover note frame = established_ack_frame(1,2) [OF assms(1), of ?c]
  moreover have "current_state (ack_tcb ?c t) = ESTABLISHED" using assms(2) by (simp add: ack_tcb_def Let_def)
  moreover have "unat (SND_NXT t - SND_UNA t) \<le> unat (in_flight t)" by (simp add: in_flight_def)
  note ack = ack_in_window [OF assms(3), of ?c, unfolded c(4), OF this]
  moreover have "unat (SND_WND (ack_tcb ?c t)) = 65535 - length (recv_stream u)"
    unfolding ack(5) c(5) advertised_free [OF assms(7)] by (intro unat_of_nat_small) simp
  ultimately show ?thesis
    by (intro exI [of _ "established_ack i t ?c s"] exI [of _ "ack_tcb ?c t"]) (simp add: in_flight_def)
qed

text \<open>The sender's side of sending one segment.\<close>

lemma sender_segment:
  fixes t :: tcb and data :: bytes and e :: stack_env
  assumes "get_tcb s i = Some t" and "current_state t = ESTABLISHED" and "sender_ok t"
    and "find_connections_tcb s b a = i" and "next_chunk t = data" and "data \<noteq> []"
  defines "t1 \<equiv> sent (env_now e (clock_reads s)) t"
  shows "emits e (src_address t) (dst_address t) (create_writer_tcp_packet t data (SND_NXT t)) s
      (process_block e i s)"
    and "get_tcb (process_block e i s) i = Some t1"
    and "find_connections_tcb (process_block e i s) b a = i"
    and "SND_NXT t1 = SND_NXT t + of_nat (length data)" and "send_stream t1 = send_stream t"
    and "current_state t1 = ESTABLISHED" and "unat (in_flight t1) = unat (in_flight t) + length data"
    and "sender_ok t1"
proof -
  have ns: "current_state t \<noteq> SYN_SENT" and snd: "sendable t"
    using assms(2) by (simp_all add: sendable_def)
  show "emits e (src_address t) (dst_address t) (create_writer_tcp_packet t data (SND_NXT t)) s
      (process_block e i s)"
    using process_block_output [OF assms(1) ns, of e] snd assms(5,6) by simp
  have g: "get_tcb (process_block e i s) = (get_tcb s)(i \<mapsto> t1)"
    using get_tcb_process_block [OF assms(1) ns, of e] by (simp add: t1_def)
  then show "get_tcb (process_block e i s) i = Some t1" by simp
  show "find_connections_tcb (process_block e i s) b a = i"
    using find_connections_cong [of "process_block e i s" s b a] process_block_frame [OF assms(1) ns, of e]
      g assms(1,4) by simp
  have "in_flight t1 = in_flight (after_send t)"
    using snd by (simp add: t1_def sent_def after_send_def in_flight_def)
  then show "SND_NXT t1 = SND_NXT t + of_nat (length data)" "send_stream t1 = send_stream t"
    "current_state t1 = ESTABLISHED" "unat (in_flight t1) = unat (in_flight t) + length data"
    "sender_ok t1"
    using snd assms(2,5) in_flight_after_send [OF assms(3)] sender_ok_after_send [OF assms(3)]
    by (simp_all add: t1_def sent_def sender_ok_def TCB_inv_def)
qed

text \<open>Transfer of a segment over an established connection between two stacks. When the sender
  has unsent bytes that the peer's window admits, the receiver expects the sender's next sequence
  number, and its buffer has room for the segment, then: the datagram that \<^verbatim>\<open>process_block_\<close> emits
  appends exactly its payload to the receiver's stream and the receiver emits an acknowledgement;
  the acknowledgement removes all bytes sent so far from the sender's buffer and nothing else,
  leaves nothing in flight, and makes the sender's view of the window the receiver's free space;
  sender and receiver are synchronised again.\<close>

theorem segment_transfer:
  fixes t u :: tcb
  defines "data \<equiv> take (min (unat (SND_WND t) - unat (in_flight t)) 1460)
      (drop (unat (in_flight t)) (send_stream t))"
  assumes "get_tcb sA i = Some t" and "current_state t = ESTABLISHED" and "sender_ok t"
    and "src_address t = a" and "dst_address t = b" and "find_connections_tcb sA b a = i"
    and "get_tcb sB j = Some u" and "current_state u = ESTABLISHED" and "TCB_inv u"
    and "src_address u = b" and "dst_address u = a" and "find_connections_tcb sB a b = j"
    and "RCV_NXT u = SND_NXT t" and "data \<noteq> []"
    and "length (recv_stream u) + length data \<le> 65535"
  shows "\<exists>p ackp n sB' sA' t' u'. emits ea a b p sA (process_block ea i sA)
    \<and> process_incoming_packet eb (datagram a b p) sB = Returns n sB' \<and> emits eb b a ackp sB sB'
    \<and> process_incoming_packet ea (datagram b a ackp) (process_block ea i sA) = Returns 0 sA'
    \<and> get_tcb sA' i = Some t' \<and> get_tcb sB' j = Some u'
    \<and> recv_stream u' = recv_stream u @ data
    \<and> send_stream t' = drop (unat (in_flight t) + length data) (send_stream t)
    \<and> SND_UNA t' = SND_NXT t + of_nat (length data) \<and> in_flight t' = 0
    \<and> unat (SND_WND t') = 65535 - length (recv_stream u')
    \<and> RCV_NXT u' = SND_NXT t' \<and> sender_ok t'"
proof -
  have "next_chunk t = data"
    using assms(4) by (simp add: next_chunk_eq data_def sender_ok_def)
  note A = sender_segment [OF assms(2-4,7) this assms(15), of ea] and
    short = next_chunk_bounded(1) [of t, unfolded this]
  define p where "p = create_writer_tcp_packet t data (SND_NXT t)"
  let ?c = "TcpPacket_encode p a b"
  have "process_incoming_packet eb (datagram a b p) sB = dispatch_state eb j u a b ?c sB"
    using assms(5,6) short by (intro arrival [OF assms(13,8)]) (simp_all add: p_def)
  then have disp: "process_incoming_packet eb (datagram a b p) sB = handle_established_state eb j ?c sB"
    using assms(9) by (simp add: dispatch_simps)
  obtain n sB' u' where B: "handle_established_state eb j ?c sB = Returns n sB'"
      "get_tcb sB' = (get_tcb sB)(j \<mapsto> u')" "recv_stream u' = recv_stream u @ data"
      "RCV_NXT u' = RCV_NXT u + of_nat (length data)" "TCB_inv u'" "src_address u' = b" "dst_address u' = a"
      "emits eb b a (control_packet u' False True False False (SND_NXT u') (RCV_NXT u') 65535) sB sB'"
    using established_receives [OF assms(8,10), of ?c eb] assms(11,12,15,16)
    by (auto simp: p_def writer_view)
  have nxt: "RCV_NXT u' = SND_NXT (sent (env_now ea (clock_reads sA)) t)"
    using B(4) assms(14) A(4) by simp
  obtain sA' t' where A2: "process_incoming_packet ea (datagram b a
      (control_packet u' False True False False (SND_NXT u') (RCV_NXT u') 65535)) (process_block ea i sA)
      = Returns 0 sA'" "get_tcb sA' = (get_tcb (process_block ea i sA))(i \<mapsto> t')" "SND_UNA t' = RCV_NXT u'" "SND_NXT t' = RCV_NXT u'"
      "in_flight t' = 0" "send_stream t' = drop (unat (in_flight t) + length data) (send_stream t)"
      "unat (SND_WND t') = 65535 - length (recv_stream u')" "sender_ok t'"
    using ack_arrives [OF A(2,6,8,3) B(6,7,5), of ea "SND_NXT u'"] A(5,7) nxt by auto
  have "get_tcb sB' j = Some u'" "get_tcb sA' i = Some t'" "SND_UNA t' = SND_NXT t + of_nat (length data)"
    using B(2) A2(2,3) nxt A(4) by simp_all
  then show ?thesis
    using A(1) [unfolded assms(5,6)] disp B(1,3,8) A2 unfolding p_def by (metis (no_types, lifting))
qed

text \<open>Two connected stacks.\<close>

definition example_conn :: "tcb \<Rightarrow> TcpStack" where
  "example_conn t = (example_stack t)\<lparr>connection_table := [((dst_address t, src_address t), 1)]\<rparr>"

definition example_peer :: tcb where
  "example_peer = (TCB_new ESTABLISHED \<lparr>address = 0x0A000003, port = 5000\<rparr>
     \<lparr>address = 0x0A000002, port = 80\<rparr>)\<lparr>tcb_id := 1\<rparr>"

lemma example_conn_simps [simp]:
  "get_tcb (example_conn t) 1 = Some t"
  "find_connections_tcb (example_conn t) (dst_address t) (src_address t) = 1"
  by (simp_all add: example_conn_def find_connections_eq)

lemma example_peer_simps [simp]:
  "current_state example_peer = ESTABLISHED" "TCB_inv example_peer" "RCV_NXT example_peer = 0"
  "src_address example_peer = \<lparr>address = 0x0A000003, port = 5000\<rparr>"
  "dst_address example_peer = \<lparr>address = 0x0A000002, port = 80\<rparr>"
  "recv_stream example_peer = []" "SND_NXT example_peer = 0"
  "curr_len (recv_buffer example_peer) = 0"
  by (simp_all add: example_peer_def TCB_new_def TCB_inv_def MAX_IPV4_PACKET_SIZE_def)

lemma example_block_addresses [simp]:
  "src_address (example_block data) = \<lparr>address = 0x0A000002, port = 80\<rparr>"
  "dst_address (example_block data) = \<lparr>address = 0x0A000003, port = 5000\<rparr>"
  by (simp_all add: example_block_def TCB_new_def)

theorem segment_transfer_witness:
  "\<exists>p n sB' u'. emits example_env \<lparr>address = 0x0A000002, port = 80\<rparr> \<lparr>address = 0x0A000003, port = 5000\<rparr>
       p (example_conn (example_block [1, 2, 3]))
       (process_block example_env 1 (example_conn (example_block [1, 2, 3])))
     \<and> process_incoming_packet example_env (datagram \<lparr>address = 0x0A000002, port = 80\<rparr>
         \<lparr>address = 0x0A000003, port = 5000\<rparr> p) (example_conn example_peer) = Returns n sB'
     \<and> get_tcb sB' 1 = Some u' \<and> recv_stream u' = [1, 2, 3]"
proof -
  let ?t = "example_block [1, 2, 3]"
  have "find_connections_tcb (example_conn ?t) \<lparr>address = 0x0A000003, port = 5000\<rparr>
      \<lparr>address = 0x0A000002, port = 80\<rparr> = 1"
    using example_conn_simps(2) [of ?t] by simp
  moreover have "find_connections_tcb (example_conn example_peer) \<lparr>address = 0x0A000002, port = 80\<rparr>
      \<lparr>address = 0x0A000003, port = 5000\<rparr> = 1"
    using example_conn_simps(2) [of example_peer] by simp
  ultimately show ?thesis
    using segment_transfer [of "example_conn ?t" 1 ?t _ _ "example_conn example_peer" 1 example_peer
        example_env example_env]
    by simp blast
qed

end
