(* ===== verification/Tcp_Closing.thy ===== *)
theory Tcp_Closing
  imports Tcp_Transfer
begin

text \<open>
  The release of a connection: \<^verbatim>\<open>close_connection\<close>, the handlers of the closing states, and what they
  leave behind. A connection is a block that is registered under its own endpoints and under no
  others (\<open>connected\<close>); every step of the release keeps this relation, so that the steps of both
  sides compose.
\<close>

definition connected :: "TcpStack \<Rightarrow> socket_id \<Rightarrow> tcb \<Rightarrow> IPv4Address \<Rightarrow> IPv4Address \<Rightarrow> bool" where
  "connected s i t a b \<longleftrightarrow> get_tcb s i = Some t \<and> src_address t = a \<and> dst_address t = b
     \<and> map_of (connection_table s) (b, a) = Some i \<and> map_of (connection_table s) (a, b) = None"

lemma connected_arrival:
  assumes "connected s i t a b" and "plain_packet p"
    and "TcpHeader_source_port_ntoh (tcp_header p) = port b"
    and "TcpHeader_dest_port_ntoh (tcp_header p) = port a"
  shows "process_incoming_packet e (datagram b a p) s =
    dispatch_state e i t b a (TcpPacket_encode p b a) s"
  using assms by (intro arrival) (simp_all add: connected_def find_connections_eq)

lemma connectedI:
  assumes "connected s i t a b" and "get_tcb s' = (get_tcb s)(i \<mapsto> t')"
    and "connection_table s' = connection_table s" and "src_address t' = src_address t"
    and "dst_address t' = dst_address t"
  shows "connected s' i t' a b"
  using assms by (simp add: connected_def)

text \<open>The stack destroys a connection under (source, destination), but it is registered under
  (destination, source): nothing is found.\<close>

lemma destroy_connection_swapped:
  assumes "connected s i t a b"
  shows "destroy_connection (src_address t) (dst_address t) s = (s, False)"
  using assms by (simp add: connected_def destroy_connection_def ConnectionTable_destroy_connection_def)

text \<open>Data that arrives on a connection in \<^verbatim>\<open>ESTABLISHED\<close>.\<close>

lemma data_arrives:
  fixes t u :: tcb and q :: u32
  assumes "connected s j u b a" and "current_state u = ESTABLISHED" and "TCB_inv u"
    and "src_address t = a" and "dst_address t = b" and "data \<noteq> []" and "length data \<le> 65495"
    and "length (recv_stream u) + length data \<le> 65535"
  shows "\<exists>n s' u'. process_incoming_packet e (datagram a b (create_writer_tcp_packet t data q)) s = Returns n s'
    \<and> connected s' j u' b a \<and> current_state u' = ESTABLISHED \<and> TCB_inv u'
    \<and> recv_stream u' = recv_stream u @ data \<and> RCV_NXT u' = RCV_NXT u + of_nat (length data)
    \<and> emits e b a (control_packet u' False True False False (SND_NXT u') (RCV_NXT u') 65535) s s'"
proof -
  let ?p = "create_writer_tcp_packet t data q"
  let ?c = "TcpPacket_encode ?p a b"
  have g: "get_tcb s j = Some u" "src_address u = b" "dst_address u = a" using assms(1) by (simp_all add: connected_def)
  have "process_incoming_packet e (datagram a b ?p) s = dispatch_state e j u a b ?c s"
    using assms(4,5,7) by (intro connected_arrival [OF assms(1)]) simp_all
  then have disp: "process_incoming_packet e (datagram a b ?p) s = handle_established_state e j ?c s"
    using assms(2) by (simp add: dispatch_simps)
  obtain n s' u' where r: "handle_established_state e j ?c s = Returns n s'"
      "get_tcb s' = (get_tcb s)(j \<mapsto> u')" "connection_table s' = connection_table s"
      "recv_stream u' = recv_stream u @ data" "RCV_NXT u' = RCV_NXT u + of_nat (length data)"
      "current_state u' = current_state u" "TCB_inv u'" "src_address u' = src_address u"
      "dst_address u' = dst_address u"
      "emits e b a (control_packet u' False True False False (SND_NXT u') (RCV_NXT u') 65535) s s'"
    using established_receives [OF g(1) assms(3), of ?c e] assms(6,8) g(2,3) by (auto simp: writer_view)
  have "connected s' j u' b a" using r(2,3,8,9) by (intro connectedI [OF assms(1)]) simp_all
  moreover have "current_state u' = ESTABLISHED" using r(6) assms(2) by simp
  ultimately show ?thesis using r(1,4,5,7,10) unfolding disp by blast
qed

subsection \<open>Steps of the release\<close>

text \<open>Closing with nothing left to send.\<close>

lemma close_sends_fin:
  assumes "connected s i t a b" and "next_chunk t = []"
    and "current_state t = ESTABLISHED \<and> st = FIN_WAIT_1 \<or> current_state t = CLOSE_WAIT \<and> st = LAST_ACK"
  shows "\<exists>t'. connected (fst (close_connection e i s)) i t' a b \<and> current_state t' = st
    \<and> SND_NXT t' = SND_NXT t + 1 \<and> RCV_NXT t' = RCV_NXT t
    \<and> (\<exists>w. src_address w = a \<and> dst_address w = b \<and> emits e a b
        (control_packet w False True False True (SND_NXT t) (RCV_NXT t) 65535) s
        (fst (close_connection e i s)))"
proof -
  have g: "get_tcb s i = Some t" "src_address t = a" "dst_address t = b" using assms(1) by (simp_all add: connected_def)
  let ?s1 = "process_block e i s" and ?t1 = "sent (env_now e (clock_reads s)) t"
  have ns: "current_state t \<noteq> SYN_SENT" using assms(3) by auto
  have s1: "get_tcb ?s1 = (get_tcb s)(i \<mapsto> ?t1)" "connection_table ?s1 = connection_table s"
    "loopback_packet_queue ?s1 = loopback_packet_queue s" "tun_output ?s1 = tun_output s"
    using get_tcb_process_block [OF g(1) ns] process_block_frame [OF g(1) ns]
      process_block_output [OF g(1) ns, of e] assms(2) by simp_all
  define w where "w = TCB_set_state st (TCB_close ?t1)"
  have w: "src_address w = a" "dst_address w = b" "SND_NXT w = SND_NXT t" "RCV_NXT w = RCV_NXT t"
    "current_state w = st"
    using g assms(2) by (simp_all add: w_def TCB_set_state_def TCB_close_def Let_def sent_def)
  define s' where "s' = modify_tcb i (\<lambda>t. t\<lparr>SND_NXT := SND_NXT t + 1\<rparr>) (transmit e a b
    (control_packet w False True False True (SND_NXT t) (RCV_NXT t) 65535)
    (modify_tcb i (TCB_set_state st) (modify_tcb i TCB_close ?s1)))"
  have "fst (close_connection e i s) = fst (close_with_fin e i st s)"
    using assms(3) g(1) by (auto simp: close_connection_def)
  also have "\<dots> = s'"
    using s1(1) w by (simp add: close_with_fin_def Let_def unfold_sends s'_def w_def)
  finally have c: "fst (close_connection e i s) = s'" .
  have "connected s' i (w\<lparr>SND_NXT := SND_NXT t + 1\<rparr>) a b"
    using s1 w g assms(1) by (intro connectedI [OF assms(1)]) (simp_all add: s'_def w_def)
  moreover have "emits e a b (control_packet w False True False True (SND_NXT t) (RCV_NXT t) 65535) s s'"
    using s1 by (simp add: s'_def emits_def)
  ultimately show ?thesis
    unfolding c using w by (intro exI [of _ "w\<lparr>SND_NXT := SND_NXT t + 1\<rparr>"]) auto
qed

text \<open>A FIN that arrives in \<^verbatim>\<open>ESTABLISHED\<close>.\<close>

lemma fin_in_established:
  fixes x y :: u32 and w u :: tcb
  assumes "connected s j u b a" and "current_state u = ESTABLISHED" and "src_address w = a" "dst_address w = b"
  defines "p \<equiv> control_packet w False True False True x y 65535"
  shows "\<exists>s' u'. process_incoming_packet e (datagram a b p) s = Returns 1 s' \<and> connected s' j u' b a
    \<and> current_state u' = CLOSE_WAIT \<and> RCV_NXT u' = x + 1 \<and> SND_NXT u' = y
    \<and> send_buffer u' = send_buffer u \<and> SND_UNA u' = SND_UNA u
    \<and> recv_stream u' = recv_stream u \<and> is_forcefully_woken_up (recv_buffer u')
    \<and> (\<exists>v. src_address v = b \<and> dst_address v = a \<and> emits e b a
        (control_packet v False True False False y (x + 1) 65535) s s')"
proof -
  have g: "get_tcb s j = Some u" "src_address u = b" "dst_address u = a" using assms(1) by (simp_all add: connected_def)
  let ?c = "TcpPacket_encode p a b"
  have c: "TcpPacketView_fin ?c" "TcpPacketView_ack ?c" "TcpPacketView_seq_num_ntoh ?c = x"
    "TcpPacketView_ack_num_ntoh ?c = y" by (simp_all add: p_def control_view)
  define v where "v = u\<lparr>RCV_NXT := x + 1, SND_NXT := y, SND_WND := ucast (TcpPacketView_window_ntoh ?c)\<rparr>"
  define u' where "u' = v\<lparr>current_state := CLOSE_WAIT, recv_buffer := force_wake_up (recv_buffer v)\<rparr>"
  let ?s = "fst (established_fin e j u ?c s)"
  have "process_incoming_packet e (datagram a b p) s = dispatch_state e j u a b ?c s"
    using assms(3,4) by (intro connected_arrival [OF assms(1)]) (simp_all add: p_def)
  then have "process_incoming_packet e (datagram a b p) s = Returns 1 ?s"
    using assms(2) g(1) c(1)
    by (simp add: dispatch_simps handle_established_state_def case_prod_unfold)
      (simp add: established_fin_def case_prod_unfold Let_def)
  moreover have s: "get_tcb ?s = (get_tcb s)(j \<mapsto> u')" "connection_table ?s = connection_table s"
    "emits e b a (control_packet v False True False False y (x + 1) 65535) s ?s"
    using g c by (simp_all add: established_fin_def unfold_sends v_def u'_def TCB_set_state_def emits_def)
  moreover have "connected ?s j u' b a"
    using s g by (intro connectedI [OF assms(1)]) (simp_all add: u'_def v_def)
  ultimately show ?thesis
    using g by (intro exI [of _ ?s] exI [of _ u'])
      (auto simp: u'_def v_def force_wake_up_def contents_def intro!: exI [of _ v])
qed

text \<open>The acknowledgement of the FIN in \<^verbatim>\<open>FIN_WAIT_1\<close>, the peer's FIN in \<^verbatim>\<open>FIN_WAIT_2\<close>, and the last
  acknowledgement.\<close>

lemma ack_in_fin_wait_1:
  fixes y :: u32 and v t :: tcb
  assumes "connected s i t a b" and "current_state t = FIN_WAIT_1" and "src_address v = b" "dst_address v = a"
  defines "p \<equiv> control_packet v False True False False y (SND_NXT t) 65535"
  shows "\<exists>s' t'. process_incoming_packet e (datagram b a p) s = Returns 1 s' \<and> connected s' i t' a b
    \<and> current_state t' = FIN_WAIT_2 \<and> SND_NXT t' = SND_NXT t \<and> RCV_NXT t' = RCV_NXT t"
proof -
  have g: "get_tcb s i = Some t" using assms(1) by (simp add: connected_def)
  have "process_incoming_packet e (datagram b a p) s =
      dispatch_state e i t b a (TcpPacket_encode p b a) s"
    using assms(3,4) by (intro connected_arrival [OF assms(1)]) (simp_all add: p_def)
  then have "process_incoming_packet e (datagram b a p) s =
      Returns 1 (modify_tcb i (TCB_set_state FIN_WAIT_2) s)"
    using assms(2) g by (simp add: dispatch_simps handle_fin_wait_1_state_def returns_def p_def control_view)
  moreover have "connected (modify_tcb i (TCB_set_state FIN_WAIT_2) s) i (TCB_set_state FIN_WAIT_2 t) a b"
    using g by (intro connectedI [OF assms(1)]) (simp_all add: TCB_set_state_def)
  ultimately show ?thesis
    by (intro exI [of _ "modify_tcb i (TCB_set_state FIN_WAIT_2) s"] exI [of _ "TCB_set_state FIN_WAIT_2 t"])
      (simp add: TCB_set_state_def)
qed

lemma fin_in_fin_wait_2:
  fixes x y :: u32 and w t :: tcb
  assumes "connected s i t a b" and "current_state t = FIN_WAIT_2" and "src_address w = b" "dst_address w = a"
  defines "p \<equiv> control_packet w False True False True y x 65535"
  shows "\<exists>s' t'. process_incoming_packet e (datagram b a p) s = Returns 1 s' \<and> connected s' i t' a b
    \<and> current_state t' = CLOSED
    \<and> (\<exists>v. src_address v = a \<and> dst_address v = b \<and> emits e a b
        (control_packet v False True False False x (y + 1) 65535) s s')"
proof -
  have g: "get_tcb s i = Some t" "src_address t = a" "dst_address t = b"
    using assms(1) by (simp_all add: connected_def)
  define v where "v = t\<lparr>RCV_NXT := y + 1, SND_NXT := x\<rparr>"
  define s' where "s' = modify_tcb i (TCB_set_state CLOSED) (transmit e a b
    (control_packet v False True False False x (y + 1) 65535) (modify_tcb i (\<lambda>_. v) s))"
  have "process_incoming_packet e (datagram b a p) s =
      dispatch_state e i t b a (TcpPacket_encode p b a) s"
    using assms(3,4) by (intro connected_arrival [OF assms(1)]) (simp_all add: p_def)
  moreover have conn: "connected s' i (TCB_set_state CLOSED v) a b"
    using g by (intro connectedI [OF assms(1)]) (simp_all add: s'_def v_def TCB_set_state_def)
  moreover have "destroy_connection a b s' = (s', False)"
    using destroy_connection_swapped [OF conn] g by (simp add: TCB_set_state_def v_def)
  ultimately have "process_incoming_packet e (datagram b a p) s = Returns 1 s'"
    using assms(2) g by (simp add: dispatch_simps handle_fin_wait_2_state_def returns_def p_def control_view
        unfold_sends s'_def v_def)
  moreover have "emits e a b (control_packet v False True False False x (y + 1) 65535) s s'"
    by (simp add: s'_def emits_def)
  ultimately show ?thesis
    using conn g by (intro exI [of _ s'] exI [of _ "TCB_set_state CLOSED v"])
      (auto simp: TCB_set_state_def v_def intro!: exI [of _ v])
qed

lemma ack_in_last_ack:
  fixes x :: u32 and v u :: tcb
  assumes "connected s j u b a" and "current_state u = LAST_ACK" and "src_address v = a" "dst_address v = b"
  defines "p \<equiv> control_packet v False True False False x (SND_NXT u) 65535"
  shows "\<exists>s' u'. process_incoming_packet e (datagram a b p) s = Returns 1 s' \<and> connected s' j u' b a
    \<and> current_state u' = CLOSED"
proof -
  have g: "get_tcb s j = Some u" "src_address u = b" "dst_address u = a"
    using assms(1) by (simp_all add: connected_def)
  let ?s = "modify_tcb j (TCB_set_state CLOSED) s"
  have conn: "connected ?s j (TCB_set_state CLOSED u) b a"
    using g by (intro connectedI [OF assms(1)]) (simp_all add: TCB_set_state_def)
  then have "destroy_connection b a ?s = (?s, False)"
    using destroy_connection_swapped [OF conn] g by (simp add: TCB_set_state_def)
  moreover have "process_incoming_packet e (datagram a b p) s =
      dispatch_state e j u a b (TcpPacket_encode p a b) s"
    using assms(3,4) by (intro connected_arrival [OF assms(1)]) (simp_all add: p_def)
  ultimately show ?thesis
    using assms(2) g conn
    by (intro exI [of _ ?s] exI [of _ "TCB_set_state CLOSED u"])
      (simp add: dispatch_simps handle_last_ack_state_def returns_def p_def control_view Let_def
        TCB_set_state_def)
qed

lemma empty_chunk: "TCB_inv t \<Longrightarrow> send_stream t = [] \<Longrightarrow> next_chunk t = []"
  by (simp add: next_chunk_eq)

text \<open>C16. Orderly release between two stacks. From an established connection with empty send buffers: the FIN of the side that closes first is acknowledged and moves the other side to
  \<^verbatim>\<open>CLOSE_WAIT\<close>; the acknowledgement moves the first side to \<^verbatim>\<open>FIN_WAIT_2\<close>; the second side's close sends
  its FIN, which the first side acknowledges; after the last acknowledgement both blocks are
  \<^verbatim>\<open>CLOSED\<close>. Both blocks are still in their tables and still found under the connection's endpoints:
  the handlers look for the connection to destroy under the swapped pair of endpoints.\<close>

theorem orderly_release:
  assumes "connected sA i t a b" and "connected sB j u b a"
    and "current_state t = ESTABLISHED" and "current_state u = ESTABLISHED"
    and "TCB_inv t" and "TCB_inv u" and "send_stream t = []" and "send_stream u = []"
  shows "\<exists>fin1 ack1 fin2 ack2 sB1 sA2 sA3 sB3 t' u'.
      emits ea a b fin1 sA (fst (close_connection ea i sA))
    \<and> process_incoming_packet eb (datagram a b fin1) sB = Returns 1 sB1 \<and> emits eb b a ack1 sB sB1
    \<and> process_incoming_packet ea (datagram b a ack1) (fst (close_connection ea i sA)) = Returns 1 sA2
    \<and> emits eb b a fin2 sB1 (fst (close_connection eb j sB1))
    \<and> process_incoming_packet ea (datagram b a fin2) sA2 = Returns 1 sA3 \<and> emits ea a b ack2 sA2 sA3
    \<and> process_incoming_packet eb (datagram a b ack2) (fst (close_connection eb j sB1)) = Returns 1 sB3
    \<and> get_tcb sA3 i = Some t' \<and> current_state t' = CLOSED \<and> find_connections_tcb sA3 b a = i
    \<and> get_tcb sB3 j = Some u' \<and> current_state u' = CLOSED \<and> find_connections_tcb sB3 a b = j"
proof -
  let ?sA1 = "fst (close_connection ea i sA)"
  obtain t1 w where A1: "connected ?sA1 i t1 a b" "current_state t1 = FIN_WAIT_1"
      "SND_NXT t1 = SND_NXT t + 1" "src_address w = a" "dst_address w = b"
      "emits ea a b (control_packet w False True False True (SND_NXT t) (RCV_NXT t) 65535) sA ?sA1"
    using close_sends_fin [OF assms(1) empty_chunk [OF assms(5,7)], of FIN_WAIT_1 ea] assms(3) by auto
  obtain sB1 u1 v where B1: "process_incoming_packet eb (datagram a b
        (control_packet w False True False True (SND_NXT t) (RCV_NXT t) 65535)) sB = Returns 1 sB1"
      "connected sB1 j u1 b a" "current_state u1 = CLOSE_WAIT" "RCV_NXT u1 = SND_NXT t + 1"
      "SND_NXT u1 = RCV_NXT t" "send_buffer u1 = send_buffer u" "SND_UNA u1 = SND_UNA u"
      "src_address v = b" "dst_address v = a"
      "emits eb b a (control_packet v False True False False (RCV_NXT t) (SND_NXT t + 1) 65535) sB sB1"
    using fin_in_established [OF assms(2,4) A1(4,5), of eb "SND_NXT t" "RCV_NXT t"] by auto
  obtain sA2 t2 where A2: "process_incoming_packet ea (datagram b a
        (control_packet v False True False False (RCV_NXT t) (SND_NXT t + 1) 65535)) ?sA1 = Returns 1 sA2"
      "connected sA2 i t2 a b" "current_state t2 = FIN_WAIT_2"
    using ack_in_fin_wait_1 [OF A1(1,2) B1(8,9), of ea "RCV_NXT t"] A1(3) by auto
  let ?sB2 = "fst (close_connection eb j sB1)"
  have "next_chunk u1 = []"
    using B1(6) assms(6,8) by (simp add: next_chunk_def rb.peek_seq TCB_inv_def)
  then obtain u2 w2 where B2: "connected ?sB2 j u2 b a" "current_state u2 = LAST_ACK"
      "SND_NXT u2 = RCV_NXT t + 1" "src_address w2 = b" "dst_address w2 = a"
      "emits eb b a (control_packet w2 False True False True (RCV_NXT t) (SND_NXT t + 1) 65535) sB1 ?sB2"
    using close_sends_fin [OF B1(2), of LAST_ACK eb] B1(3,4,5) by auto
  obtain sA3 t3 v2 where A3: "process_incoming_packet ea (datagram b a
        (control_packet w2 False True False True (RCV_NXT t) (SND_NXT t + 1) 65535)) sA2 = Returns 1 sA3"
      "connected sA3 i t3 a b" "current_state t3 = CLOSED" "src_address v2 = a" "dst_address v2 = b"
      "emits ea a b (control_packet v2 False True False False (SND_NXT t + 1) (RCV_NXT t + 1) 65535) sA2 sA3"
    using fin_in_fin_wait_2 [OF A2(2,3) B2(4,5), of ea "RCV_NXT t" "SND_NXT t + 1"] by auto
  obtain sB3 u3 where B3: "process_incoming_packet eb (datagram a b
        (control_packet v2 False True False False (SND_NXT t + 1) (RCV_NXT t + 1) 65535)) ?sB2 = Returns 1 sB3"
      "connected sB3 j u3 b a" "current_state u3 = CLOSED"
    using ack_in_last_ack [OF B2(1,2) A3(4,5), of eb "SND_NXT t + 1"] B2(3) by auto
  have "find_connections_tcb sA3 b a = i" "find_connections_tcb sB3 a b = j"
    "get_tcb sA3 i = Some t3" "get_tcb sB3 j = Some u3"
    using A3(2) B3(2) by (simp_all add: connected_def find_connections_eq)
  then show ?thesis
    using A1(6) B1(1,10) A2(1) B2(6) A3(1,3,6) B3(1,3) by (metis (no_types, lifting))
qed

lemma connected_example:
  "connected (example_conn (example_block data)) 1 (example_block data)
     \<lparr>address = 0x0A000002, port = 80\<rparr> \<lparr>address = 0x0A000003, port = 5000\<rparr>"
  "connected (example_conn example_peer) 1 example_peer
     \<lparr>address = 0x0A000003, port = 5000\<rparr> \<lparr>address = 0x0A000002, port = 80\<rparr>"
  by (simp_all add: connected_def) (simp_all add: example_conn_def)

theorem orderly_release_witness:
  "\<exists>sA3 sB3 ack2 fin2 sA2 t'. emits example_env \<lparr>address = 0x0A000002, port = 80\<rparr>
       \<lparr>address = 0x0A000003, port = 5000\<rparr> ack2 sA2 sA3
     \<and> process_incoming_packet example_env (datagram \<lparr>address = 0x0A000003, port = 5000\<rparr>
         \<lparr>address = 0x0A000002, port = 80\<rparr> fin2) sA2 = Returns 1 sA3
     \<and> get_tcb sA3 1 = Some t' \<and> current_state t' = CLOSED"
proof -
  have "send_stream example_peer = []" by (simp add: example_peer_def TCB_new_def)
  then show ?thesis
    using orderly_release [OF connected_example(1) [of "[]"] connected_example(2), of example_env example_env]
    by simp blast
qed

end
