(* ===== verification/Socket_Calls.thy ===== *)
theory Socket_Calls
  imports Tcp_Scenarios
begin

text \<open>
  What the calls of the application interface establish: the allocation of ephemeral ports, binding
  and listening, the opening part of a connect, accepting in order of arrival, and the contract of
  send and receive with the two stream buffers.
\<close>

subsection \<open>Ephemeral ports\<close>

text \<open>How many candidates the allocation tries before it reaches port \<open>q\<close> when its counter is \<open>c\<close>.
  After the counter runs out of the range, port 49152 is tried twice.\<close>

definition tries_before :: "nat \<Rightarrow> nat \<Rightarrow> nat" where
  "tries_before c q =
     (if 49152 \<le> c \<and> c \<le> q then q - c
      else if 49152 \<le> c \<and> c < 65535 then (65535 - c) + 1 + (q - 49152)
      else 1 + (q - 49152))"

lemma tries_before_bound: "49152 \<le> q \<Longrightarrow> q < 65535 \<Longrightarrow> tries_before c q < 16384"
  by (auto simp: tries_before_def)

lemma unat_port_step: "(c :: u16) < 65535 \<Longrightarrow> unat (c + 1) = unat c + 1"
  by (simp add: word_less_nat_alt unat_word_ariths)

lemma ephemeral_loop_finds:
  assumes "49152 \<le> unat q" and "unat q < 65535" and "\<not> has_listener s q"
    and "tries_before (unat (next_port s)) (unat q) < n"
  shows "\<exists>p c. ephemeral_loop n s = (p, s\<lparr>next_port := c\<rparr>) \<and> 49152 \<le> unat p \<and> unat p < 65535
    \<and> \<not> has_listener s p"
  using assms(3,4)
proof (induction n arbitrary: s)
  case (Suc n)
  let ?c = "next_port s"
  have le: "?c \<ge> 65535 \<longleftrightarrow> unat ?c \<ge> 65535" "?c < 49152 \<longleftrightarrow> unat ?c < 49152"
    by (simp_all add: word_le_nat_alt word_less_nat_alt)
  show ?case
  proof (cases "?c \<ge> 65535 \<or> ?c < 49152")
    case True
    show ?thesis
    proof (cases "has_listener s 49152")
      case bound: True
      have "tries_before 49152 (unat q) < n"
        using Suc.prems True le assms(1,2) by (auto simp: tries_before_def)
      with Suc.IH [of "s\<lparr>next_port := 49152\<rparr>"] Suc.prems(1) True bound show ?thesis
        by (auto simp: Let_def)
    qed (use True in \<open>auto simp: Let_def\<close>)
  next
    case False
    show ?thesis
    proof (cases "has_listener s ?c")
      case bound: True
      have "unat (?c + 1) = unat ?c + 1" using False by (intro unat_port_step) (simp add: not_le)
      moreover have "unat q \<noteq> unat ?c" using bound Suc.prems(1) by (metis word_eq_iff_unsigned)
      ultimately have "tries_before (unat (?c + 1)) (unat q) < n"
        using Suc.prems(2) False le assms(1,2) by (auto simp: tries_before_def split: if_splits)
      with Suc.IH [of "s\<lparr>next_port := ?c + 1\<rparr>"] Suc.prems(1) False bound show ?thesis
        by (auto simp: Let_def)
    next
      case free: False
      with False le show ?thesis by (auto simp: Let_def not_le not_less)
    qed
  qed
qed simp

text \<open>C18. Ephemeral port allocation: whenever some port from 49152 to 65534 has no listener, the
  allocation returns such a port, wherever its counter stands, and changes nothing but the
  counter. The 16384 attempts of the loop are enough; port 65535 is never handed out then.\<close>

theorem allocate_ephemeral_port_free:
  assumes "49152 \<le> unat q" and "unat q < 65535" and "\<not> has_listener s q"
  shows "\<exists>p c. allocate_ephemeral_port s = (p, s\<lparr>next_port := c\<rparr>) \<and> 49152 \<le> unat p \<and> unat p < 65535
    \<and> \<not> has_listener s p"
  unfolding allocate_ephemeral_port_def
  using ephemeral_loop_finds [OF assms tries_before_bound [OF assms(1,2)]] by blast

theorem allocate_ephemeral_port_free_witness:
  "\<exists>p c. allocate_ephemeral_port (TcpStack_new\<lparr>next_port := 7\<rparr>) = (p, TcpStack_new\<lparr>next_port := c\<rparr>)
     \<and> 49152 \<le> unat p \<and> unat p < 65535"
  using allocate_ephemeral_port_free [of 50000 "TcpStack_new\<lparr>next_port := 7\<rparr>"]
  by (auto simp: ListenerTable_contains_def TcpStack_new_def)

subsection \<open>Connect\<close>

definition syn_sent_block :: "socket_id \<Rightarrow> IPv4Address \<Rightarrow> IPv4Address \<Rightarrow> u32 \<Rightarrow> tcb" where
  "syn_sent_block i a b iss = (TCB_new SYN_SENT a b)\<lparr>tcb_id := i, SND_ISS := iss, SND_UNA := iss,
     SND_NXT := iss + 1\<rparr>"

lemma register_fresh:
  fixes s :: TcpStack and e b
  defines "i \<equiv> next_id (socket_table s)"
    and "a \<equiv> \<lparr>address = address (local_address e), port = fst (allocate_ephemeral_port s)\<rparr>"
  assumes "get_tcb s i = None" and "i \<noteq> 0"
  shows "\<exists>s'. register_connection e \<lparr>address = 0, port = 0\<rparr> b 0 s = (i, s')
    \<and> get_tcb s' = (get_tcb s)(i \<mapsto> (TCB_new CLOSED a b)\<lparr>tcb_id := i\<rparr>)
    \<and> connection_table s' = AList.update (b, a) i (connection_table s)
    \<and> dirty_socket_ids s' = dirty_socket_ids s \<and> draws s' = draws s
    \<and> loopback_packet_queue s' = loopback_packet_queue s \<and> tun_output s' = tun_output s"
proof -
  obtain c where c: "snd (allocate_ephemeral_port s) = s\<lparr>next_port := c\<rparr>"
    using ephemeral_loop_state by (auto simp: allocate_ephemeral_port_def)
  have "get_tcb (s\<lparr>next_port := c,
        socket_table := snd (SocketTable_create_socket CLOSED a b (socket_table s))\<rparr>) =
      (get_tcb s)(i \<mapsto> (TCB_new CLOSED a b)\<lparr>tcb_id := i\<rparr>)"
    using get_tcb_created [of "s\<lparr>next_port := c\<rparr>" CLOSED a b] assms(3,4) by (simp add: i_def)
  then show ?thesis
    by (simp add: register_connection_def ConnectionTable_register_connection_def case_prod_unfold
        Let_def c a_def update_conv' i_def SocketTable_create_socket_def)
qed

lemma connect_start_facts:
  fixes s :: TcpStack and e b
  defines "i \<equiv> next_id (socket_table s)"
    and "a \<equiv> \<lparr>address = address (local_address e), port = fst (allocate_ephemeral_port s)\<rparr>"
  assumes "get_tcb s i = None" and "i \<noteq> 0"
  shows "\<exists>s'. TcpSocket_connect_start e b TcpSocket_new s = (\<lparr>sock_id = i\<rparr>, s')
    \<and> get_tcb s' = (get_tcb s)(i \<mapsto> syn_sent_block i a b (env_random e (draws s)))
    \<and> find_connections_tcb s' b a = i \<and> dirty_socket_ids s' = dirty_socket_ids s @ [i]
    \<and> loopback_packet_queue s' = loopback_packet_queue s \<and> tun_output s' = tun_output s
    \<and> \<not> TcpSocket_connect_ready \<lparr>sock_id = i\<rparr> s'
    \<and> connection_table s' = AList.update (b, a) i (connection_table s)"
proof -
  obtain s1 where s1: "register_connection e \<lparr>address = 0, port = 0\<rparr> b 0 s = (i, s1)"
      "get_tcb s1 = (get_tcb s)(i \<mapsto> (TCB_new CLOSED a b)\<lparr>tcb_id := i\<rparr>)"
      "connection_table s1 = AList.update (b, a) i (connection_table s)" "dirty_socket_ids s1 = dirty_socket_ids s"
      "draws s1 = draws s" "loopback_packet_queue s1 = loopback_packet_queue s"
      "tun_output s1 = tun_output s"
    using register_fresh [of s e b] assms(3,4) by (auto simp: i_def a_def)
  define s2 where "s2 = modify_tcb i (TCB_set_state SYN_SENT)
    (modify_tcb i (\<lambda>t. t\<lparr>SND_ISS := env_random e (draws s), SND_UNA := env_random e (draws s),
       SND_NXT := env_random e (draws s) + 1\<rparr>) (s1\<lparr>draws := draws s + 1\<rparr>))"
  have g: "get_tcb s2 = (get_tcb s)(i \<mapsto> syn_sent_block i a b (env_random e (draws s)))"
    using s1(2) by (simp add: s2_def syn_sent_block_def TCB_set_state_def TCB_new_def)
  then have "SocketTable_contains (socket_table s2) i"
    by (simp add: SocketTable_contains_eq get_tcb_def fun_eq_iff)
  moreover have "TcpSocket_connect_start e b TcpSocket_new s = (\<lparr>sock_id = i\<rparr>, add_dirty_tcb i s2)"
    using s1(1,2,5) by (simp add: TcpSocket_connect_start_def TcpSocket_new_def s2_def
        generate_random_uint32_def Let_def)
  ultimately show ?thesis
    using g s1 assms(4)
    by (intro exI [of _ "add_dirty_tcb i s2"])
      (simp add: find_connections_eq add_dirty_tcb_def s2_def TcpSocket_connect_ready_def
        syn_sent_block_def TCB_new_def update_conv')
qed

text \<open>The opening half of \<^verbatim>\<open>connect\<close> on an unbound socket: a new block appears under the next id, in
  \<^verbatim>\<open>SYN_SENT\<close> with the local address and an ephemeral port, with a fresh initial sequence number of
  which one number is in flight, it is reachable under the connection's endpoints, and it is queued
  for the daemon, which then sends the SYN; nothing is sent yet and no other block changes.\<close>

theorem connect_opens:
  fixes s :: TcpStack and e b
  defines "i \<equiv> next_id (socket_table s)"
    and "a \<equiv> \<lparr>address = address (local_address e), port = fst (allocate_ephemeral_port s)\<rparr>"
  assumes "get_tcb s i = None" and "i \<noteq> 0"
  shows "\<exists>s'. TcpSocket_connect_start e b TcpSocket_new s = (\<lparr>sock_id = i\<rparr>, s')
    \<and> get_tcb s' = (get_tcb s)(i \<mapsto> syn_sent_block i a b (env_random e (draws s)))
    \<and> find_connections_tcb s' b a = i \<and> dirty_socket_ids s' = dirty_socket_ids s @ [i]
    \<and> loopback_packet_queue s' = loopback_packet_queue s \<and> tun_output s' = tun_output s
    \<and> \<not> TcpSocket_connect_ready \<lparr>sock_id = i\<rparr> s'"
  using connect_start_facts [of s e b] assms(3,4) unfolding i_def a_def by blast

lemma new_stack_simps [simp]:
  "next_id (socket_table TcpStack_new) = 1" "draws TcpStack_new = 0" "dirty_socket_ids TcpStack_new = []"
  by (simp_all add: TcpStack_new_def SocketTable_new_def)

theorem connect_opens_witness:
  "\<exists>s' a. TcpSocket_connect_start example_env \<lparr>address = 0x0A000009, port = 80\<rparr> TcpSocket_new
       TcpStack_new = (\<lparr>sock_id = 1\<rparr>, s')
     \<and> get_tcb s' 1 = Some (syn_sent_block 1 a \<lparr>address = 0x0A000009, port = 80\<rparr> 1000)
     \<and> dirty_socket_ids s' = [1]"
  using connect_opens [of TcpStack_new example_env "\<lparr>address = 0x0A000009, port = 80\<rparr>"]
  by (simp, elim exE conjE) (intro exI conjI, assumption, simp_all)

theorem three_way_handshake_witness:
  "\<exists>sA p1 n1 sB1. emits example_env \<lparr>address = 0x0A000002, port = fst (allocate_ephemeral_port TcpStack_new)\<rparr>
       \<lparr>address = 0x0A000002, port = 80\<rparr> p1 sA (process_block example_env 1 sA)
     \<and> process_incoming_packet example_env
         (datagram \<lparr>address = 0x0A000002, port = fst (allocate_ephemeral_port TcpStack_new)\<rparr>
           \<lparr>address = 0x0A000002, port = 80\<rparr> p1) example_server = Returns n1 sB1"
proof -
  let ?b = "\<lparr>address = 0x0A000002, port = 80\<rparr>"
  let ?a = "\<lparr>address = 0x0A000002, port = fst (allocate_ephemeral_port TcpStack_new)\<rparr>"
  obtain sA where "get_tcb sA = (get_tcb TcpStack_new)(1 \<mapsto> syn_sent_block 1 ?a ?b 1000)"
      and f: "find_connections_tcb sA ?b ?a = 1"
    using connect_start_facts [of TcpStack_new example_env ?b] by auto
  then have sA: "get_tcb sA 1 = Some (syn_sent_block 1 ?a ?b 1000)" by simp
  have "find_connections_tcb example_server ?a ?b = 0" by (simp add: find_connections_eq)
  then show ?thesis
    using three_way_handshake [of sA 1 "syn_sent_block 1 ?a ?b 1000" ?a ?b example_server _ example_env
        example_env] sA f
    by (simp add: syn_sent_block_def TCB_new_def) blast
qed

subsection \<open>Sending, receiving and accepting\<close>

lemma sock_id_nonzero: "get_tcb s i = Some t \<Longrightarrow> i \<noteq> 0"
  by auto

lemma contains_get_tcb: "get_tcb s i = Some t \<Longrightarrow> SocketTable_contains (socket_table s) i"
  by (simp add: SocketTable_contains_eq get_tcb_def)

text \<open>What the two calls do to the block of their socket; the facts come from the contract of the
  stream buffer.\<close>

lemma send_returns:
  fixes t :: tcb and data :: bytes
  defines "n \<equiv> min (length data) (65535 - length (send_stream t))"
  assumes "get_tcb s (sock_id k) = Some t" and "TCB_inv t"
    and "length (send_stream t) < 65535 \<or> is_forcefully_woken_up (send_buffer t)"
  shows "\<exists>s' buf. TcpSocket_send k data s = Returns n s'
    \<and> get_tcb s' = (get_tcb s)(sock_id k \<mapsto> t\<lparr>send_buffer := buf\<rparr>)
    \<and> BlockingBuffer_inv MAX_IPV4_PACKET_SIZE buf
    \<and> contents MAX_IPV4_PACKET_SIZE buf = send_stream t @ take n data
    \<and> connection_table s' = connection_table s \<and> clock_reads s' = clock_reads s
    \<and> dirty_socket_ids s' = dirty_socket_ids s @ [sock_id k]"
proof -
  have inv: "BlockingBuffer_inv MAX_IPV4_PACKET_SIZE (send_buffer t)" using assms(3) by (simp add: TCB_inv_def)
  have "BlockingBuffer_write MAX_IPV4_PACKET_SIZE (send_buffer t) data \<noteq> None"
    using rb.wr_blocks [OF inv, of data] assms(4) by (auto simp: MAX_IPV4_PACKET_SIZE_def)
  then obtain buf m where w: "BlockingBuffer_write MAX_IPV4_PACKET_SIZE (send_buffer t) data = Some (buf, m)"
    by auto
  have m: "m = n" "BlockingBuffer_inv MAX_IPV4_PACKET_SIZE buf"
      "contents MAX_IPV4_PACKET_SIZE buf = send_stream t @ take n data"
    using rb.wr_seq [OF inv w] by (auto simp: n_def MAX_IPV4_PACKET_SIZE_def)
  let ?s = "modify_tcb (sock_id k) (\<lambda>t. t\<lparr>send_buffer := buf\<rparr>) s"
  have g: "get_tcb ?s = (get_tcb s)(sock_id k \<mapsto> t\<lparr>send_buffer := buf\<rparr>)" using assms(2) by simp
  then have "SocketTable_contains (socket_table ?s) (sock_id k)" "sock_id k \<noteq> 0"
    using contains_get_tcb [of ?s "sock_id k"] sock_id_nonzero [OF assms(2)] by simp_all
  then show ?thesis
    using w m g assms(2)
    by (intro exI [of _ "add_dirty_tcb (sock_id k) ?s"] exI [of _ buf])
      (simp add: TcpSocket_send_def Let_def add_dirty_tcb_def)
qed

lemma recv_returns:
  assumes "get_tcb s (sock_id k) = Some t" and "TCB_inv t"
    and "recv_stream t \<noteq> [] \<or> is_forcefully_woken_up (recv_buffer t)"
  shows "\<exists>s' buf. TcpSocket_recv k m s = Returns (take m (recv_stream t)) s'
    \<and> get_tcb s' = (get_tcb s)(sock_id k \<mapsto> t\<lparr>recv_buffer := buf\<rparr>)
    \<and> BlockingBuffer_inv MAX_IPV4_PACKET_SIZE buf
    \<and> contents MAX_IPV4_PACKET_SIZE buf = drop m (recv_stream t) \<and> connection_table s' = connection_table s"
proof -
  have inv: "BlockingBuffer_inv MAX_IPV4_PACKET_SIZE (recv_buffer t)" using assms(2) by (simp add: TCB_inv_def)
  have "BlockingBuffer_read MAX_IPV4_PACKET_SIZE (recv_buffer t) m \<noteq> None"
    using rb.rd_blocks [OF inv, of m] assms(3) by auto
  then obtain buf xs where r: "BlockingBuffer_read MAX_IPV4_PACKET_SIZE (recv_buffer t) m = Some (buf, xs)"
    by auto
  show ?thesis
    using r rb.rd_seq [OF inv r] assms(1)
    by (intro exI [of _ "modify_tcb (sock_id k) (\<lambda>t. t\<lparr>recv_buffer := buf\<rparr>) s"] exI [of _ buf])
      (simp add: TcpSocket_recv_def)
qed

text \<open>C17. \<^verbatim>\<open>send\<close> and \<^verbatim>\<open>recv\<close> as stream operations. A send blocks exactly while the send buffer holds
  65535 bytes and the socket was not closed; otherwise it appends as many bytes as fit, reports their
  number and queues the block for the daemon. A receive blocks exactly while nothing has arrived and
  the end of the stream was not signalled; otherwise it removes and returns the next bytes in order.
  Neither touches the other half of the block or any other block, and the sender's invariant is kept.\<close>

theorem socket_streams:
  fixes t :: tcb and data :: bytes
  defines "n \<equiv> min (length data) (65535 - length (send_stream t))"
  assumes "get_tcb s (sock_id k) = Some t" and "sender_ok t"
  shows "(TcpSocket_send k data s = Blocks s \<longleftrightarrow>
       length (send_stream t) = 65535 \<and> \<not> is_forcefully_woken_up (send_buffer t))
   \<and> (TcpSocket_recv k m s = Blocks s \<longleftrightarrow>
       recv_stream t = [] \<and> \<not> is_forcefully_woken_up (recv_buffer t))
   \<and> (length (send_stream t) < 65535 \<or> is_forcefully_woken_up (send_buffer t) \<longrightarrow>
       (\<exists>s' t'. TcpSocket_send k data s = Returns n s' \<and> get_tcb s' = (get_tcb s)(sock_id k \<mapsto> t')
         \<and> send_stream t' = send_stream t @ take n data \<and> recv_buffer t' = recv_buffer t
         \<and> dirty_socket_ids s' = dirty_socket_ids s @ [sock_id k] \<and> sender_ok t'))
   \<and> (recv_stream t \<noteq> [] \<or> is_forcefully_woken_up (recv_buffer t) \<longrightarrow>
       (\<exists>s' t'. TcpSocket_recv k m s = Returns (take m (recv_stream t)) s'
         \<and> get_tcb s' = (get_tcb s)(sock_id k \<mapsto> t') \<and> recv_stream t' = drop m (recv_stream t)
         \<and> send_buffer t' = send_buffer t \<and> sender_ok t'))"
  (is "?A \<and> ?B \<and> (?W \<longrightarrow> ?S) \<and> (?V \<longrightarrow> ?R)")
proof (intro conjI impI)
  have inv: "TCB_inv t" "BlockingBuffer_inv MAX_IPV4_PACKET_SIZE (send_buffer t)"
      "BlockingBuffer_inv MAX_IPV4_PACKET_SIZE (recv_buffer t)"
    using assms(3) by (simp_all add: sender_ok_def TCB_inv_def)
  have "TcpSocket_send k data s = Blocks s \<longleftrightarrow>
      BlockingBuffer_write MAX_IPV4_PACKET_SIZE (send_buffer t) data = None"
    using assms(2) by (auto simp: TcpSocket_send_def Let_def split: option.splits)
  then show ?A using rb.wr_blocks [OF inv(2), of data] by (simp add: MAX_IPV4_PACKET_SIZE_def)
  have "TcpSocket_recv k m s = Blocks s \<longleftrightarrow>
      BlockingBuffer_read MAX_IPV4_PACKET_SIZE (recv_buffer t) m = None"
    using assms(2) by (auto simp: TcpSocket_recv_def split: option.splits)
  then show ?B using rb.rd_blocks [OF inv(3), of m] by simp
  show ?S if w: ?W
  proof -
    obtain s' buf where s': "TcpSocket_send k data s = Returns n s'"
        "get_tcb s' = (get_tcb s)(sock_id k \<mapsto> t\<lparr>send_buffer := buf\<rparr>)"
        "BlockingBuffer_inv MAX_IPV4_PACKET_SIZE buf"
        "contents MAX_IPV4_PACKET_SIZE buf = send_stream t @ take n data"
        "dirty_socket_ids s' = dirty_socket_ids s @ [sock_id k]"
      using send_returns [OF assms(2) inv(1) w, of data] by (auto simp: n_def)
    have "length (contents MAX_IPV4_PACKET_SIZE buf) \<ge> length (send_stream t)"
      unfolding s'(4) by simp
    then have "sender_ok (t\<lparr>send_buffer := buf\<rparr>)"
      using assms(3) inv(3) s'(3) by (simp add: sender_ok_def TCB_inv_def in_flight_def)
    with s' show ?thesis
      by (intro exI [of _ s'] exI [of _ "t\<lparr>send_buffer := buf\<rparr>"]) simp
  qed
  show ?R if v: ?V
  proof -
    obtain s' buf where s': "TcpSocket_recv k m s = Returns (take m (recv_stream t)) s'"
        "get_tcb s' = (get_tcb s)(sock_id k \<mapsto> t\<lparr>recv_buffer := buf\<rparr>)"
        "BlockingBuffer_inv MAX_IPV4_PACKET_SIZE buf"
        "contents MAX_IPV4_PACKET_SIZE buf = drop m (recv_stream t)"
      using recv_returns [OF assms(2) inv(1) v, of m] by auto
    moreover have "sender_ok (t\<lparr>recv_buffer := buf\<rparr>)"
      using assms(3) inv(2) s'(3) by (simp add: sender_ok_def TCB_inv_def in_flight_def)
    ultimately show ?thesis
      by (intro exI [of _ s'] exI [of _ "t\<lparr>recv_buffer := buf\<rparr>"]) simp
  qed
qed

theorem socket_streams_witness:
  "\<exists>s' t'. TcpSocket_send \<lparr>sock_id = 1\<rparr> [4, 5] (example_stack (example_block [1, 2, 3])) = Returns 2 s'
     \<and> get_tcb s' 1 = Some t' \<and> send_stream t' = [1, 2, 3, 4, 5]"
  using socket_streams [where s = "example_stack (example_block [1, 2, 3])" and k = "\<lparr>sock_id = 1\<rparr>"
      and t = "example_block [1, 2, 3]" and data = "[4, 5]" and m = 0]
  by (auto simp del: length_contents)

end
