(* ===== verification/Stream_Transfer.thy ===== *)
theory Stream_Transfer
  imports Tcp_Closing Socket_Calls
begin

text \<open>
  The stream from one application to the other over an established connection between two stacks.
  A round (\<open>stream_run\<close>) is: the sender's \<^verbatim>\<open>process_block_\<close> emits a segment, the receiver processes it
  and emits an acknowledgement, the sender processes the acknowledgement, and the receiving
  application calls \<^verbatim>\<open>recv\<close>. The network delivers each datagram once and in order.
\<close>

inductive stream_run ::
  "stack_env \<Rightarrow> stack_env \<Rightarrow> socket_id \<Rightarrow> socket_id \<Rightarrow> IPv4Address \<Rightarrow> IPv4Address
     \<Rightarrow> TcpStack \<Rightarrow> TcpStack \<Rightarrow> bytes \<Rightarrow> TcpStack \<Rightarrow> TcpStack \<Rightarrow> bool"
  for ea eb :: stack_env and i j :: socket_id and a b :: IPv4Address where
  Done: "stream_run ea eb i j a b sA sB [] sA sB"
| Round: "emits ea a b p sA (process_block ea i sA) \<Longrightarrow>
    process_incoming_packet eb (datagram a b p) sB = Returns n sB1 \<Longrightarrow> emits eb b a ackp sB sB1 \<Longrightarrow>
    process_incoming_packet ea (datagram b a ackp) (process_block ea i sA) = Returns m sA1 \<Longrightarrow>
    TcpSocket_recv \<lparr>sock_id = j\<rparr> 65535 sB1 = Returns got sB2 \<Longrightarrow>
    stream_run ea eb i j a b sA1 sB2 rest sA' sB' \<Longrightarrow>
    stream_run ea eb i j a b sA sB (got @ rest) sA' sB'"

text \<open>The two ends between rounds: nothing is in flight, the receiver has read everything and expects
  the sender's next byte, and the window admits a full segment.\<close>

definition idle_pair ::
  "socket_id \<Rightarrow> socket_id \<Rightarrow> IPv4Address \<Rightarrow> IPv4Address \<Rightarrow> TcpStack \<Rightarrow> tcb \<Rightarrow> TcpStack \<Rightarrow> tcb \<Rightarrow> bool" where
  "idle_pair i j a b sA t sB u \<longleftrightarrow> connected sA i t a b \<and> current_state t = ESTABLISHED \<and> sender_ok t
     \<and> in_flight t = 0 \<and> 1460 \<le> unat (SND_WND t)
     \<and> connected sB j u b a \<and> current_state u = ESTABLISHED \<and> TCB_inv u \<and> recv_stream u = []
     \<and> RCV_NXT u = SND_NXT t"

lemma idle_chunk:
  "sender_ok t \<Longrightarrow> in_flight t = 0 \<Longrightarrow> 1460 \<le> unat (SND_WND t) \<Longrightarrow> next_chunk t = take 1460 (send_stream t)"
  by (simp add: sender_ok_def next_chunk_eq min_def)

lemma connected_find: "connected s i t a b \<Longrightarrow> find_connections_tcb s b a = i"
  by (simp add: connected_def find_connections_eq)

text \<open>The daemon sends the next bytes of a connected block.\<close>

lemma segment_sent:
  fixes e :: stack_env
  assumes "connected s i t a b" and "current_state t = ESTABLISHED" and "sender_ok t"
    and "next_chunk t = data" and "data \<noteq> []"
  defines "t1 \<equiv> sent (env_now e (clock_reads s)) t"
  shows "emits e a b (create_writer_tcp_packet t data (SND_NXT t)) s (process_block e i s)"
    and "connected (process_block e i s) i t1 a b" and "current_state t1 = ESTABLISHED" and "sender_ok t1"
    and "SND_NXT t1 = SND_NXT t + of_nat (length data)" and "send_stream t1 = send_stream t"
    and "unat (in_flight t1) = unat (in_flight t) + length data"
proof -
  have t: "get_tcb s i = Some t" "src_address t = a" "dst_address t = b" using assms(1) by (simp_all add: connected_def)
  have ns: "current_state t \<noteq> SYN_SENT" using assms(2) by simp
  note A = sender_segment [OF t(1) assms(2,3) connected_find [OF assms(1)] assms(4,5), of e]
  show "emits e a b (create_writer_tcp_packet t data (SND_NXT t)) s (process_block e i s)"
    using A(1) [unfolded t(2,3)] .
  show "connected (process_block e i s) i t1 a b"
    using get_tcb_process_block [OF t(1) ns, of e] process_block_frame [OF t(1) ns, of e]
    unfolding t1_def by (intro connectedI [OF assms(1)]) (simp_all add: sent_def)
  show "current_state t1 = ESTABLISHED" "sender_ok t1" "SND_NXT t1 = SND_NXT t + of_nat (length data)"
    "send_stream t1 = send_stream t" "unat (in_flight t1) = unat (in_flight t) + length data"
    using A(4-8) by (simp_all add: t1_def del: length_contents)
qed

text \<open>A segment with everything that is in flight arrives, its acknowledgement comes back, and the
  application reads: the pair is idle again.\<close>

lemma segment_acknowledged:
  assumes "connected sA i t a b" and "current_state t = ESTABLISHED" and "sender_ok t"
    and "unat (in_flight t) = length data" and "data \<noteq> []" and "length data \<le> 1460"
    and "connected sB j u b a" and "current_state u = ESTABLISHED" and "TCB_inv u" and "recv_stream u = []"
    and "SND_NXT t = RCV_NXT u + of_nat (length data)" and "src_address v = a" and "dst_address v = b"
  shows "\<exists>n sB1 ackp sA1 t1 sB2 u2.
      process_incoming_packet eb (datagram a b (create_writer_tcp_packet v data q)) sB = Returns n sB1
    \<and> emits eb b a ackp sB sB1 \<and> process_incoming_packet ea (datagram b a ackp) sA = Returns 0 sA1
    \<and> TcpSocket_recv \<lparr>sock_id = j\<rparr> 65535 sB1 = Returns data sB2
    \<and> idle_pair i j a b sA1 t1 sB2 u2 \<and> send_stream t1 = drop (length data) (send_stream t)
    \<and> SND_NXT t1 = SND_NXT t"
proof -
  have d: "length data \<le> 65495" "length ([] :: bytes) + length data \<le> 65535" using assms(6) by simp_all
  have t: "get_tcb sA i = Some t" using assms(1) by (simp add: connected_def)
  obtain n sB1 u1 where B: "process_incoming_packet eb (datagram a b (create_writer_tcp_packet v data q)) sB =
      Returns n sB1" "connected sB1 j u1 b a" "current_state u1 = ESTABLISHED" "TCB_inv u1"
      "recv_stream u1 = data" "RCV_NXT u1 = SND_NXT t"
      "emits eb b a (control_packet u1 False True False False (SND_NXT u1) (RCV_NXT u1) 65535) sB sB1"
    using data_arrives [OF assms(7-9,12,13,5) d(1), of eb q] d(2) unfolding assms(10,11) append_Nil by blast
  have u1: "get_tcb sB1 j = Some u1" "src_address u1 = b" "dst_address u1 = a"
    using B(2) by (simp_all add: connected_def)
  obtain sA1 t1 where C: "process_incoming_packet ea (datagram b a
      (control_packet u1 False True False False (SND_NXT u1) (RCV_NXT u1) 65535)) sA = Returns 0 sA1"
      "get_tcb sA1 = (get_tcb sA)(i \<mapsto> t1)" "connection_table sA1 = connection_table sA"
      "SND_NXT t1 = SND_NXT t" "in_flight t1 = 0" "send_stream t1 = drop (length data) (send_stream t)"
      "unat (SND_WND t1) = 65535 - length data" "sender_ok t1" "current_state t1 = ESTABLISHED"
      "src_address t1 = src_address t" "dst_address t1 = dst_address t"
    using ack_arrives [OF t assms(2,3) connected_find [OF assms(1)] u1(2,3) B(4), of ea "SND_NXT u1"]
    unfolding B(5,6) assms(4) by blast
  obtain sB2 buf where D: "TcpSocket_recv \<lparr>sock_id = j\<rparr> 65535 sB1 = Returns data sB2"
      "get_tcb sB2 = (get_tcb sB1)(j \<mapsto> u1\<lparr>recv_buffer := buf\<rparr>)"
      "BlockingBuffer_inv MAX_IPV4_PACKET_SIZE buf" "contents MAX_IPV4_PACKET_SIZE buf = []"
      "connection_table sB2 = connection_table sB1"
    using recv_returns [of sB1 "\<lparr>sock_id = j\<rparr>" u1 65535] u1 B(4,5) assms(5,6) by auto
  have "connected sA1 i t1 a b" using C by (intro connectedI [OF assms(1)]) simp_all
  moreover have "connected sB2 j (u1\<lparr>recv_buffer := buf\<rparr>) b a"
    using D by (intro connectedI [OF B(2)]) simp_all
  moreover have "1460 \<le> unat (SND_WND t1)" using C(7) assms(6) by linarith
  ultimately have "idle_pair i j a b sA1 t1 sB2 (u1\<lparr>recv_buffer := buf\<rparr>)"
    using C B D by (simp add: idle_pair_def TCB_inv_def)
  then show ?thesis using B(1,7) C(1,4,6) D(1) by blast
qed

lemma stream_round:
  assumes "idle_pair i j a b sA t sB u" and "send_stream t \<noteq> []"
  shows "\<exists>p n sB1 ackp sA1 t1 sB2 u2. emits ea a b p sA (process_block ea i sA)
    \<and> process_incoming_packet eb (datagram a b p) sB = Returns n sB1 \<and> emits eb b a ackp sB sB1
    \<and> process_incoming_packet ea (datagram b a ackp) (process_block ea i sA) = Returns 0 sA1
    \<and> TcpSocket_recv \<lparr>sock_id = j\<rparr> 65535 sB1 = Returns (take 1460 (send_stream t)) sB2
    \<and> idle_pair i j a b sA1 t1 sB2 u2 \<and> send_stream t1 = drop 1460 (send_stream t)
    \<and> SND_NXT t1 = SND_NXT t + of_nat (length (take 1460 (send_stream t)))"
proof -
  let ?d = "take 1460 (send_stream t)" and ?t = "sent (env_now ea (clock_reads sA)) t"
  have h: "connected sA i t a b" "current_state t = ESTABLISHED" "sender_ok t" "in_flight t = 0"
      "1460 \<le> unat (SND_WND t)" "connected sB j u b a" "current_state u = ESTABLISHED" "TCB_inv u"
      "recv_stream u = []" "RCV_NXT u = SND_NXT t"
    using assms(1) by (simp_all add: idle_pair_def)
  have t: "src_address t = a" "dst_address t = b" using h(1) by (simp_all add: connected_def)
  have d: "?d \<noteq> []" "length ?d \<le> 1460" using assms(2) by auto
  note A = segment_sent [OF h(1-3) idle_chunk [OF h(3-5)] d(1), of ea]
  have "drop (length ?d) (send_stream ?t) = drop 1460 (send_stream t)" using A(6) by (simp add: min_def)
  then show ?thesis
    using segment_acknowledged [OF A(2-4) _ d h(6-9) _ t, of eb "SND_NXT t" ea] A(1,5,7) h(4,10)
    by (simp del: length_take) blast
qed

text \<open>Rounds until the send buffer is empty.\<close>

lemma stream_rounds:
  assumes "idle_pair i j a b sA t sB u"
  shows "\<exists>sA' t' sB' u'. stream_run ea eb i j a b sA sB (send_stream t) sA' sB'
    \<and> idle_pair i j a b sA' t' sB' u' \<and> send_stream t' = []
    \<and> SND_NXT t' = SND_NXT t + of_nat (length (send_stream t))"
  using assms
proof (induction "length (send_stream t)" arbitrary: sA t sB u rule: less_induct)
  case less
  show ?case
  proof (cases "send_stream t = []")
    case True
    then have "stream_run ea eb i j a b sA sB (send_stream t) sA sB"
      "SND_NXT t = SND_NXT t + of_nat (length (send_stream t))"
      by (simp_all only: Done list.size) simp
    with less.prems True show ?thesis by blast
  next
    case False
    obtain p n sB1 ackp sA1 t1 sB2 u2 where r: "emits ea a b p sA (process_block ea i sA)"
        "process_incoming_packet eb (datagram a b p) sB = Returns n sB1" "emits eb b a ackp sB sB1"
        "process_incoming_packet ea (datagram b a ackp) (process_block ea i sA) = Returns 0 sA1"
        "TcpSocket_recv \<lparr>sock_id = j\<rparr> 65535 sB1 = Returns (take 1460 (send_stream t)) sB2"
        "idle_pair i j a b sA1 t1 sB2 u2" "send_stream t1 = drop 1460 (send_stream t)"
        "SND_NXT t1 = SND_NXT t + of_nat (length (take 1460 (send_stream t)))"
      using stream_round [OF less.prems False, of ea eb] by blast
    have "length (drop 1460 (send_stream t)) < length (send_stream t)"
      using False by (cases "send_stream t") (simp_all only: length_drop list.size, simp)
    then have "length (send_stream t1) < length (send_stream t)" by (simp only: r(7))
    from less.hyps [OF this r(6)] obtain sA' t' sB' u' where
        s: "stream_run ea eb i j a b sA1 sB2 (drop 1460 (send_stream t)) sA' sB'"
        "idle_pair i j a b sA' t' sB' u'" "send_stream t' = []"
        "SND_NXT t' = SND_NXT t1 + of_nat (length (drop 1460 (send_stream t)))"
      unfolding r(7) by blast
    have "stream_run ea eb i j a b sA sB (take 1460 (send_stream t) @ drop 1460 (send_stream t)) sA' sB'"
      using Round [OF r(1-5) s(1)] .
    moreover have "SND_NXT t' = SND_NXT t + of_nat (length (send_stream t))"
      unfolding s(4) r(8) add.assoc of_nat_add [symmetric] length_append [symmetric] append_take_drop_id ..
    ultimately show ?thesis using s(2,3) by (simp only: append_take_drop_id) blast
  qed
qed

end
