(* ===== verification/Byte_Flow.thy ===== *)
theory Byte_Flow
  imports Stream_Transfer "HOL-Library.Sublist"
begin

text \<open>
  One direction of an established connection while segments and acknowledgements are under way. The
  positions of the sender and the receiver are counted in bytes from the start of the stream, so that
  the 32-bit sequence numbers are these counts above a common base, modulo \<open>2\<^sup>3\<^sup>2\<close>. The relation \<open>flow\<close>
  says where every byte of the stream is: read by the application, in the receive buffer, in a
  segment under way, or not yet sent; and that the segments under way fit into the receive buffer.
  The lemmas show that each operation of the two blocks keeps it.
\<close>

subsection \<open>Acknowledgements under way\<close>

text \<open>An acknowledgement is its number and its window. Those under way, in order of sending, lead from the
  position \<open>una\<close> to the position \<open>rcv\<close> of the receiver, and the right edge of the window that they
  announce never moves back.\<close>

fun acks_ok :: "u32 \<Rightarrow> nat \<Rightarrow> nat \<Rightarrow> (u32 \<times> u16) list \<Rightarrow> nat \<Rightarrow> nat \<Rightarrow> bool" where
  "acks_ok base una edge [] rcv right_edge \<longleftrightarrow> una = rcv \<and> edge \<le> right_edge"
| "acks_ok base una edge ((y, w) # rs) rcv right_edge \<longleftrightarrow>
     (\<exists>c. y = base + of_nat c \<and> una \<le> c \<and> edge \<le> c + unat w
        \<and> acks_ok base c (c + unat w) rs rcv right_edge)"

lemma acks_ok_bounds:
  "acks_ok base una edge rs rcv right_edge \<Longrightarrow> una \<le> rcv \<and> edge \<le> right_edge"
  by (induction base una edge rs rcv right_edge rule: acks_ok.induct) force+

lemma acks_ok_mono:
  "acks_ok base una edge rs rcv right_edge \<Longrightarrow> right_edge \<le> right_edge' \<Longrightarrow>
     acks_ok base una edge rs rcv right_edge'"
  by (induction base una edge rs rcv right_edge rule: acks_ok.induct) fastforce+

lemma acks_ok_snoc:
  assumes "acks_ok base una edge rs rcv right_edge" and "rcv \<le> rcv'" and "right_edge \<le> rcv' + unat w"
    and "rcv' + unat w \<le> right_edge'"
  shows "acks_ok base una edge (rs @ [(base + of_nat rcv', w)]) rcv' right_edge'"
  using assms by (induction base una edge rs rcv right_edge rule: acks_ok.induct) fastforce+

subsection \<open>Where the bytes are\<close>

text \<open>The data \<open>h\<close> that was handed to the sending block \<open>t\<close>, the data \<open>g\<close> that was taken from the receiving
  block \<open>u\<close>, the payloads \<open>ds\<close> under way from \<open>t\<close> to \<open>u\<close>, and the acknowledgements \<open>rs\<close> under way from
  \<open>u\<close> to \<open>t\<close>.\<close>

definition flow :: "tcb \<Rightarrow> tcb \<Rightarrow> bytes \<Rightarrow> bytes \<Rightarrow> bytes list \<Rightarrow> (u32 \<times> u16) list \<Rightarrow> bool" where
  "flow t u h g ds rs \<longleftrightarrow> (\<exists>base una nxt rcv.
     SND_UNA t = base + of_nat una \<and> SND_NXT t = base + of_nat nxt \<and> RCV_NXT u = base + of_nat rcv
     \<and> acks_ok base una (una + unat (SND_WND t)) rs rcv (rcv + (65535 - length (recv_stream u)))
     \<and> rcv \<le> nxt \<and> nxt \<le> una + unat (SND_WND t) \<and> nxt \<le> length h
     \<and> send_stream t = drop una h \<and> g @ recv_stream u = take rcv h
     \<and> concat ds = drop rcv (take nxt h))"

lemma flowE:
  assumes "flow t u h g ds rs" and "TCB_inv t"
  obtains base una nxt rcv where "SND_UNA t = base + of_nat una" "SND_NXT t = base + of_nat nxt"
    "RCV_NXT u = base + of_nat rcv"
    "acks_ok base una (una + unat (SND_WND t)) rs rcv (rcv + (65535 - length (recv_stream u)))"
    "una \<le> rcv" "rcv \<le> nxt" "nxt \<le> una + unat (SND_WND t)" "nxt \<le> length h"
    "send_stream t = drop una h" "g @ recv_stream u = take rcv h" "concat ds = drop rcv (take nxt h)"
    "unat (in_flight t) = nxt - una" "nxt - una \<le> 65535" "sender_ok t"
proof -
  obtain base una nxt rcv where f: "SND_UNA t = base + of_nat una" "SND_NXT t = base + of_nat nxt"
    "RCV_NXT u = base + of_nat rcv"
    "acks_ok base una (una + unat (SND_WND t)) rs rcv (rcv + (65535 - length (recv_stream u)))"
    "rcv \<le> nxt" "nxt \<le> una + unat (SND_WND t)" "nxt \<le> length h"
    "send_stream t = drop una h" "g @ recv_stream u = take rcv h" "concat ds = drop rcv (take nxt h)"
    using assms(1) unfolding flow_def by blast
  have "una \<le> rcv" using acks_ok_bounds [OF f(4)] by simp
  then have "in_flight t = of_nat (nxt - una)" using f(1,2,5) by (simp add: in_flight_def)
  moreover have "nxt - una \<le> length (send_stream t)" using f(7) unfolding f(8) by simp
  moreover have le: "nxt - una \<le> 65535"
    using stream_bound [OF assms(2)] f(7) unfolding f(8) by simp
  ultimately have "unat (in_flight t) = nxt - una" "unat (in_flight t) \<le> length (send_stream t)"
    by (simp_all add: unat_of_nat_small del: length_contents)
  then show thesis
    using that f \<open>una \<le> rcv\<close> le assms(2) by (simp only: sender_ok_def)
qed

text \<open>Only these fields matter.\<close>

lemma flow_cong:
  assumes "SND_UNA t' = SND_UNA t" "SND_NXT t' = SND_NXT t" "SND_WND t' = SND_WND t"
    "send_buffer t' = send_buffer t" "RCV_NXT u' = RCV_NXT u" "recv_buffer u' = recv_buffer u"
  shows "flow t' u' = flow t u"
  using assms by (intro ext) (simp add: flow_def)

text \<open>What the application has read is a prefix of what the other one has handed over.\<close>

lemma flow_prefix:
  assumes "flow t u h g ds rs"
  shows "prefix (g @ recv_stream u) h"
  using assms take_is_prefix by (auto simp: flow_def simp del: length_contents)

subsection \<open>The operations\<close>

text \<open>A segment under way fits into the receive buffer.\<close>

lemma recv_bound: "TCB_inv u \<Longrightarrow> length (recv_stream u) \<le> 65535"
  using rb.bounded [of MAX_IPV4_PACKET_SIZE "recv_buffer u"]
  by (simp add: TCB_inv_def MAX_IPV4_PACKET_SIZE_def)

lemma flow_fits:
  assumes "flow t u h g (d # ds) rs" and "TCB_inv t" and "TCB_inv u"
  shows "length (recv_stream u) + length d \<le> 65535"
proof -
  obtain base una nxt rcv where f: "rcv \<le> nxt" "nxt \<le> una + unat (SND_WND t)" "nxt \<le> length h"
      "concat (d # ds) = drop rcv (take nxt h)"
      "acks_ok base una (una + unat (SND_WND t)) rs rcv (rcv + (65535 - length (recv_stream u)))"
    using assms(1,2) by (rule flowE)
  have "length (concat (d # ds)) = nxt - rcv" using f(3) unfolding f(4) by simp
  then have "length d \<le> nxt - rcv" by simp
  moreover have "nxt \<le> rcv + (65535 - length (recv_stream u))"
    using acks_ok_bounds [OF f(5)] f(2) by linarith
  ultimately show ?thesis using recv_bound [OF assms(3)] by linarith
qed

text \<open>The applications.\<close>

lemma flow_handed:
  assumes "flow t u h g ds rs" and "TCB_inv t" and "send_stream t' = send_stream t @ xs"
    and "SND_UNA t' = SND_UNA t" "SND_NXT t' = SND_NXT t" "SND_WND t' = SND_WND t"
  shows "flow t' u (h @ xs) g ds rs"
proof -
  obtain base una nxt rcv where f: "SND_UNA t = base + of_nat una" "SND_NXT t = base + of_nat nxt"
    "RCV_NXT u = base + of_nat rcv"
    "acks_ok base una (una + unat (SND_WND t)) rs rcv (rcv + (65535 - length (recv_stream u)))"
    "una \<le> rcv" "rcv \<le> nxt" "nxt \<le> una + unat (SND_WND t)" "nxt \<le> length h"
    "send_stream t = drop una h" "g @ recv_stream u = take rcv h" "concat ds = drop rcv (take nxt h)"
    using assms(1,2) by (rule flowE)
  show ?thesis
    unfolding flow_def assms(3-6)
    by (rule exI [of _ base], rule exI [of _ una], rule exI [of _ nxt], rule exI [of _ rcv])
      (use f in \<open>simp del: length_contents\<close>)
qed

lemma flow_taken:
  assumes "flow t u h g ds rs" and "recv_stream u = data @ recv_stream u'" and "RCV_NXT u' = RCV_NXT u"
  shows "flow t u' h (g @ data) ds rs"
proof -
  have "65535 - length (recv_stream u) \<le> 65535 - length (recv_stream u')"
    unfolding assms(2) by simp
  then have "acks_ok base una edge rs rcv (rcv + (65535 - length (recv_stream u')))"
    if "acks_ok base una edge rs rcv (rcv + (65535 - length (recv_stream u)))" for base una edge rcv
    using acks_ok_mono [OF that] by simp
  then show ?thesis
    using assms(1) unfolding flow_def assms(3) append_assoc assms(2) [symmetric] by blast
qed

text \<open>The daemon of the sender.\<close>

lemma flow_transmit:
  assumes "flow t u h g ds rs" and "TCB_inv t" and "SND_NXT t' = SND_NXT t + of_nat (length (next_chunk t))"
    and "SND_UNA t' = SND_UNA t" "SND_WND t' = SND_WND t" "send_buffer t' = send_buffer t"
  shows "flow t' u h g (ds @ [next_chunk t]) rs"
proof -
  obtain base una nxt rcv where f: "SND_UNA t = base + of_nat una" "SND_NXT t = base + of_nat nxt"
    "RCV_NXT u = base + of_nat rcv"
    "acks_ok base una (una + unat (SND_WND t)) rs rcv (rcv + (65535 - length (recv_stream u)))"
    "una \<le> rcv" "rcv \<le> nxt" "nxt \<le> una + unat (SND_WND t)" "nxt \<le> length h"
    "send_stream t = drop una h" "g @ recv_stream u = take rcv h" "concat ds = drop rcv (take nxt h)"
    "unat (in_flight t) = nxt - una"
    using assms(1,2) by (rule flowE)
  define k where "k = length (next_chunk t)"
  have c: "next_chunk t = take (min (una + unat (SND_WND t) - nxt) 1460) (drop nxt h)"
  proof -
    have "unat (SND_WND t) - (nxt - una) = una + unat (SND_WND t) - nxt" "nxt - una + una = nxt"
      using f(5,6) by linarith+
    then show ?thesis unfolding next_chunk_eq [OF assms(2)] f(9,12) drop_drop by simp
  qed
  have k: "nxt + k \<le> una + unat (SND_WND t)" "nxt + k \<le> length h"
    using f(7,8) unfolding k_def c by auto
  have "next_chunk t = take k (drop nxt h)" unfolding k_def by (subst c) (simp add: c take_all_iff min_def)
  also have "\<dots> = drop nxt (take (nxt + k) h)" by (simp add: drop_take)
  finally have "concat ds @ next_chunk t = drop rcv (take (nxt + k) h)"
    using f(6,8) unfolding f(11) by (simp add: take_add)
  then show ?thesis
    unfolding flow_def assms(3-6) k_def [symmetric]
    by (intro exI [of _ base] exI [of _ una] exI [of _ "nxt + k"] exI [of _ rcv])
      (use f k in \<open>simp del: length_contents\<close>)
qed

text \<open>Every segment that the receiving block sends carries its acknowledgement.\<close>

lemma unat_advertised: "TCB_inv u \<Longrightarrow> unat (advertised_window u) = 65535 - length (recv_stream u)"
  by (simp add: advertised_window_def BlockingBuffer_available_capacity_def MAX_IPV4_PACKET_SIZE_def
      min_def unat_of_nat_small)

lemma flow_announce:
  assumes "flow t u h g ds rs" and "TCB_inv u" and "RCV_NXT u' = RCV_NXT u" "recv_buffer u' = recv_buffer u"
  shows "flow t u' h g ds (rs @ [(RCV_NXT u, advertised_window u)])"
  using assms acks_ok_snoc [of _ _ _ rs _ _ _ "advertised_window u"] unat_advertised [OF assms(2)]
  unfolding flow_def by (simp del: length_contents) (metis order_refl)

text \<open>An acknowledgement arrives at the sending block.\<close>

lemma flow_acknowledged:
  assumes "flow t u h g ds ((TcpPacketView_ack_num_ntoh packet, TcpPacketView_window_ntoh packet) # rs)"
    and "TCB_inv t"
  shows "flow (ack_tcb packet t) u h g ds rs"
proof -
  let ?y = "TcpPacketView_ack_num_ntoh packet" and ?w = "TcpPacketView_window_ntoh packet"
  obtain base una nxt rcv where f: "SND_UNA t = base + of_nat una" "SND_NXT t = base + of_nat nxt"
    "RCV_NXT u = base + of_nat rcv"
    "acks_ok base una (una + unat (SND_WND t)) ((?y, ?w) # rs) rcv (rcv + (65535 - length (recv_stream u)))"
    "una \<le> rcv" "rcv \<le> nxt" "nxt \<le> una + unat (SND_WND t)" "nxt \<le> length h"
    "send_stream t = drop una h" "g @ recv_stream u = take rcv h" "concat ds = drop rcv (take nxt h)"
    "unat (in_flight t) = nxt - una" "nxt - una \<le> 65535" "sender_ok t"
    using assms by (rule flowE)
  obtain c where c: "?y = base + of_nat c" "una \<le> c" "una + unat (SND_WND t) \<le> c + unat ?w"
      "acks_ok base c (c + unat ?w) rs rcv (rcv + (65535 - length (recv_stream u)))"
    using f(4) by auto
  have "c \<le> rcv" using acks_ok_bounds [OF c(4)] by simp
  then have n: "unat (?y - SND_UNA t) = c - una"
    using c(1,2) f(1,6,13) by (simp add: unat_of_nat_small flip: of_nat_diff)
  then have "unat (?y - SND_UNA t) \<le> unat (in_flight t)" using \<open>c \<le> rcv\<close> f(6,12) by simp
  note ack = ack_in_window [OF f(14) this]
  have "send_stream (ack_tcb packet t) = drop c h" using c(2) unfolding ack(2) f(9) n by simp
  moreover have "unat (SND_WND (ack_tcb packet t)) = unat ?w" unfolding ack(5) by simp
  ultimately show ?thesis
    unfolding flow_def ack(1,6)
    by (intro exI [of _ base] exI [of _ c] exI [of _ nxt] exI [of _ rcv])
      (use f c in \<open>simp del: length_contents\<close>)
qed

text \<open>Data arrives at the receiving block.\<close>

lemma flow_received:
  assumes "flow t u h g (d # ds) rs" and "TCB_inv t" and "TCB_inv u" and "TCB_inv u'"
    and "recv_stream u' = recv_stream u @ d" and "RCV_NXT u' = RCV_NXT u + of_nat (length d)"
  shows "flow t u' h g ds (rs @ [(RCV_NXT u', advertised_window u')])"
proof -
  obtain base una nxt rcv where f: "SND_UNA t = base + of_nat una" "SND_NXT t = base + of_nat nxt"
    "RCV_NXT u = base + of_nat rcv"
    "acks_ok base una (una + unat (SND_WND t)) rs rcv (rcv + (65535 - length (recv_stream u)))"
    "una \<le> rcv" "rcv \<le> nxt" "nxt \<le> una + unat (SND_WND t)" "nxt \<le> length h"
    "send_stream t = drop una h" "g @ recv_stream u = take rcv h" "concat (d # ds) = drop rcv (take nxt h)"
    using assms(1,2) by (rule flowE)
  define r where "r = rcv + length d"
  have "length (concat (d # ds)) = nxt - rcv" using f(8) unfolding f(11) by simp
  then have r: "r \<le> nxt" using f(6) by (simp add: r_def)
  have d: "d = take (length d) (drop rcv (take nxt h))" "concat ds = drop (length d) (drop rcv (take nxt h))"
    unfolding f(11) [symmetric] by simp_all
  have "take (length d) (drop rcv (take nxt h)) = take (length d) (drop rcv h)"
    using r by (simp add: drop_take r_def min_def)
  then have "take r h = take rcv h @ d" using d(1) by (simp add: r_def take_add)
  moreover have "concat ds = drop r (take nxt h)" using d(2) by (simp add: r_def add.commute)
  moreover have e: "r + (65535 - length (recv_stream u')) = rcv + (65535 - length (recv_stream u))"
    using flow_fits [OF assms(1-3)] unfolding assms(5) by (simp add: r_def del: length_contents)
  moreover have nxt: "RCV_NXT u' = base + of_nat r" using assms(6) f(3) by (simp add: r_def)
  moreover have "acks_ok base una (una + unat (SND_WND t)) (rs @ [(base + of_nat r, advertised_window u')]) r
      (r + (65535 - length (recv_stream u')))"
    unfolding unat_advertised [OF assms(4), symmetric]
    by (rule acks_ok_snoc [OF f(4)]) (use e in \<open>simp_all add: r_def unat_advertised [OF assms(4)] del: length_contents\<close>)
  ultimately show ?thesis
    unfolding flow_def assms(5) nxt
    by (intro exI [of _ base] exI [of _ una] exI [of _ nxt] exI [of _ r])
      (use f r in \<open>simp del: length_contents\<close>)
qed

lemma flow_no_data: "flow t u h g ([] # ds) rs = flow t u h g ds rs" "flow t u h g (ds @ [[]]) rs = flow t u h g ds rs"
  by (simp_all add: flow_def)

end
