(* ===== verification/Pipelined_Transfer.thy ===== *)
theory Pipelined_Transfer
  imports Byte_Flow
begin

text \<open>
  An established connection between two stacks in use by both applications at once: any number of
  segments and acknowledgements are under way in both directions, and the calls of the applications,
  the passes of the two daemons and the arrivals are interleaved in any order. The network delivers
  datagrams in order, loses none and duplicates none; the retransmission passes of the daemons are steps as long as the timer of
  this connection has not expired; neither side closes. Within each stack, other sockets may be used at the same time. Without
  these conditions the streams are not delivered intact: see \<open>Tcp_Divergences\<close> for duplicates and \<open>Tcp_Closing\<close> for the release.

  The lemmas show that in every such run each application reads a prefix of what the other one has
  handed over, that an arriving segment always finds room in the receive buffer, and when the
  transfer comes to a halt.
\<close>

subsection \<open>Runs\<close>

text \<open>A stack with the ghost variables of its application: everything that \<^verbatim>\<open>send\<close> has accepted and
  everything that \<^verbatim>\<open>recv\<close> has returned.\<close>

record node =
  stack :: TcpStack
  handed :: bytes
  got :: bytes

text \<open>What a step from \<open>s\<close> to \<open>s'\<close> puts on the path from \<open>a\<close> to \<open>b\<close>.\<close>

definition written :: "stack_env \<Rightarrow> IPv4Address \<Rightarrow> IPv4Address \<Rightarrow> TcpStack \<Rightarrow> TcpStack \<Rightarrow> bytes list" where
  "written e a b s s' =
     (if is_local e a b then drop (length (loopback_packet_queue s)) (loopback_packet_queue s')
      else drop (length (tun_output s)) (tun_output s'))"

lemma written_emits: "emits e a b p s s' \<Longrightarrow> written e a b s s' = [datagram a b p]"
  by (simp add: emits_def written_def)

lemma written_nothing:
  "loopback_packet_queue s' = loopback_packet_queue s \<Longrightarrow> tun_output s' = tun_output s \<Longrightarrow> written e a b s s' = []"
  by (simp add: written_def)

text \<open>The socket \<open>i\<close> at \<open>a\<close> and its daemon, with the datagrams on the way to it and from it. In a step
  \<open>Timer\<close>, the daemon looks for retransmissions and this socket is not due; in a step \<open>Other\<close>, the stack works for other
  sockets.\<close>

inductive node_step :: "stack_env \<Rightarrow> socket_id \<Rightarrow> IPv4Address \<Rightarrow> IPv4Address
    \<Rightarrow> node \<Rightarrow> bytes list \<Rightarrow> bytes list \<Rightarrow> node \<Rightarrow> bytes list \<Rightarrow> bytes list \<Rightarrow> bool"
  for e :: stack_env and i :: socket_id and a b :: IPv4Address where
  Send: "TcpSocket_send \<lparr>sock_id = i\<rparr> data (stack x) = Returns n s' \<Longrightarrow>
    node_step e i a b x inq outq (x\<lparr>stack := s', handed := handed x @ take n data\<rparr>) inq outq"
| Recv: "TcpSocket_recv \<lparr>sock_id = i\<rparr> n (stack x) = Returns data s' \<Longrightarrow>
    node_step e i a b x inq outq (x\<lparr>stack := s', got := got x @ data\<rparr>) inq outq"
| Process: "process_block e i (stack x) = s' \<Longrightarrow>
    node_step e i a b x inq outq (x\<lparr>stack := s'\<rparr>) inq (outq @ written e a b (stack x) s')"
| Arrive: "process_incoming_packet e raw (stack x) = Returns n s' \<Longrightarrow>
    node_step e i a b x (raw # inq) outq (x\<lparr>stack := s'\<rparr>) inq (outq @ written e a b (stack x) s')"
| Timer: "\<forall>t. (i, t) \<in> set (sockets (socket_table (stack x))) \<longrightarrow> \<not> retransmit_due (env_now e (clock_reads (stack x))) t \<Longrightarrow>
    node_step e i a b x inq outq (x\<lparr>stack := check_retransmissions e (stack x)\<rparr>) inq outq"
| Other: "get_tcb s' i = get_tcb (stack x) i \<Longrightarrow>
    map_of (connection_table s') (b, a) = map_of (connection_table (stack x)) (b, a) \<Longrightarrow>
    map_of (connection_table s') (a, b) = map_of (connection_table (stack x)) (a, b) \<Longrightarrow>
    node_step e i a b x inq outq (x\<lparr>stack := s'\<rparr>) inq outq"

record network =
  left :: node
  right :: node
  to_right :: "bytes list"
  to_left :: "bytes list"

inductive net_step :: "stack_env \<Rightarrow> stack_env \<Rightarrow> socket_id \<Rightarrow> socket_id \<Rightarrow> IPv4Address \<Rightarrow> IPv4Address
    \<Rightarrow> network \<Rightarrow> network \<Rightarrow> bool"
  for ea eb :: stack_env and i j :: socket_id and a b :: IPv4Address where
  Left: "node_step ea i a b (left N) (to_left N) (to_right N) x inq outq \<Longrightarrow>
    net_step ea eb i j a b N (N\<lparr>left := x, to_left := inq, to_right := outq\<rparr>)"
| Right: "node_step eb j b a (right N) (to_right N) (to_left N) x inq outq \<Longrightarrow>
    net_step ea eb i j a b N (N\<lparr>right := x, to_right := inq, to_left := outq\<rparr>)"

lemma idle_pass:
  assumes "\<forall>t. (i, t) \<in> set (sockets (socket_table s)) \<longrightarrow> \<not> retransmit_due (env_now e (clock_reads s)) t"
  shows "get_tcb (check_retransmissions e s) i = get_tcb s i" and "connection_table (check_retransmissions e s) = connection_table s"
proof -
  have "get_tcb (retransmit_pass e now xs s) i = get_tcb s i \<and> connection_table (retransmit_pass e now xs s) = connection_table s"
    if "\<forall>t. (i, t) \<in> set xs \<longrightarrow> \<not> retransmit_due now t" for now xs s
    using that
  proof (induction xs arbitrary: s)
    case (Cons x xs)
    then show ?case
      by (cases x) (auto simp: get_tcb_retransmit_block retransmit_block_eq)
  qed simp
  from this [OF assms, of "s\<lparr>clock_reads := clock_reads s + 1\<rparr>"]
  show "get_tcb (check_retransmissions e s) i = get_tcb s i" "connection_table (check_retransmissions e s) = connection_table s"
    by (simp_all add: check_retransmissions_def system_clock_now_def SocketTable_for_each_socket_def)
qed

inductive_cases node_stepE: "node_step e i a b x inq outq x' inq' outq'"
inductive_cases net_stepE: "net_step ea eb i j a b N N'"

subsection \<open>Segments under way\<close>

text \<open>A segment as the other end reads it: acknowledgement number, window, payload.\<close>

type_synonym segment = "(u32 \<times> u16) \<times> bytes"

definition carries :: "IPv4Address \<Rightarrow> IPv4Address \<Rightarrow> segment \<Rightarrow> bytes \<Rightarrow> bool" where
  "carries a b g raw \<longleftrightarrow> (\<exists>p. raw = datagram a b p \<and> plain_packet p
     \<and> TcpHeader_source_port_ntoh (tcp_header p) = port a \<and> TcpHeader_dest_port_ntoh (tcp_header p) = port b
     \<and> TcpHeader_ack (tcp_header p) \<and> \<not> TcpHeader_fin (tcp_header p)
     \<and> g = ((TcpHeader_ack_num_ntoh (tcp_header p), TcpHeader_window_ntoh (tcp_header p)), tcp_payload p))"

lemma carries_control:
  "src_address t = a \<Longrightarrow> dst_address t = b \<Longrightarrow>
     carries a b ((y, advertised_window t), []) (datagram a b (control_packet t False True False False x y 65535))"
  unfolding carries_def by (rule exI [of _ "control_packet t False True False False x y 65535"]) simp

lemma carries_writer:
  "src_address t = a \<Longrightarrow> dst_address t = b \<Longrightarrow> length data \<le> 65495 \<Longrightarrow>
     carries a b ((RCV_NXT t, advertised_window t), data) (datagram a b (create_writer_tcp_packet t data x))"
  unfolding carries_def by (rule exI [of _ "create_writer_tcp_packet t data x"]) simp

text \<open>A segment arrives at its block.\<close>

lemma carries_arrives:
  assumes "connected s j u b a" and "current_state u = ESTABLISHED" and "carries a b ((y, w), d) raw"
  obtains packet where "process_incoming_packet e raw s = handle_established_state e j packet s"
    "TcpPacketView_ack packet" "\<not> TcpPacketView_fin packet" "TcpPacketView_ack_num_ntoh packet = y"
    "TcpPacketView_window_ntoh packet = w" "TcpPacketView_payload packet = d"
proof -
  obtain p where p: "raw = datagram a b p" "plain_packet p"
      "TcpHeader_source_port_ntoh (tcp_header p) = port a" "TcpHeader_dest_port_ntoh (tcp_header p) = port b"
      "TcpHeader_ack (tcp_header p)" "\<not> TcpHeader_fin (tcp_header p)"
      "y = TcpHeader_ack_num_ntoh (tcp_header p)" "w = TcpHeader_window_ntoh (tcp_header p)" "d = tcp_payload p"
    using assms(3) by (auto simp: carries_def)
  have "TcpHeader_data_offset (tcp_header p) = 5" using p(2) by (simp add: plain_packet_def)
  note view = TcpPacket_encode_view [OF this]
  show thesis
    using that [of "TcpPacket_encode p a b"] connected_arrival [OF assms(1) p(2-4)] assms(2) p(5-9)
    by (simp add: p(1) dispatch_simps view)
qed

subsection \<open>The invariant of the connection\<close>

text \<open>The two ends \<open>x\<close> and \<open>y\<close> with what is under way between them: the bytes flow in both directions.\<close>

definition linked :: "socket_id \<Rightarrow> socket_id \<Rightarrow> IPv4Address \<Rightarrow> IPv4Address \<Rightarrow> node \<Rightarrow> node
    \<Rightarrow> bytes list \<Rightarrow> bytes list \<Rightarrow> bool" where
  "linked i j a b x y xy yx \<longleftrightarrow> (\<exists>t u gs fs.
     connected (stack x) i t a b \<and> current_state t = ESTABLISHED \<and> TCB_inv t
     \<and> connected (stack y) j u b a \<and> current_state u = ESTABLISHED \<and> TCB_inv u
     \<and> list_all2 (carries a b) gs xy \<and> list_all2 (carries b a) fs yx
     \<and> flow t u (handed x) (got y) (map snd gs) (map fst fs)
     \<and> flow u t (handed y) (got x) (map snd fs) (map fst gs))"

lemma linked_sym: "linked i j a b x y xy yx \<Longrightarrow> linked j i b a y x yx xy"
  unfolding linked_def by blast

lemma linkedI:
  assumes "connected (stack x) i t a b" "current_state t = ESTABLISHED" "TCB_inv t"
    "connected (stack y) j u b a" "current_state u = ESTABLISHED" "TCB_inv u"
    "list_all2 (carries a b) gs xy" "list_all2 (carries b a) fs yx"
    "flow t u (handed x) (got y) (map snd gs) (map fst fs)"
    "flow u t (handed y) (got x) (map snd fs) (map fst gs)"
  shows "linked i j a b x y xy yx"
  using assms unfolding linked_def by blast

lemma linkedE:
  assumes "linked i j a b x y xy yx"
  obtains t u gs fs where "connected (stack x) i t a b" "current_state t = ESTABLISHED" "TCB_inv t"
    "connected (stack y) j u b a" "current_state u = ESTABLISHED" "TCB_inv u"
    "list_all2 (carries a b) gs xy" "list_all2 (carries b a) fs yx"
    "flow t u (handed x) (got y) (map snd gs) (map fst fs)"
    "flow u t (handed y) (got x) (map snd fs) (map fst gs)"
  using assms unfolding linked_def by blast

text \<open>The calls of the application.\<close>

lemma linked_send:
  assumes "linked i j a b x y xy yx" and "TcpSocket_send \<lparr>sock_id = i\<rparr> data (stack x) = Returns n s'"
  shows "linked i j a b (x\<lparr>stack := s', handed := handed x @ take n data\<rparr>) y xy yx"
  using assms(1)
proof (rule linkedE)
  fix t u gs fs
  assume l: "connected (stack x) i t a b" "current_state t = ESTABLISHED" "TCB_inv t"
    "connected (stack y) j u b a" "current_state u = ESTABLISHED" "TCB_inv u"
    "list_all2 (carries a b) gs xy" "list_all2 (carries b a) fs yx"
    "flow t u (handed x) (got y) (map snd gs) (map fst fs)"
    "flow u t (handed y) (got x) (map snd fs) (map fst gs)"
  have g: "get_tcb (stack x) i = Some t" using l(1) by (simp add: connected_def)
  then obtain buf where w: "BlockingBuffer_write MAX_IPV4_PACKET_SIZE (send_buffer t) data = Some (buf, n)"
      "s' = add_dirty_tcb i (modify_tcb i (\<lambda>t. t\<lparr>send_buffer := buf\<rparr>) (stack x))"
    using assms(2) by (auto simp: TcpSocket_send_def Let_def split: option.splits)
  let ?t = "t\<lparr>send_buffer := buf\<rparr>"
  have buf: "BlockingBuffer_inv MAX_IPV4_PACKET_SIZE buf"
      "contents MAX_IPV4_PACKET_SIZE buf = send_stream t @ take n data"
    using rb.wr_seq [OF _ w(1)] l(3) by (simp_all add: TCB_inv_def)
  have "connected s' i ?t a b"
    using g w(2) by (intro connectedI [OF l(1)]) (simp_all add: add_dirty_tcb_def)
  moreover have "flow ?t u (handed x @ take n data) (got y) (map snd gs) (map fst fs)"
    by (rule flow_handed [OF l(9,3)]) (use buf(2) in simp_all)
  moreover have "flow u ?t (handed y) (got x) (map snd fs) (map fst gs)"
    using l(10) flow_cong [of u u ?t t] by simp
  moreover have "TCB_inv ?t" "current_state ?t = ESTABLISHED" using l(2,3) buf(1) by (simp_all add: TCB_inv_def)
  ultimately show ?thesis using l(4-8) by (intro linkedI [of _ _ ?t]) simp_all
qed

lemma linked_recv:
  assumes "linked i j a b x y xy yx" and "TcpSocket_recv \<lparr>sock_id = i\<rparr> n (stack x) = Returns data s'"
  shows "linked i j a b (x\<lparr>stack := s', got := got x @ data\<rparr>) y xy yx"
  using assms(1)
proof (rule linkedE)
  fix t u gs fs
  assume l: "connected (stack x) i t a b" "current_state t = ESTABLISHED" "TCB_inv t"
    "connected (stack y) j u b a" "current_state u = ESTABLISHED" "TCB_inv u"
    "list_all2 (carries a b) gs xy" "list_all2 (carries b a) fs yx"
    "flow t u (handed x) (got y) (map snd gs) (map fst fs)"
    "flow u t (handed y) (got x) (map snd fs) (map fst gs)"
  have g: "get_tcb (stack x) i = Some t" using l(1) by (simp add: connected_def)
  then obtain buf where w: "BlockingBuffer_read MAX_IPV4_PACKET_SIZE (recv_buffer t) n = Some (buf, data)"
      "s' = modify_tcb i (\<lambda>t. t\<lparr>recv_buffer := buf\<rparr>) (stack x)"
    using assms(2) by (auto simp: TcpSocket_recv_def split: option.splits)
  let ?t = "t\<lparr>recv_buffer := buf\<rparr>"
  have buf: "BlockingBuffer_inv MAX_IPV4_PACKET_SIZE buf" "recv_stream t = data @ recv_stream ?t"
    using rb.rd_seq [OF _ w(1)] l(3) by (simp_all add: TCB_inv_def)
  have "connected s' i ?t a b"
    using g w(2) by (intro connectedI [OF l(1)]) simp_all
  moreover have "flow u ?t (handed y) (got x @ data) (map snd fs) (map fst gs)"
    by (rule flow_taken [OF l(10) buf(2)]) simp
  moreover have "flow ?t u (handed x) (got y) (map snd gs) (map fst fs)"
    using l(9) flow_cong [of ?t t u u] by simp
  moreover have "TCB_inv ?t" "current_state ?t = ESTABLISHED" using l(2,3) buf(1) by (simp_all add: TCB_inv_def)
  ultimately show ?thesis using l(4-8) by (intro linkedI [of _ _ ?t]) simp_all
qed

text \<open>The daemon sends.\<close>

lemma linked_process:
  assumes "linked i j a b x y xy yx"
  shows "linked i j a b (x\<lparr>stack := process_block e i (stack x)\<rparr>) y
    (xy @ written e a b (stack x) (process_block e i (stack x))) yx"
  using assms(1)
proof (rule linkedE)
  let ?s = "process_block e i (stack x)"
  fix t u gs fs
  assume l: "connected (stack x) i t a b" "current_state t = ESTABLISHED" "TCB_inv t"
    "connected (stack y) j u b a" "current_state u = ESTABLISHED" "TCB_inv u"
    "list_all2 (carries a b) gs xy" "list_all2 (carries b a) fs yx"
    "flow t u (handed x) (got y) (map snd gs) (map fst fs)"
    "flow u t (handed y) (got x) (map snd fs) (map fst gs)"
  have t: "get_tcb (stack x) i = Some t" "src_address t = a" "dst_address t = b"
    using l(1) by (simp_all add: connected_def)
  have st: "current_state t \<noteq> SYN_SENT" "sendable t" using l(2) by (simp_all add: sendable_def)
  let ?t = "sent (env_now e (clock_reads (stack x))) t"
  have c: "connected ?s i ?t a b"
    using get_tcb_process_block [OF t(1) st(1)] process_block_frame [OF t(1) st(1)]
    by (intro connectedI [OF l(1)]) (simp_all add: sent_def)
  have f: "flow ?t u (handed x) (got y) (map snd gs @ [next_chunk t]) (map fst fs)"
    by (rule flow_transmit [OF l(9,3)]) (use st(2) in \<open>simp_all add: sent_def\<close>)
  have inv: "TCB_inv ?t" "current_state ?t = ESTABLISHED" using l(2,3) by (simp_all add: sent_def TCB_inv_def)
  have r: "RCV_NXT ?t = RCV_NXT t" "recv_buffer ?t = recv_buffer t" by (simp_all add: sent_def)
  show ?thesis
  proof (cases "next_chunk t = []")
    case True
    then have "written e a b (stack x) ?s = []"
      using process_block_output [OF t(1) st(1), of e] by (simp add: written_nothing)
    moreover have "flow u ?t (handed y) (got x) (map snd fs) (map fst gs)"
      using l(10) flow_cong [of u u ?t t] r by simp
    ultimately show ?thesis
      using c f inv l(4-8) True by (intro linkedI [of _ _ ?t]) (simp_all add: flow_no_data)
  next
    case False
    let ?g = "((RCV_NXT t, advertised_window t), next_chunk t)"
    have "written e a b (stack x) ?s = [datagram a b (create_writer_tcp_packet t (next_chunk t) (SND_NXT t))]"
      using process_block_output [OF t(1) st(1), of e] False st(2) t(2,3) by (simp add: written_emits)
    moreover have "carries a b ?g (datagram a b (create_writer_tcp_packet t (next_chunk t) (SND_NXT t)))"
      using t(2,3) next_chunk_bounded(1) [of t] by (intro carries_writer) simp_all
    ultimately have "list_all2 (carries a b) (gs @ [?g]) (xy @ written e a b (stack x) ?s)"
      using l(7) by (simp add: list_all2_appendI)
    then show ?thesis
      using c f inv l(4-6,8) flow_announce [OF l(10,3) r]
      by (intro linkedI [of _ _ ?t _ _ _ _ _ "gs @ [?g]" _ fs]) simp_all
  qed
qed

text \<open>A datagram arrives: its acknowledgement is processed, its payload stored and acknowledged in turn. The
  handler always returns.\<close>

lemma linked_arrive:
  assumes "linked i j a b x y xy (raw # yx)"
  shows "\<exists>n s'. process_incoming_packet e raw (stack x) = Returns n s'
    \<and> linked i j a b (x\<lparr>stack := s'\<rparr>) y (xy @ written e a b (stack x) s') yx"
  using assms(1)
proof (rule linkedE)
  fix t u gs fs'
  assume l: "connected (stack x) i t a b" "current_state t = ESTABLISHED" "TCB_inv t"
    "connected (stack y) j u b a" "current_state u = ESTABLISHED" "TCB_inv u"
    "list_all2 (carries a b) gs xy" "list_all2 (carries b a) fs' (raw # yx)"
    "flow t u (handed x) (got y) (map snd gs) (map fst fs')"
    "flow u t (handed y) (got x) (map snd fs') (map fst gs)"
  have t: "get_tcb (stack x) i = Some t" "src_address t = a" "dst_address t = b"
    using l(1) by (simp_all add: connected_def)
  from l(8) obtain r w d fs where fs: "fs' = ((r, w), d) # fs" "carries b a ((r, w), d) raw"
      "list_all2 (carries b a) fs yx"
    by (auto simp: list_all2_Cons2)
  obtain packet where p: "process_incoming_packet e raw (stack x) = handle_established_state e i packet (stack x)"
      "TcpPacketView_ack packet" "\<not> TcpPacketView_fin packet" "TcpPacketView_ack_num_ntoh packet = r"
      "TcpPacketView_window_ntoh packet = w" "TcpPacketView_payload packet = d"
    using carries_arrives [OF l(1,2) fs(2), of e] by blast
  let ?u = "ack_tcb packet t"
  have A: "flow ?u u (handed x) (got y) (map snd gs) (map fst fs)" "TCB_inv ?u" "current_state ?u = ESTABLISHED"
    using flow_acknowledged [of t u _ _ _ packet] l(2,3,9) evolves_ack_tcb [of t packet]
    by (simp_all add: fs(1) p(4,5) evolves_def)
  have f: "flow u t (handed y) (got x) (d # map snd fs) (map fst gs)" using l(10) by (simp add: fs(1))
  show ?thesis
  proof (cases "d = []")
    case True
    let ?s = "established_ack i t packet (stack x)"
    have "handle_established_state e i packet (stack x) = Returns 0 ?s"
      using established_pure_ack [OF t(1) p(3,2)] p(6) True by simp
    moreover have "connected ?s i ?u a b" "written e a b (stack x) ?s = []"
      using established_ack_frame [OF t(1), of packet]
      by (auto intro!: connectedI [OF l(1)] simp: written_nothing)
    moreover have "flow u ?u (handed y) (got x) (map snd fs) (map fst gs)"
      using f True flow_cong [of u u ?u t] by (simp add: flow_no_data)
    ultimately show ?thesis
      using A l(4-7) fs(3) p(1) by (intro exI [of _ 0] exI [of _ ?s]) (auto intro!: linkedI [of _ _ ?u])
  next
    case False
    obtain n s' buf where r: "handle_established_state e i packet (stack x) = Returns n s'"
        "BlockingBuffer_inv MAX_IPV4_PACKET_SIZE buf" "contents MAX_IPV4_PACKET_SIZE buf = recv_stream t @ d"
        "let u' = ?u\<lparr>RCV_NXT := RCV_NXT t + of_nat (length d), recv_buffer := buf\<rparr>
         in get_tcb s' = (get_tcb (stack x))(i \<mapsto> u') \<and> connection_table s' = connection_table (stack x)
          \<and> emits e a b (control_packet u' False True False False (SND_NXT u') (RCV_NXT u') 65535) (stack x) s'"
      using established_receives_block [OF t(1) l(3) p(3), of e] flow_fits [OF f l(6,3)] False p(2,6) t(2,3) by auto
    define v where "v = ?u\<lparr>RCV_NXT := RCV_NXT t + of_nat (length d), recv_buffer := buf\<rparr>"
    have v: "TCB_inv v" "current_state v = ESTABLISHED" "src_address v = a" "dst_address v = b"
        "recv_stream v = recv_stream t @ d" "RCV_NXT v = RCV_NXT t + of_nat (length d)"
      using A(2,3) r(2,3) t(2,3) by (simp_all add: v_def TCB_inv_def)
    have s': "get_tcb s' = (get_tcb (stack x))(i \<mapsto> v)" "connection_table s' = connection_table (stack x)"
        "written e a b (stack x) s' = [datagram a b (control_packet v False True False False (SND_NXT v) (RCV_NXT v) 65535)]"
      using r(4) by (simp_all add: Let_def v_def written_emits)
    let ?g = "((RCV_NXT v, advertised_window v), [])"
    have "connected s' i v a b" using s' v(3,4) t(2,3) by (intro connectedI [OF l(1)]) simp_all
    moreover have "list_all2 (carries a b) (gs @ [?g]) (xy @ written e a b (stack x) s')"
      unfolding s'(3) using l(7) carries_control [OF v(3,4)] by (simp add: list_all2_appendI)
    moreover have "flow v u (handed x) (got y) (map snd (gs @ [?g])) (map fst fs)"
      using A(1) flow_cong [of v ?u u u] by (simp add: flow_no_data v_def)
    moreover have "flow u v (handed y) (got x) (map snd fs) (map fst (gs @ [?g]))"
      using flow_received [OF f l(6,3) v(1,5,6)] by simp
    ultimately show ?thesis
      using v(1,2) l(4-6) fs(3) p(1) r(1)
      by (intro exI [of _ n] exI [of _ s']) (auto intro!: linkedI [of _ _ v _ _ _ _ _ "gs @ [?g]"])
  qed
qed

lemma linked_other:
  assumes "linked i j a b x y xy yx" and "get_tcb s' i = get_tcb (stack x) i"
    and "map_of (connection_table s') (b, a) = map_of (connection_table (stack x)) (b, a)"
    and "map_of (connection_table s') (a, b) = map_of (connection_table (stack x)) (a, b)"
  shows "linked i j a b (x\<lparr>stack := s'\<rparr>) y xy yx"
proof -
  have "connected s' i t a b = connected (stack x) i t a b" for t
    using assms(2-4) by (simp add: connected_def)
  then show ?thesis using assms(1) by (simp add: linked_def)
qed

lemma node_step_linked:
  assumes "node_step e i a b x yx xy x' yx' xy'" and "linked i j a b x y xy yx"
  shows "linked i j a b x' y xy' yx'"
  using assms
  by (cases rule: node_step.cases)
    (auto intro: linked_send linked_recv linked_process linked_other linked_other [OF _ idle_pass(1)] simp: idle_pass(2) dest: linked_arrive [where e = e])

lemma net_step_linked:
  assumes "net_step ea eb i j a b N N'" and "linked i j a b (left N) (right N) (to_right N) (to_left N)"
  shows "linked i j a b (left N') (right N') (to_right N') (to_left N')"
  using assms
  by (cases rule: net_step.cases)
    (auto intro: node_step_linked linked_sym [OF node_step_linked [OF _ linked_sym]])

lemma net_run_linked:
  assumes "(net_step ea eb i j a b)\<^sup>*\<^sup>* N N'" and "linked i j a b (left N) (right N) (to_right N) (to_left N)"
  shows "linked i j a b (left N') (right N') (to_right N') (to_left N')"
  using assms by (induction rule: rtranclp_induct) (auto intro: net_step_linked)

end
