(* ===== verification/Window_Halt.thy ===== *)
theory Window_Halt
  imports Pipelined_Transfer
begin

text \<open>
  The use of a connection from its establishment on, for every schedule of the two applications, the two
  daemons and a network that keeps the order: what has been read is always a prefix of what was handed
  over, and a transfer comes to a halt with data left to send only when the window is closed. The
  receiver announces its window with its acknowledgements only, and the sender does not probe a closed
  window, so that such a halt lasts for ever.
\<close>

subsection \<open>From the handshake on\<close>

text \<open>A connection after the handshake: both sides synchronised, nothing transferred yet.\<close>

definition just_established :: "socket_id \<Rightarrow> socket_id \<Rightarrow> IPv4Address \<Rightarrow> IPv4Address \<Rightarrow> network \<Rightarrow> bool" where
  "just_established i j a b N \<longleftrightarrow> (\<exists>t u.
     connected (stack (left N)) i t a b \<and> connected (stack (right N)) j u b a
     \<and> current_state t = ESTABLISHED \<and> current_state u = ESTABLISHED \<and> TCB_inv t \<and> TCB_inv u
     \<and> SND_UNA t = SND_NXT t \<and> RCV_NXT u = SND_NXT t \<and> SND_WND t = 65535
     \<and> SND_UNA u = SND_NXT u \<and> RCV_NXT t = SND_NXT u \<and> SND_WND u = 65535
     \<and> send_stream t = [] \<and> recv_stream t = [] \<and> send_stream u = [] \<and> recv_stream u = [])
   \<and> handed (left N) = [] \<and> got (left N) = [] \<and> handed (right N) = [] \<and> got (right N) = []
   \<and> to_right N = [] \<and> to_left N = []"

lemma flow_start:
  assumes "SND_UNA t = SND_NXT t" "RCV_NXT u = SND_NXT t" "SND_WND t = 65535" "send_stream t = []"
    "recv_stream u = []"
  shows "flow t u [] [] [] []"
  unfolding flow_def
  by (rule exI [of _ "SND_NXT t"], rule exI [of _ 0], rule exI [of _ 0], rule exI [of _ 0])
    (use assms in simp)

lemma just_established_linked:
  assumes "just_established i j a b N"
  shows "linked i j a b (left N) (right N) (to_right N) (to_left N)"
proof -
  obtain t u where e: "connected (stack (left N)) i t a b" "connected (stack (right N)) j u b a"
      "current_state t = ESTABLISHED" "current_state u = ESTABLISHED" "TCB_inv t" "TCB_inv u"
      "SND_UNA t = SND_NXT t" "RCV_NXT u = SND_NXT t" "SND_WND t = 65535" "send_stream t = []" "recv_stream u = []"
      "SND_UNA u = SND_NXT u" "RCV_NXT t = SND_NXT u" "SND_WND u = 65535" "send_stream u = []" "recv_stream t = []"
    using assms unfolding just_established_def by blast
  have q: "handed (left N) = []" "got (left N) = []" "handed (right N) = []" "got (right N) = []"
      "to_right N = []" "to_left N = []"
    using assms by (simp_all add: just_established_def)
  show ?thesis
    unfolding q(5,6)
    by (rule linkedI [OF e(1,3,5,2,4,6), of "[]" _ "[]"])
      (use flow_start [OF e(7-11)] flow_start [OF e(12-16)] in \<open>simp_all add: q\<close>)
qed

text \<open>A connection for the examples.\<close>

definition example_network :: network where
  "example_network =
     \<lparr>left = \<lparr>stack = example_conn (example_block []), handed = [], got = []\<rparr>,
      right = \<lparr>stack = example_conn example_peer, handed = [], got = []\<rparr>, to_right = [], to_left = []\<rparr>"

lemma example_network_established:
  "just_established 1 1 \<lparr>address = 0x0A000002, port = 80\<rparr> \<lparr>address = 0x0A000003, port = 5000\<rparr> example_network"
proof -
  have "SND_UNA (example_block []) = SND_NXT (example_block [])" "RCV_NXT (example_block []) = 0"
      "SND_NXT (example_block []) = 0" "SND_WND (example_block []) = 65535" "recv_stream (example_block []) = []"
      "SND_UNA example_peer = SND_NXT example_peer" "SND_WND example_peer = 65535" "send_stream example_peer = []"
    by (simp_all add: example_block_def example_peer_def TCB_new_def)
  moreover have "TCB_inv (example_block [])" "send_stream (example_block []) = []"
    using example_block_simps [of "[]"] by (simp_all add: sender_ok_def)
  ultimately show ?thesis
    unfolding just_established_def
    using connected_example by (intro conjI exI [of _ "example_block []"] exI [of _ example_peer])
      (simp_all add: example_network_def)
qed

text \<open>Steps of the network.\<close>

lemma net_left:
  assumes "node_step ea i a b (left N) (to_left N) (to_right N) x inq outq"
    and "N' = N\<lparr>left := x, to_left := inq, to_right := outq\<rparr>"
  shows "net_step ea eb i j a b N N'"
  using assms by (simp add: Left)

lemma net_right:
  assumes "node_step eb j b a (right N) (to_right N) (to_left N) x inq outq"
    and "N' = N\<lparr>right := x, to_right := inq, to_left := outq\<rparr>"
  shows "net_step ea eb i j a b N N'"
  using assms by (simp add: Right)

lemma net_quiet:
  assumes "to_right N = []" "to_left N = []"
  shows "node_step ea i a b (left N) [] [] x [] [] \<Longrightarrow> net_step ea eb i j a b N (N\<lparr>left := x\<rparr>)"
    and "node_step eb j b a (right N) [] [] y [] [] \<Longrightarrow> net_step ea eb i j a b N (N\<lparr>right := y\<rparr>)"
  using assms net_left [of ea i a b N x "[]" "[]"] net_right [of eb j b a N y "[]" "[]"]
  by (cases N; simp)+

subsection \<open>When nothing is under way\<close>

lemma flow_quiet:
  assumes "flow t u h g [] []" and "TCB_inv t"
  shows "in_flight t = 0" and "h = g @ recv_stream u @ send_stream t" and "SND_NXT t = RCV_NXT u"
proof -
  obtain base una nxt rcv where f: "SND_UNA t = base + of_nat una" "SND_NXT t = base + of_nat nxt"
    "RCV_NXT u = base + of_nat rcv"
    "acks_ok base una (una + unat (SND_WND t)) [] rcv (rcv + (65535 - length (recv_stream u)))"
    "rcv \<le> nxt" "nxt \<le> length h" "send_stream t = drop una h" "g @ recv_stream u = take rcv h"
    "concat [] = drop rcv (take nxt h)"
    using assms by (rule flowE)
  have "length (drop rcv (take nxt h)) = nxt - rcv" using f(6) by simp
  then have "rcv = nxt" "una = nxt" using f(4,5,9) by simp_all
  with f show "in_flight t = 0" "SND_NXT t = RCV_NXT u" by (simp_all add: in_flight_def)
  show "h = g @ recv_stream u @ send_stream t"
    unfolding f(7) append_assoc [symmetric] f(8) using \<open>rcv = nxt\<close> \<open>una = nxt\<close> by simp
qed

lemma linked_quiet:
  assumes "linked i j a b x y [] []"
  obtains t u where "connected (stack x) i t a b" "current_state t = ESTABLISHED" "TCB_inv t"
    "connected (stack y) j u b a" "current_state u = ESTABLISHED" "TCB_inv u"
    "in_flight t = 0" "in_flight u = 0" "handed x = got y @ recv_stream u @ send_stream t"
    "handed y = got x @ recv_stream t @ send_stream u" "SND_NXT t = RCV_NXT u" "SND_NXT u = RCV_NXT t"
proof -
  from assms show thesis
  proof (rule linkedE)
    fix t u gs fs
    assume l: "connected (stack x) i t a b" "current_state t = ESTABLISHED" "TCB_inv t"
      "connected (stack y) j u b a" "current_state u = ESTABLISHED" "TCB_inv u"
      "list_all2 (carries a b) gs []" "list_all2 (carries b a) fs []"
      "flow t u (handed x) (got y) (map snd gs) (map fst fs)"
      "flow u t (handed y) (got x) (map snd fs) (map fst gs)"
    then have q: "flow t u (handed x) (got y) [] []" "flow u t (handed y) (got x) [] []" by simp_all
    show thesis
      by (rule that [OF l(1-6)]) (use flow_quiet [OF q(1) l(3)] flow_quiet [OF q(2) l(6)] in simp_all)
  qed
qed

lemma linked_prefixes:
  assumes "linked i j a b x y outq inq"
  shows "prefix (got y) (handed x) \<and> prefix (got x) (handed y)"
  using assms by (rule linkedE) (auto dest!: flow_prefix intro: append_prefixD simp del: length_contents)

text \<open>C6. Streams in both directions over an orderly network. From the establishment of a connection on, as long as the
  network delivers every datagram once and in order, no retransmission timer of the connection expires and neither
  side closes, in every interleaving of sends, receives, passes of the daemons and arrivals: what the application at either
  end has read is a prefix of what the application at the other end has handed over, with any number of segments under way
  and across the wrap-around of the sequence numbers. The handler of an arriving segment always returns: the segment has
  room in the receive buffer, so that flow control never blocks the daemon.\<close>

theorem pipelined_streams:
  assumes "just_established i j a b N0" and "(net_step ea eb i j a b)\<^sup>*\<^sup>* N0 N"
  shows "prefix (got (right N)) (handed (left N)) \<and> prefix (got (left N)) (handed (right N))
    \<and> (\<forall>raw \<in> set (take 1 (to_right N)). \<exists>n s. process_incoming_packet eb raw (stack (right N)) = Returns n s)
    \<and> (\<forall>raw \<in> set (take 1 (to_left N)). \<exists>n s. process_incoming_packet ea raw (stack (left N)) = Returns n s)"
proof -
  have l: "linked i j a b (left N) (right N) (to_right N) (to_left N)"
    using net_run_linked [OF assms(2) just_established_linked [OF assms(1)]] .
  note linked_prefixes [OF l]
  moreover have "\<exists>n s. process_incoming_packet ea raw (stack (left N)) = Returns n s"
    if "raw \<in> set (take 1 (to_left N))" for raw
    using l linked_arrive [where e = ea] that by (cases "to_left N") fastforce+
  moreover have "\<exists>n s. process_incoming_packet eb raw (stack (right N)) = Returns n s"
    if "raw \<in> set (take 1 (to_right N))" for raw
    using linked_sym [OF l] linked_arrive [where e = eb] that by (cases "to_right N") fastforce+
  ultimately show ?thesis by blast
qed

theorem pipelined_streams_witness:
  "\<exists>N. (net_step example_env example_env 1 1 \<lparr>address = 0x0A000002, port = 80\<rparr>
         \<lparr>address = 0x0A000003, port = 5000\<rparr>)\<^sup>*\<^sup>* example_network N
     \<and> handed (left N) = [1, 2, 3] \<and> prefix (got (right N)) [1, 2, 3]"
proof -
  let ?s = "stack (left example_network)"
  obtain s where "TcpSocket_send \<lparr>sock_id = 1\<rparr> [1, 2, 3] ?s = Returns 3 s"
    using send_returns [of ?s "\<lparr>sock_id = 1\<rparr>" "example_block []" "[1, 2, 3]"] connected_example
    by (auto simp: example_network_def connected_def sender_ok_def simp del: length_contents)
  from Send [OF this, of example_env "\<lparr>address = 0x0A000002, port = 80\<rparr>" "\<lparr>address = 0x0A000003, port = 5000\<rparr>"
      "[]" "[]"]
  have "net_step example_env example_env 1 1 \<lparr>address = 0x0A000002, port = 80\<rparr> \<lparr>address = 0x0A000003, port = 5000\<rparr>
      example_network (example_network\<lparr>left := (left example_network)\<lparr>stack := s, handed := [1, 2, 3]\<rparr>\<rparr>)"
    by (intro net_quiet(1)) (simp_all add: example_network_def)
  from pipelined_streams [OF example_network_established r_into_rtranclp [of "net_step _ _ _ _ _ _", OF this]] this
  show ?thesis
    by (intro exI [of _ "example_network\<lparr>left := (left example_network)\<lparr>stack := s, handed := [1, 2, 3]\<rparr>\<rparr>"]) simp
qed

text \<open>C7. When a transfer halts. In every schedule over the orderly network of \<open>Pipelined_Transfer\<close> (nothing lost, duplicated
  or reordered, no timer expires, nobody closes), once nothing is under way between the two ends, every byte
  that was handed over has been read, or is in the receive buffer, or has not been sent; and the pass of the
  daemon sends nothing exactly when everything was sent or the window is closed.\<close>

theorem transfer_halts_iff:
  assumes "just_established i j a b N0" and "(net_step ea eb i j a b)\<^sup>*\<^sup>* N0 N"
    and "to_right N = []" and "to_left N = []"
  shows "\<exists>t u. get_tcb (stack (left N)) i = Some t \<and> get_tcb (stack (right N)) j = Some u
    \<and> handed (left N) = got (right N) @ recv_stream u @ send_stream t
    \<and> (written ea a b (stack (left N)) (process_block ea i (stack (left N))) = []
        \<longleftrightarrow> handed (left N) = got (right N) @ recv_stream u \<or> SND_WND t = 0)"
proof -
  have "linked i j a b (left N) (right N) [] []"
    using net_run_linked [OF assms(2) just_established_linked [OF assms(1)]] assms(3,4) by simp
  then show ?thesis
  proof (rule linked_quiet)
    fix t u
    assume q: "connected (stack (left N)) i t a b" "current_state t = ESTABLISHED" "TCB_inv t"
      "connected (stack (right N)) j u b a" "in_flight t = 0"
      "handed (left N) = got (right N) @ recv_stream u @ send_stream t"
    have t: "get_tcb (stack (left N)) i = Some t" "src_address t = a" "dst_address t = b"
        "get_tcb (stack (right N)) j = Some u"
      using q(1,4) by (simp_all add: connected_def)
    have st: "current_state t \<noteq> SYN_SENT" "sendable t" using q(2) by (simp_all add: sendable_def)
    have "written ea a b (stack (left N)) (process_block ea i (stack (left N))) = [] \<longleftrightarrow> next_chunk t = []"
      using process_block_output [OF t(1) st(1), of ea] st(2) t(2,3)
      by (cases "next_chunk t = []") (auto simp: written_nothing dest: written_emits)
    also have "\<dots> \<longleftrightarrow> send_stream t = [] \<or> SND_WND t = 0"
    proof -
      have "min (unat (SND_WND t)) 1460 = 0 \<longleftrightarrow> SND_WND t = 0" by (auto simp: min_def unat_eq_0)
      then show ?thesis using q(5) unfolding next_chunk_eq [OF q(3)] by auto
    qed
    finally show ?thesis using t q(6) by (intro exI [of _ t] exI [of _ u]) (auto simp del: length_contents)
  qed
qed

theorem transfer_halts_iff_witness:
  "\<exists>t u. get_tcb (stack (left example_network)) 1 = Some t \<and> get_tcb (stack (right example_network)) 1 = Some u
    \<and> handed (left example_network) = got (right example_network) @ recv_stream u @ send_stream t"
  using transfer_halts_iff [OF example_network_established, of example_env example_env example_network]
  by (auto simp: example_network_def simp del: length_contents)

subsection \<open>A closed window\<close>

text \<open>Rounds without a receive: the receive buffer takes in everything, and the window shrinks with it.\<close>

definition unread_pair ::
  "socket_id \<Rightarrow> socket_id \<Rightarrow> IPv4Address \<Rightarrow> IPv4Address \<Rightarrow> TcpStack \<Rightarrow> tcb \<Rightarrow> TcpStack \<Rightarrow> tcb \<Rightarrow> bool" where
  "unread_pair i j a b sA t sB u \<longleftrightarrow> connected sA i t a b \<and> current_state t = ESTABLISHED \<and> sender_ok t
     \<and> in_flight t = 0 \<and> unat (SND_WND t) = 65535 - length (recv_stream u)
     \<and> connected sB j u b a \<and> current_state u = ESTABLISHED \<and> TCB_inv u
     \<and> RCV_NXT u = SND_NXT t \<and> length (recv_stream u) + length (send_stream t) \<le> 65535"

lemma ack_writes_nothing:
  assumes "connected s i t a b" and "current_state t = ESTABLISHED" and "src_address u = b" "dst_address u = a"
    and "process_incoming_packet e (datagram b a (control_packet u False True False False x y 65535)) s = Returns n s'"
  shows "written e a b s s' = []"
proof -
  let ?p = "control_packet u False True False False x y 65535"
  have g: "get_tcb s i = Some t" using assms(1) by (simp add: connected_def)
  have "process_incoming_packet e (datagram b a ?p) s = dispatch_state e i t b a (TcpPacket_encode ?p b a) s"
    using assms(3,4) by (intro connected_arrival [OF assms(1)]) simp_all
  then have "s' = established_ack i t (TcpPacket_encode ?p b a) s"
    using assms(2,5) established_pure_ack [OF g, of "TcpPacket_encode ?p b a" e]
    by (simp add: dispatch_simps control_view)
  then show ?thesis using established_ack_frame [OF g] by (simp add: written_nothing)
qed

lemma unread_round:
  assumes "unread_pair i j a b sA t sB u" and "send_stream t \<noteq> []"
  shows "\<exists>p n sB1 ackp sA1 t1 u1. emits ea a b p sA (process_block ea i sA)
    \<and> process_incoming_packet eb (datagram a b p) sB = Returns n sB1 \<and> emits eb b a ackp sB sB1
    \<and> process_incoming_packet ea (datagram b a ackp) (process_block ea i sA) = Returns 0 sA1
    \<and> written ea a b (process_block ea i sA) sA1 = []
    \<and> unread_pair i j a b sA1 t1 sB1 u1 \<and> length (send_stream t1) < length (send_stream t)"
proof -
  have h: "connected sA i t a b" "current_state t = ESTABLISHED" "sender_ok t" "in_flight t = 0"
      "unat (SND_WND t) = 65535 - length (recv_stream u)" "connected sB j u b a" "current_state u = ESTABLISHED"
      "TCB_inv u" "RCV_NXT u = SND_NXT t" "length (recv_stream u) + length (send_stream t) \<le> 65535"
    using assms(1) by (simp_all add: unread_pair_def)
  have t: "src_address t = a" "dst_address t = b" using h(1) by (simp_all add: connected_def)
  let ?d = "take 1460 (send_stream t)"
  have c: "next_chunk t = ?d"
  proof -
    have "length (send_stream t) \<le> unat (SND_WND t)" using h(5,10) by linarith
    then show ?thesis
      using h(3,4) next_chunk_eq [of t] by (simp add: sender_ok_def take_all_iff min_def del: length_contents)
  qed
  have d: "?d \<noteq> []" "length ?d \<le> 65495" "length (recv_stream u) + length ?d \<le> 65535"
    using assms(2) h(10) by (auto simp del: length_contents)
  note A = segment_sent [OF h(1-3) c d(1), of ea]
  let ?t = "sent (env_now ea (clock_reads sA)) t"
  obtain n sB1 u1 where B: "process_incoming_packet eb (datagram a b (create_writer_tcp_packet t ?d (SND_NXT t))) sB =
      Returns n sB1" "connected sB1 j u1 b a" "current_state u1 = ESTABLISHED" "TCB_inv u1"
      "recv_stream u1 = recv_stream u @ ?d" "RCV_NXT u1 = SND_NXT ?t"
      "emits eb b a (control_packet u1 False True False False (SND_NXT u1) (RCV_NXT u1) 65535) sB sB1"
    using data_arrives [OF h(6-8) t d, of eb "SND_NXT t"] unfolding h(9) A(5) by blast
  have u1: "src_address u1 = b" "dst_address u1 = a" and g: "get_tcb (process_block ea i sA) i = Some ?t"
    using B(2) A(2) by (simp_all add: connected_def)
  let ?p = "control_packet u1 False True False False (SND_NXT u1) (RCV_NXT u1) 65535"
  obtain sA1 t1 where C: "process_incoming_packet ea (datagram b a ?p) (process_block ea i sA) = Returns 0 sA1"
      "get_tcb sA1 = (get_tcb (process_block ea i sA))(i \<mapsto> t1)"
      "connection_table sA1 = connection_table (process_block ea i sA)" "SND_NXT t1 = SND_NXT ?t"
      "in_flight t1 = 0" "send_stream t1 = drop (length ?d) (send_stream t)"
      "unat (SND_WND t1) = 65535 - length (recv_stream u1)" "sender_ok t1" "current_state t1 = ESTABLISHED"
      "src_address t1 = src_address ?t" "dst_address t1 = dst_address ?t"
    using ack_arrives [OF g A(3,4) connected_find [OF A(2)] u1 B(4), of ea "SND_NXT u1"] h(4)
    unfolding B(6) A(6,7) by (auto simp del: length_contents)
  have "written ea a b (process_block ea i sA) sA1 = []" using ack_writes_nothing [OF A(2,3) u1 C(1)] .
  moreover have "connected sA1 i t1 a b" using C by (intro connectedI [OF A(2)]) simp_all
  moreover have "length (recv_stream u1) + length (send_stream t1) = length (recv_stream u) + length (send_stream t)"
    unfolding B(5) C(6) by (simp del: length_contents)
  ultimately have "unread_pair i j a b sA1 t1 sB1 u1"
    using C B h(10) by (simp add: unread_pair_def del: length_contents)
  moreover have "length (send_stream t1) < length (send_stream t)"
    using assms(2) unfolding C(6) by (simp del: length_contents)
  ultimately show ?thesis using A(1) B(1,7) C(1) \<open>written ea a b (process_block ea i sA) sA1 = []\<close> by blast
qed

text \<open>The same as a run of the network: all that was handed over ends up in the receive buffer.\<close>

lemma unread_run:
  assumes "unread_pair i j a b (stack (left N)) t (stack (right N)) u" and "to_right N = []" "to_left N = []"
  shows "\<exists>N' t' u'. (net_step ea eb i j a b)\<^sup>*\<^sup>* N N' \<and> unread_pair i j a b (stack (left N')) t' (stack (right N')) u'
    \<and> send_stream t' = [] \<and> to_right N' = [] \<and> to_left N' = [] \<and> handed (left N') = handed (left N)
    \<and> handed (right N') = handed (right N) \<and> got (left N') = got (left N) \<and> got (right N') = got (right N)"
  using assms
proof (induction "length (send_stream t)" arbitrary: N t u rule: less_induct)
  case less
  show ?case
  proof (cases "send_stream t = []")
    case True
    with less.prems show ?thesis by blast
  next
    case False
    let ?sA = "process_block ea i (stack (left N))"
    obtain p n sB1 ackp sA1 t1 u1 where r: "emits ea a b p (stack (left N)) ?sA"
        "process_incoming_packet eb (datagram a b p) (stack (right N)) = Returns n sB1"
        "emits eb b a ackp (stack (right N)) sB1"
        "process_incoming_packet ea (datagram b a ackp) ?sA = Returns 0 sA1"
        "written ea a b ?sA sA1 = []" "unread_pair i j a b sA1 t1 sB1 u1"
        "length (send_stream t1) < length (send_stream t)"
      using unread_round [OF less.prems(1) False, of ea eb] by blast
    define N1 where "N1 = N\<lparr>left := (left N)\<lparr>stack := ?sA\<rparr>, to_left := [], to_right := [datagram a b p]\<rparr>"
    define N2 where "N2 = N1\<lparr>right := (right N1)\<lparr>stack := sB1\<rparr>, to_right := [], to_left := [datagram b a ackp]\<rparr>"
    define N3 where "N3 = N2\<lparr>left := (left N2)\<lparr>stack := sA1\<rparr>, to_left := [], to_right := []\<rparr>"
    have "node_step ea i a b (left N) [] [] (left N1) [] [datagram a b p]"
      using Process [of ea i "left N" ?sA a b "[]" "[]"] written_emits [OF r(1)] by (simp add: N1_def)
    then have "net_step ea eb i j a b N N1"
      using less.prems(2,3) by (intro net_left) (simp_all add: N1_def)
    moreover have "node_step eb j b a (right N1) [datagram a b p] [] (right N2) [] [datagram b a ackp]"
      using Arrive [of eb "datagram a b p" "right N1" n sB1 j b a "[]" "[]"] r(2) written_emits [OF r(3)]
      by (simp add: N1_def N2_def)
    then have "net_step ea eb i j a b N1 N2" by (intro net_right) (simp_all add: N1_def N2_def)
    moreover have "node_step ea i a b (left N2) [datagram b a ackp] [] (left N3) [] []"
      using Arrive [of ea "datagram b a ackp" "left N2" 0 sA1 i a b "[]" "[]"] r(4,5)
      by (simp add: N1_def N2_def N3_def)
    then have "net_step ea eb i j a b N2 N3" by (intro net_left) (simp_all add: N2_def N3_def)
    moreover obtain N' t' u' where N': "(net_step ea eb i j a b)\<^sup>*\<^sup>* N3 N'"
        "unread_pair i j a b (stack (left N')) t' (stack (right N')) u'" "send_stream t' = []"
        "to_right N' = []" "to_left N' = []" "handed (left N') = handed (left N)"
        "handed (right N') = handed (right N)" "got (left N') = got (left N)" "got (right N') = got (right N)"
      using less.hyps [OF r(7), of N3 u1] r(6) by (auto simp: N1_def N2_def N3_def simp del: length_contents)
    ultimately show ?thesis by (meson converse_rtranclp_into_rtranclp)
  qed
qed

text \<open>With the window closed, the sending side has nothing to say, and the other side nothing to answer.\<close>

lemma sender_halted:
  assumes "node_step e i a b x [] [] x' inq outq" and "connected (stack x) i t a b"
    and "current_state t = ESTABLISHED" and "SND_WND t = 0"
  shows "inq = [] \<and> outq = [] \<and> (\<exists>t'. get_tcb (stack x') i = Some t' \<and> SND_WND t' = 0)"
proof -
  have g: "get_tcb (stack x) i = Some t" using assms(2) by (simp add: connected_def)
  have st: "current_state t \<noteq> SYN_SENT" using assms(3) by simp
  have "next_chunk t = []" using next_chunk_bounded(2) [of t] assms(4) by (simp add: usable_window_def)
  then have "written e a b (stack x) (process_block e i (stack x)) = []"
      "\<exists>t'. get_tcb (process_block e i (stack x)) i = Some t' \<and> SND_WND t' = 0"
    using process_block_output [OF g st, of e] get_tcb_process_block [OF g st, of e] assms(4)
    by (simp_all add: written_nothing sent_def)
  with assms(1,4) g show ?thesis
    by (cases rule: node_step.cases)
      (auto simp: TcpSocket_send_def TcpSocket_recv_def add_dirty_tcb_def Let_def idle_pass split: option.splits)
qed

lemma receiver_halted:
  assumes "node_step e j b a y [] [] y' inq outq" and "connected (stack y) j u b a"
    and "current_state u = ESTABLISHED" and "TCB_inv u" and "send_stream u = []" and "recv_stream u = []"
  shows "inq = [] \<and> outq = [] \<and> got y' = got y \<and> (\<exists>u'. get_tcb (stack y') j = Some u' \<and> recv_stream u' = [])"
proof -
  have g: "get_tcb (stack y) j = Some u" using assms(2) by (simp add: connected_def)
  have st: "current_state u \<noteq> SYN_SENT" using assms(3) by simp
  have "next_chunk u = []" unfolding next_chunk_eq [OF assms(4)] assms(5) by simp
  then have p: "written e b a (stack y) (process_block e j (stack y)) = []"
      "\<exists>u'. get_tcb (process_block e j (stack y)) j = Some u' \<and> recv_stream u' = []"
    using process_block_output [OF g st, of e] get_tcb_process_block [OF g st, of e] assms(6)
    by (simp_all add: written_nothing sent_def)
  have r: "data = [] \<and> contents MAX_IPV4_PACKET_SIZE buf = []"
    if "BlockingBuffer_read MAX_IPV4_PACKET_SIZE (recv_buffer u) n = Some (buf, data)" for n buf data
    using rb.rd_seq [OF _ that] assms(4,6) by (simp add: TCB_inv_def)
  from assms(1) p r assms(6) g show ?thesis
    by (cases rule: node_step.cases)
      (auto simp: TcpSocket_send_def TcpSocket_recv_def add_dirty_tcb_def Let_def idle_pass simp del: length_contents
        split: option.splits)
qed

lemma handed_grows: "net_step ea eb i j a b N N' \<Longrightarrow> prefix (handed (right N)) (handed (right N'))"
  by (auto elim!: net_stepE node_stepE)

text \<open>A halted transfer: the window is closed, and the receiver has read everything and says nothing.\<close>

definition halted :: "socket_id \<Rightarrow> socket_id \<Rightarrow> IPv4Address \<Rightarrow> IPv4Address \<Rightarrow> bytes \<Rightarrow> network \<Rightarrow> bool" where
  "halted i j a b D N \<longleftrightarrow> linked i j a b (left N) (right N) [] [] \<and> to_right N = [] \<and> to_left N = []
     \<and> (\<exists>t. get_tcb (stack (left N)) i = Some t \<and> SND_WND t = 0)
     \<and> (\<exists>u. get_tcb (stack (right N)) j = Some u \<and> recv_stream u = []) \<and> got (right N) = D"

lemma halted_step:
  assumes "net_step ea eb i j a b N N'" and "halted i j a b D N" and "handed (right N') = []"
  shows "halted i j a b D N'"
proof -
  have N: "linked i j a b (left N) (right N) [] []" "to_right N = []" "to_left N = []" "got (right N) = D"
    using assms(2) by (simp_all add: halted_def)
  have l: "linked i j a b (left N') (right N') (to_right N') (to_left N')"
    using net_step_linked [OF assms(1)] N by simp
  have "handed (right N) = []" using handed_grows [OF assms(1)] assms(3) by simp
  from N(1) show ?thesis
  proof (rule linked_quiet)
    fix t u
    assume q: "connected (stack (left N)) i t a b" "current_state t = ESTABLISHED" "connected (stack (right N)) j u b a"
      "current_state u = ESTABLISHED" "TCB_inv u" "handed (right N) = got (left N) @ recv_stream t @ send_stream u"
    have w: "SND_WND t = 0" "recv_stream u = []" "send_stream u = []"
      using assms(2) q(1,3,6) \<open>handed (right N) = []\<close> by (auto simp: halted_def connected_def simp del: length_contents)
    have g: "get_tcb (stack (left N)) i = Some t" "get_tcb (stack (right N)) j = Some u"
      using q(1,3) by (simp_all add: connected_def)
    show ?thesis
      using assms(1) l N(2-4) w(1,2) g
      by (elim net_stepE)
        (auto dest!: sender_halted [OF _ q(1,2) w(1)] receiver_halted [OF _ q(3-5) w(3,2)] simp: halted_def
          simp del: length_contents)
  qed
qed

lemma halted_run:
  assumes "(net_step ea eb i j a b)\<^sup>*\<^sup>* N N'" and "halted i j a b D N" and "handed (right N') = []"
  shows "halted i j a b D N'"
  using assms
proof (induction rule: rtranclp_induct)
  case (step N1 N2)
  then have "handed (right N1) = []" using handed_grows [OF step.hyps(2)] by simp
  with step show ?case using halted_step by blast
qed

text \<open>The run that closes the window: the data is handed over, transferred without being read, then read,
  and one more byte is handed over.\<close>

lemma start_sends:
  assumes "just_established i j a b N0" and "length D = 65535"
  shows "\<exists>N t u. (net_step ea eb i j a b)\<^sup>*\<^sup>* N0 N \<and> unread_pair i j a b (stack (left N)) t (stack (right N)) u
    \<and> to_right N = [] \<and> to_left N = [] \<and> handed (left N) = D \<and> handed (right N) = [] \<and> got (right N) = []"
proof -
  obtain t u where e: "connected (stack (left N0)) i t a b" "connected (stack (right N0)) j u b a"
      "current_state t = ESTABLISHED" "current_state u = ESTABLISHED" "TCB_inv t" "TCB_inv u"
      "SND_UNA t = SND_NXT t" "RCV_NXT u = SND_NXT t" "SND_WND t = 65535" "send_stream t = []" "recv_stream u = []"
    using assms(1) unfolding just_established_def by blast
  have q: "handed (left N0) = []" "handed (right N0) = []" "got (right N0) = []" "to_right N0 = []" "to_left N0 = []"
    using assms(1) by (simp_all add: just_established_def)
  have g: "get_tcb (stack (left N0)) i = Some t" using e(1) by (simp add: connected_def)
  have "length (send_stream t) < 65535" unfolding e(10) by simp
  then obtain s buf where s: "TcpSocket_send \<lparr>sock_id = i\<rparr> D (stack (left N0)) = Returns 65535 s"
      "get_tcb s = (get_tcb (stack (left N0)))(i \<mapsto> t\<lparr>send_buffer := buf\<rparr>)"
      "BlockingBuffer_inv MAX_IPV4_PACKET_SIZE buf" "contents MAX_IPV4_PACKET_SIZE buf = D"
      "connection_table s = connection_table (stack (left N0))"
    using send_returns [of "stack (left N0)" "\<lparr>sock_id = i\<rparr>" t D] g e(5) assms(2)
    unfolding e(10) by (auto simp del: length_contents)
  let ?t = "t\<lparr>send_buffer := buf\<rparr>"
  define x where "x = (left N0)\<lparr>stack := s, handed := D\<rparr>"
  have "connected s i ?t a b" using s by (intro connectedI [OF e(1)]) simp_all
  then have "unread_pair i j a b s ?t (stack (right N0)) u"
    using e s(3,4) assms(2)
    by (simp add: unread_pair_def sender_ok_def TCB_inv_def in_flight_def del: length_contents)
  moreover have "node_step ea i a b (left N0) [] [] x [] []"
    using Send [OF s(1), of ea a b "[]" "[]"] q(1) assms(2) by (simp add: x_def)
  then have "net_step ea eb i j a b N0 (N0\<lparr>left := x\<rparr>)" using q(4,5) by (intro net_quiet)
  ultimately show ?thesis
    using q by (intro exI [of _ "N0\<lparr>left := x\<rparr>"] exI [of _ ?t] exI [of _ u]) (auto simp: x_def)
qed

lemma window_closes:
  assumes "unread_pair i j a b (stack (left N)) t (stack (right N)) u" and "send_stream t = []"
    and "to_right N = []" "to_left N = []" and "handed (left N) = D" "handed (right N) = []" "got (right N) = []"
    and "length D = 65535" and "linked i j a b (left N) (right N) (to_right N) (to_left N)"
  shows "\<exists>N'. (net_step ea eb i j a b)\<^sup>*\<^sup>* N N' \<and> halted i j a b D N' \<and> handed (left N') = D @ [c]"
proof -
  have p: "connected (stack (left N)) i t a b" "sender_ok t" "connected (stack (right N)) j u b a" "TCB_inv u"
      "unat (SND_WND t) = 65535 - length (recv_stream u)"
    using assms(1) by (simp_all add: unread_pair_def)
  have g: "get_tcb (stack (left N)) i = Some t" "get_tcb (stack (right N)) j = Some u"
    using p(1,3) by (simp_all add: connected_def)
  have r: "recv_stream u = D"
    using assms(9) unfolding assms(3,4)
    by (rule linked_quiet) (use g assms(2,5,7) in \<open>auto simp: connected_def simp del: length_contents\<close>)
  then have w: "SND_WND t = 0" using p(5) assms(8) by (simp add: unat_eq_0)
  have "recv_stream u \<noteq> []" using r assms(8) by (auto simp del: length_contents)
  then obtain sB buf where s: "TcpSocket_recv \<lparr>sock_id = j\<rparr> 65535 (stack (right N)) = Returns D sB"
      "get_tcb sB = (get_tcb (stack (right N)))(j \<mapsto> u\<lparr>recv_buffer := buf\<rparr>)"
      "contents MAX_IPV4_PACKET_SIZE buf = []"
    using recv_returns [of "stack (right N)" "\<lparr>sock_id = j\<rparr>" u 65535] g(2) p(4) assms(8) r
    by (auto simp del: length_contents)
  have "length (send_stream t) < 65535" unfolding assms(2) by simp
  then obtain sA cuf where v: "TcpSocket_send \<lparr>sock_id = i\<rparr> [c] (stack (left N)) = Returns 1 sA"
      "get_tcb sA = (get_tcb (stack (left N)))(i \<mapsto> t\<lparr>send_buffer := cuf\<rparr>)"
    using send_returns [of "stack (left N)" "\<lparr>sock_id = i\<rparr>" t "[c]"] g(1) p(2)
    unfolding assms(2) by (auto simp: sender_ok_def simp del: length_contents)
  define y where "y = (right N)\<lparr>stack := sB, got := D\<rparr>"
  define x where "x = (left N)\<lparr>stack := sA, handed := D @ [c]\<rparr>"
  have "node_step eb j b a (right N) [] [] y [] []"
    using Recv [OF s(1), of eb b a "[]" "[]"] assms(7) by (simp add: y_def)
  then have y: "net_step ea eb i j a b N (N\<lparr>right := y\<rparr>)" using assms(3,4) by (intro net_quiet)
  have "node_step ea i a b (left N) [] [] x [] []"
    using Send [OF v(1), of ea a b "[]" "[]"] assms(5) by (simp add: x_def)
  then have x: "net_step ea eb i j a b (N\<lparr>right := y\<rparr>) (N\<lparr>right := y, left := x\<rparr>)"
    using net_quiet(1) [of "N\<lparr>right := y\<rparr>" ea i a b x eb j] assms(3,4) by simp
  have "linked i j a b x y [] []" using net_step_linked [OF x net_step_linked [OF y assms(9)]] assms(3,4) by simp
  then have "halted i j a b D (N\<lparr>right := y, left := x\<rparr>)"
    using assms(3,4) s(2,3) v(2) w by (simp add: halted_def x_def y_def)
  moreover have "(net_step ea eb i j a b)\<^sup>*\<^sup>* N (N\<lparr>right := y, left := x\<rparr>)" 
    by (rule converse_rtranclp_into_rtranclp [of "net_step ea eb i j a b", OF y r_into_rtranclp [of "net_step ea eb i j a b", OF x]])
  ultimately show ?thesis by (intro exI [of _ "N\<lparr>right := y, left := x\<rparr>"]) (simp add: x_def)
qed

text \<open>C35. A closed window never opens again. After the handshake, let one application send 65535 bytes
  before the other one reads. There is a run in which the receiver gets and then reads all of them, and the next
  byte handed to the sender is never transmitted: however long both applications, both daemons and the network go
  on, as long as the receiving application sends nothing itself, no datagram is put on the path any more. The
  receiver announced a window of zero with its last acknowledgement; \<^verbatim>\<open>recv\<close> sends no window update,
  the sender does not probe the window, and with nothing in flight there is no retransmission.\<close>

theorem closed_window_stays_closed:
  assumes "just_established i j a b N0" and "length D = 65535"
  shows "\<exists>N. (net_step ea eb i j a b)\<^sup>*\<^sup>* N0 N \<and> handed (left N) = D @ [c] \<and> got (right N) = D
    \<and> (\<forall>N'. (net_step ea eb i j a b)\<^sup>*\<^sup>* N N' \<and> handed (right N') = [] \<longrightarrow>
         to_right N' = [] \<and> to_left N' = [] \<and> got (right N') = D)"
proof -
  let ?run = "(net_step ea eb i j a b)\<^sup>*\<^sup>*"
  obtain N1 t1 u1 where N1: "?run N0 N1" "unread_pair i j a b (stack (left N1)) t1 (stack (right N1)) u1"
      "to_right N1 = []" "to_left N1 = []" "handed (left N1) = D" "handed (right N1) = []" "got (right N1) = []"
    using start_sends [OF assms, of ea eb] by blast
  obtain N2 t2 u2 where N2: "?run N1 N2" "unread_pair i j a b (stack (left N2)) t2 (stack (right N2)) u2"
      "send_stream t2 = []" "to_right N2 = []" "to_left N2 = []" "handed (left N2) = D" "handed (right N2) = []"
      "got (right N2) = []"
    using unread_run [OF N1(2-4), of ea eb] unfolding N1(5-7) by blast
  obtain N where N: "?run N2 N" "halted i j a b D N" "handed (left N) = D @ [c]"
    using window_closes [OF N2(2-8) assms(2), of ea eb c] net_run_linked [OF _ just_established_linked [OF assms(1)]]
      rtranclp_trans [OF N1(1) N2(1)] by blast
  then show ?thesis
    using rtranclp_trans [OF rtranclp_trans [OF N1(1) N2(1)] N(1)] halted_run [OF _ N(2)]
    by (intro exI [of _ N]) (auto simp: halted_def)
qed

theorem closed_window_stays_closed_witness:
  "\<exists>N. (net_step example_env example_env 1 1 \<lparr>address = 0x0A000002, port = 80\<rparr>
         \<lparr>address = 0x0A000003, port = 5000\<rparr>)\<^sup>*\<^sup>* example_network N
     \<and> handed (left N) = replicate 65535 7 @ [8] \<and> got (right N) = replicate 65535 7"
  using closed_window_stays_closed [OF example_network_established, of "replicate 65535 7" example_env example_env 8]
  by (simp only: length_replicate) blast

end
