(* ===== verification/Connection_Life.thy ===== *)
theory Connection_Life
  imports Window_Halt Socket_Calls
begin

text \<open>
  A connection from the calls that open it to the streams that it carries: \<^verbatim>\<open>connect\<close> on one stack, the three
  segments of the handshake, \<^verbatim>\<open>accept\<close> on the other, and then any schedule of sends, receives, passes of the two
  daemons and arrivals over the orderly network of \<open>Pipelined_Transfer\<close>. It joins the lemmas of \<open>Socket_Calls\<close>, \<open>Tcp_Scenarios\<close> and \<open>Window_Halt\<close>.
\<close>

definition opened :: "TcpStack \<Rightarrow> TcpStack \<Rightarrow> network" where
  "opened sA sB =
     \<lparr>left = \<lparr>stack = sA, handed = [], got = []\<rparr>, right = \<lparr>stack = sB, handed = [], got = []\<rparr>,
      to_right = [], to_left = []\<rparr>"

lemma new_block_inv:
  assumes "send_buffer t = BlockingBuffer_new (\<lambda>_. 0)" and "recv_buffer t = BlockingBuffer_new (\<lambda>_. 0)"
  shows "TCB_inv t" and "send_stream t = []" and "recv_stream t = []"
  using assms by (simp_all add: TCB_inv_def MAX_IPV4_PACKET_SIZE_def)

lemma opened_established:
  assumes "connected sA i t a b" and "connected sB j u b a" and "current_state t = ESTABLISHED"
    and "current_state u = ESTABLISHED" and "SND_UNA t = SND_NXT t" and "SND_NXT t = RCV_NXT u" and "SND_WND t = 65535"
    and "SND_UNA u = SND_NXT u" and "SND_NXT u = RCV_NXT t" and "SND_WND u = 65535"
    and "send_buffer t = BlockingBuffer_new (\<lambda>_. 0)" "recv_buffer t = BlockingBuffer_new (\<lambda>_. 0)"
    and "send_buffer u = BlockingBuffer_new (\<lambda>_. 0)" "recv_buffer u = BlockingBuffer_new (\<lambda>_. 0)"
  shows "just_established i j a b (opened sA sB)"
  unfolding just_established_def opened_def
  using assms(1-10) new_block_inv [OF assms(11,12)] new_block_inv [OF assms(13,14)]
  by (intro conjI exI [of _ t] exI [of _ u]) (simp_all del: length_contents)

text \<open>The child of a listener with an empty queue is what \<^verbatim>\<open>accept\<close> returns.\<close>

lemma accept_only_child:
  assumes "get_tcb s l = Some listener" and "current_state listener = LISTEN" and "accept_queue listener = [j]"
  shows "TcpSocket_accept \<lparr>sock_id = l\<rparr> s = Returns \<lparr>sock_id = j\<rparr> (modify_tcb l (\<lambda>t. t\<lparr>accept_queue := []\<rparr>) s)"
  using assms by (simp add: TcpSocket_accept_def)

text \<open>C2. A connection from its opening on. The client calls \<^verbatim>\<open>connect\<close> on a new socket towards an endpoint where a
  socket listens with nothing to accept, and neither stack knows the pair of endpoints yet. Then the three segments of the handshake
  are exchanged, the wait of \<^verbatim>\<open>connect\<close> is over, and \<^verbatim>\<open>accept\<close> returns the socket of the other end; from then on, in every
  schedule of sends, receives, passes of the daemons and arrivals, as long as the network delivers every datagram once and in
  order, no retransmission timer of the connection expires and neither side closes, what either application has read is a
  prefix of what the other one has handed over.\<close>

theorem connection_streams:
  fixes sA sB :: TcpStack and ea eb :: stack_env and b :: IPv4Address
  defines "i \<equiv> next_id (socket_table sA)" and "j \<equiv> next_id (socket_table sB)" and "l \<equiv> find_listener sB (port b)"
    and "a \<equiv> \<lparr>address = address (local_address ea), port = fst (allocate_ephemeral_port sA)\<rparr>"
  assumes "get_tcb sA i = None" and "i \<noteq> 0" and "map_of (connection_table sA) (a, b) = None" and "a \<noteq> b"
    and "get_tcb sB j = None" and "j \<noteq> 0" and "get_tcb sB l = Some listener" and "current_state listener = LISTEN"
    and "accept_queue listener = []" and "find_connections_tcb sB a b = 0"
    and "map_of (connection_table sB) (b, a) = None"
  shows "\<exists>sA0 syn syn_ack ack n1 n2 n3 sB1 sA2 sB2 sB3.
      TcpSocket_connect_start ea b TcpSocket_new sA = (\<lparr>sock_id = i\<rparr>, sA0)
    \<and> emits ea a b syn sA0 (process_block ea i sA0)
    \<and> process_incoming_packet eb (datagram a b syn) sB = Returns n1 sB1 \<and> emits eb b a syn_ack sB sB1
    \<and> process_incoming_packet ea (datagram b a syn_ack) (process_block ea i sA0) = Returns n2 sA2
    \<and> emits ea a b ack (process_block ea i sA0) sA2
    \<and> process_incoming_packet eb (datagram a b ack) sB1 = Returns n3 sB2
    \<and> TcpSocket_connect_ready \<lparr>sock_id = i\<rparr> sA2 \<and> TcpSocket_accept \<lparr>sock_id = l\<rparr> sB2 = Returns \<lparr>sock_id = j\<rparr> sB3
    \<and> (\<forall>N. (net_step ea eb i j a b)\<^sup>*\<^sup>* (opened sA2 sB3) N \<longrightarrow>
         prefix (got (right N)) (handed (left N)) \<and> prefix (got (left N)) (handed (right N)))"
proof -
  let ?t = "syn_sent_block i a b (env_random ea (draws sA))"
  obtain sA0 where A: "TcpSocket_connect_start ea b TcpSocket_new sA = (\<lparr>sock_id = i\<rparr>, sA0)"
      "get_tcb sA0 = (get_tcb sA)(i \<mapsto> ?t)" "find_connections_tcb sA0 b a = i"
      "connection_table sA0 = AList.update (b, a) i (connection_table sA)"
    using connect_start_facts [of sA ea b] assms(5,6) unfolding i_def a_def by blast
  have t: "current_state ?t = SYN_SENT" "SND_NXT ?t = SND_ISS ?t + 1" "src_address ?t = a" "dst_address ?t = b"
      "send_buffer ?t = BlockingBuffer_new (\<lambda>_. 0)" "recv_buffer ?t = BlockingBuffer_new (\<lambda>_. 0)"
      "curr_len (recv_buffer ?t) = 0"
    by (simp_all add: syn_sent_block_def TCB_new_def BlockingBuffer_new_def)
  have "get_tcb sA0 i = Some ?t" using A(2) by simp
  from handshake_blocks [OF this t(1-4) A(3) t(7), of sB listener ea eb, folded j_def l_def, OF assms(9-11,14)]
  obtain p1 p2 p3 n1 n2 n3 sB1 sA2 sB2 t' u' where H:
      "emits ea a b p1 sA0 (process_block ea i sA0)" "process_incoming_packet eb (datagram a b p1) sB = Returns n1 sB1"
      "emits eb b a p2 sB sB1" "process_incoming_packet ea (datagram b a p2) (process_block ea i sA0) = Returns n2 sA2"
      "emits ea a b p3 (process_block ea i sA0) sA2" "process_incoming_packet eb (datagram a b p3) sB1 = Returns n3 sB2"
    and T: "get_tcb sA2 i = Some t'" "current_state t' = ESTABLISHED" "src_address t' = a" "dst_address t' = b"
      "SND_UNA t' = SND_NXT t'" "SND_NXT u' = RCV_NXT t'" "SND_WND t' = 65535" "send_buffer t' = send_buffer ?t"
      "recv_buffer t' = recv_buffer ?t" "connection_table sA2 = connection_table sA0"
    and U: "get_tcb sB2 j = Some u'" "current_state u' = ESTABLISHED" "src_address u' = b" "dst_address u' = a"
      "SND_UNA u' = SND_NXT u'" "SND_NXT t' = RCV_NXT u'" "SND_WND u' = 65535"
      "send_buffer u' = BlockingBuffer_new (\<lambda>_. 0)" "recv_buffer u' = BlockingBuffer_new (\<lambda>_. 0)"
      "connection_table sB2 = ConnectionTable_insert a b j (connection_table sB)"
      "get_tcb sB2 l = Some (listener\<lparr>accept_queue := [j]\<rparr>)"
    unfolding assms(13) append_Nil by blast
  define sB3 where "sB3 = modify_tcb l (\<lambda>t. t\<lparr>accept_queue := []\<rparr>) sB2"
  have acc: "TcpSocket_accept \<lparr>sock_id = l\<rparr> sB2 = Returns \<lparr>sock_id = j\<rparr> sB3"
    unfolding sB3_def by (rule accept_only_child [OF U(11)]) (simp_all add: assms(12))
  have "l \<noteq> j" using assms(9,11) by auto
  then have U': "connected sB3 j u' b a"
    using U assms(8,15) by (simp add: connected_def sB3_def ConnectionTable_insert_def update_conv')
  have T': "connected sA2 i t' a b" using T A(4) assms(7,8) by (simp add: connected_def update_conv')
  have "just_established i j a b (opened sA2 sB3)"
    by (rule opened_established [OF T' U' T(2) U(2) T(5) U(6) T(7) U(5) T(6) U(7)
        T(8,9) [unfolded t(5,6)] U(8,9)])
  then have "prefix (got (right N)) (handed (left N)) \<and> prefix (got (left N)) (handed (right N))"
    if "(net_step ea eb i j a b)\<^sup>*\<^sup>* (opened sA2 sB3) N" for N
    using linked_prefixes [OF net_run_linked [OF that just_established_linked]] by blast
  moreover have "TcpSocket_connect_ready \<lparr>sock_id = i\<rparr> sA2" using T(1,2) by (simp add: TcpSocket_connect_ready_def)
  ultimately show ?thesis using A(1) H acc by blast
qed

theorem connection_streams_witness:
  "\<exists>sA0 sA2 sB3. TcpSocket_connect_start example_env \<lparr>address = 0x0A000003, port = 80\<rparr> TcpSocket_new TcpStack_new =
       (\<lparr>sock_id = 1\<rparr>, sA0) \<and> TcpSocket_connect_ready \<lparr>sock_id = 1\<rparr> sA2
     \<and> (\<forall>N. (net_step example_env example_env 1 2 \<lparr>address = address (local_address example_env),
           port = fst (allocate_ephemeral_port TcpStack_new)\<rparr> \<lparr>address = 0x0A000003, port = 80\<rparr>)\<^sup>*\<^sup>* (opened sA2 sB3) N
         \<longrightarrow> prefix (got (right N)) (handed (left N)))"
proof -
  let ?b = "\<lparr>address = 0x0A000003, port = 80\<rparr>"
  let ?a = "\<lparr>address = address (local_address example_env), port = fst (allocate_ephemeral_port TcpStack_new)\<rparr>"
  have "address (local_address example_env) \<noteq> 0x0A000003" by simp
  then have ab: "?a \<noteq> ?b" by simp
  have n: "get_tcb TcpStack_new 1 = None" "connection_table TcpStack_new = []"
    by (simp_all add: TcpStack_new_def get_tcb_def SocketTable_new_def SocketTable_find_socket_def)
  have f: "find_connections_tcb example_server ?a ?b = 0" by (simp add: find_connections_eq)
  show ?thesis
    using connection_streams [of TcpStack_new example_env ?b example_server _ example_env] ab n f
    by (simp add: TCB_new_def) blast
qed

end
