(* ===== verification/Tcp_Divergences.thy ===== *)
theory Tcp_Divergences
  imports Tcp_Closing Socket_Calls
begin

text \<open>
  Where the stack departs from RFC 793 or from what its documentation says, as theorems about the
  model: received checksums are not examined, sequence numbers of data are not checked, an
  acknowledgement beyond what was sent stops the sender, closing with data left to send skips a
  byte, the release of a connection inside one stack destroys the peer's block, and a port accepts
  connections without listening.
\<close>

subsection \<open>What a segment's processing depends on\<close>

definition same_fields :: "bytes \<Rightarrow> bytes \<Rightarrow> bool" where
  "same_fields c d \<longleftrightarrow> TcpPacketView_syn c = TcpPacketView_syn d
     \<and> TcpPacketView_ack c = TcpPacketView_ack d \<and> TcpPacketView_rst c = TcpPacketView_rst d
     \<and> TcpPacketView_fin c = TcpPacketView_fin d
     \<and> TcpPacketView_seq_num_ntoh c = TcpPacketView_seq_num_ntoh d
     \<and> TcpPacketView_ack_num_ntoh c = TcpPacketView_ack_num_ntoh d
     \<and> TcpPacketView_window_ntoh c = TcpPacketView_window_ntoh d
     \<and> TcpPacketView_payload c = TcpPacketView_payload d"

lemma handlers_cong:
  assumes "same_fields c d"
  shows "handle_closed_reset_response e src dst c s = handle_closed_reset_response e src dst d s"
    and "handle_passive_open_syn e src dst c s = handle_passive_open_syn e src dst d s"
    and "handle_syn_sent_state e i src c s = handle_syn_sent_state e i src d s"
    and "handle_syn_received_state e i src c s = handle_syn_received_state e i src d s"
    and "handle_established_state e i c s = handle_established_state e i d s"
    and "handle_fin_wait_1_state e i c s = handle_fin_wait_1_state e i d s"
    and "handle_fin_wait_2_state e i c s = handle_fin_wait_2_state e i d s"
    and "handle_closing_state i c s = handle_closing_state i d s"
    and "handle_last_ack_state i c s = handle_last_ack_state i d s"
  using assms
  by (simp_all only: same_fields_def handle_closed_reset_response_def handle_passive_open_syn_def
      handle_syn_sent_state_def handle_syn_received_state_def handle_established_state_def
      established_fin_def established_ack_def ack_tcb_def established_payload_def
      handle_fin_wait_1_state_def handle_fin_wait_2_state_def handle_closing_state_def
      handle_last_ack_state_def)

lemma process_segment_cong:
  assumes "same_fields c d"
  shows "process_segment e src dst c s = process_segment e src dst d s"
proof -
  have "TcpPacketView_syn c = TcpPacketView_syn d" "TcpPacketView_ack c = TcpPacketView_ack d"
    using assms by (simp_all add: same_fields_def)
  then show ?thesis
    by (simp only: process_segment_def dispatch_state_def handlers_cong [OF assms])
qed

text \<open>The TCP checksum of a received segment is not examined: the stack does exactly the same for
  every value of the checksum field.\<close>

theorem received_checksum_ignored:
  assumes "length data \<le> 65495"
  shows "process_incoming_packet e (IPv4Packet_encode \<lparr>ip_header = stack_ip_header src dst,
      ip_payload = TcpHeader_wire (TcpHeader_set_checksum c h) @ data\<rparr>) s =
    process_incoming_packet e (IPv4Packet_encode \<lparr>ip_header = stack_ip_header src dst,
      ip_payload = TcpHeader_wire (TcpHeader_set_checksum d h) @ data\<rparr>) s"
proof -
  define seg where "seg c = TcpHeader_wire (TcpHeader_set_checksum c h) @ data" for c
  have in_seg: "process_incoming_packet e (IPv4Packet_encode
        \<lparr>ip_header = stack_ip_header src dst, ip_payload = seg c\<rparr>) s =
      (if TcpPacketView_valid (seg c) then process_segment e
        \<lparr>address = address src, port = TcpHeader_source_port_ntoh h\<rparr>
        \<lparr>address = address dst, port = TcpHeader_dest_port_ntoh h\<rparr> (seg c) s else Returns 0 s)" for c
    using assms IPv4Packet_encode_view [of "\<lparr>ip_header = stack_ip_header src dst, ip_payload = seg c\<rparr>"]
    by (simp add: process_incoming_packet_def Let_def seg_def TcpHeader_view_fields)
  have v: "TcpPacketView_valid (seg c) \<longleftrightarrow> TcpPacketView_valid (seg d)"
    by (simp add: TcpPacketView_valid_def seg_def TcpHeader_view_fields)
  have "same_fields (seg c) (seg d)" if "TcpPacketView_valid (seg c)"
    using that by (simp add: same_fields_def seg_def TcpHeader_view_fields TcpPacketView_payload_def
        TcpPacketView_valid_def)
  then show ?thesis
    using v process_segment_cong [of "seg c" "seg d"] unfolding seg_def [symmetric] in_seg by simp
qed

theorem received_checksum_ignored_witness:
  "process_incoming_packet example_env (IPv4Packet_encode \<lparr>ip_header = stack_ip_header
      IPv4Address_default IPv4Address_default, ip_payload = TcpHeader_wire
        (TcpHeader_set_checksum 1 TcpHeader_zero) @ [1, 2]\<rparr>) TcpStack_new =
   process_incoming_packet example_env (IPv4Packet_encode \<lparr>ip_header = stack_ip_header
      IPv4Address_default IPv4Address_default, ip_payload = TcpHeader_wire
        (TcpHeader_set_checksum 2 TcpHeader_zero) @ [1, 2]\<rparr>) TcpStack_new"
  by (rule received_checksum_ignored) simp

subsection \<open>Sequence numbers\<close>

text \<open>C38. Data is delivered whatever its sequence number: processing the same segment twice stores its
  payload twice and advances \<^verbatim>\<open>RCV.NXT\<close> twice, so a retransmission that crosses its acknowledgement
  duplicates data in the receiver's stream.\<close>

theorem duplicate_segment_delivered_twice:
  fixes t u :: tcb and q :: u32
  assumes "connected s j u b a" and "current_state u = ESTABLISHED" and "TCB_inv u"
    and "src_address t = a" and "dst_address t = b" and "data \<noteq> []" and "length data \<le> 65495"
    and "length (recv_stream u) + 2 * length data \<le> 65535"
  shows "\<exists>n s1 m s2 u2.
      process_incoming_packet e (datagram a b (create_writer_tcp_packet t data q)) s = Returns n s1
    \<and> process_incoming_packet e (datagram a b (create_writer_tcp_packet t data q)) s1 = Returns m s2
    \<and> get_tcb s2 j = Some u2 \<and> recv_stream u2 = recv_stream u @ data @ data
    \<and> RCV_NXT u2 = RCV_NXT u + of_nat (2 * length data)"
proof -
  obtain n s1 u1 where 1: "process_incoming_packet e (datagram a b (create_writer_tcp_packet t data q)) s =
      Returns n s1" "connected s1 j u1 b a" "current_state u1 = ESTABLISHED" "TCB_inv u1"
      "recv_stream u1 = recv_stream u @ data" "RCV_NXT u1 = RCV_NXT u + of_nat (length data)"
    using data_arrives [OF assms(1-7), of e q] assms(8) by auto
  obtain m s2 u2 where 2: "process_incoming_packet e (datagram a b (create_writer_tcp_packet t data q)) s1 =
      Returns m s2" "connected s2 j u2 b a" "recv_stream u2 = recv_stream u1 @ data"
      "RCV_NXT u2 = RCV_NXT u1 + of_nat (length data)"
    using data_arrives [OF 1(2-4) assms(4-7), of e q] 1(5) assms(8) by auto
  have "get_tcb s2 j = Some u2" using 2(2) by (simp add: connected_def)
  moreover have "recv_stream u2 = recv_stream u @ data @ data" using 1(5) 2(3) by simp
  moreover have "RCV_NXT u2 = RCV_NXT u + of_nat (2 * length data)" using 1(6) 2(4) by simp
  ultimately show ?thesis using 1(1) 2(1) by blast
qed

theorem duplicate_segment_delivered_twice_witness:
  "\<exists>s1 s2 n m u2. process_incoming_packet example_env (datagram \<lparr>address = 0x0A000002, port = 80\<rparr>
       \<lparr>address = 0x0A000003, port = 5000\<rparr> (create_writer_tcp_packet (example_block []) [9] 5))
       (example_conn example_peer) = Returns n s1
     \<and> process_incoming_packet example_env (datagram \<lparr>address = 0x0A000002, port = 80\<rparr>
       \<lparr>address = 0x0A000003, port = 5000\<rparr> (create_writer_tcp_packet (example_block []) [9] 5)) s1 =
         Returns m s2
     \<and> get_tcb s2 1 = Some u2 \<and> recv_stream u2 = [9, 9]"
  using duplicate_segment_delivered_twice [OF connected_example(2), of "example_block []" "[9]" example_env 5]
  by simp blast

text \<open>An acknowledgement beyond what was sent is accepted: it discards bytes that were never sent,
  moves \<^verbatim>\<open>SND.UNA\<close> past \<^verbatim>\<open>SND.NXT\<close>, and makes the number of bytes in flight wrap around, so that the
  sender has no usable window and sends nothing from then on.\<close>

theorem ack_beyond_sent_stalls:
  fixes d :: nat
  assumes "sender_ok t" and "0 < d" and "d \<le> 2 ^ 30"
    and "TcpPacketView_ack_num_ntoh packet = SND_NXT t + of_nat d"
  shows "SND_UNA (ack_tcb packet t) = SND_NXT t + of_nat d
    \<and> send_stream (ack_tcb packet t) = drop (unat (in_flight t) + d) (send_stream t)
    \<and> unat (in_flight (ack_tcb packet t)) = 2 ^ 32 - d
    \<and> next_chunk (ack_tcb packet t) = []"
proof -
  let ?a = "TcpPacketView_ack_num_ntoh packet" and ?t = "ack_tcb packet t"
  have f: "unat (in_flight t) \<le> 65535" and inv: "TCB_inv t"
    using assms(1) stream_bound [of t] by (simp_all add: sender_ok_def)
  have "?a - SND_UNA t = in_flight t + of_nat d" using assms(4) by (simp add: in_flight_def)
  then have n: "unat (?a - SND_UNA t) = unat (in_flight t) + d"
    using f assms(3) by (simp add: unat_add_small)
  have "?a \<noteq> SND_UNA t"
  proof
    assume "?a = SND_UNA t"
    then have "unat (?a - SND_UNA t) = 0" by simp
    with n assms(2) show False by linarith
  qed
  moreover have "unat (?a - SND_UNA t) < 2 ^ 31" unfolding n using f assms(3) by simp
  ultimately have new: "seq_after ?a (SND_UNA t)" using seq_after_window by blast
  have una: "SND_UNA ?t = ?a" and nxt: "SND_NXT ?t = SND_NXT t"
    and wnd: "SND_WND ?t = ucast (TcpPacketView_window_ntoh packet)"
    using new by (simp_all add: ack_tcb_new)
  have str: "send_stream ?t = drop (unat (in_flight t) + d) (send_stream t)"
    using new inv n by (simp add: ack_tcb_new discard_stream TCB_inv_def)
  have "in_flight ?t = - of_nat d" using una nxt assms(4) by (simp add: in_flight_def)
  moreover have "(- of_nat d :: u32) = of_nat (2 ^ 32 - d)"
    using assms(3) by (simp add: of_nat_diff)
  moreover have "unat (of_nat (2 ^ 32 - d) :: u32) = 2 ^ 32 - d"
    using assms(2) by (intro unat_of_nat_small) simp
  ultimately have fl: "unat (in_flight ?t) = 2 ^ 32 - d" by simp
  have "unat (SND_WND ?t) \<le> 65535"
    by (simp add: wnd)
  then have "unat (SND_WND ?t) - unat (in_flight ?t) = 0" using fl assms(3) by simp
  moreover have "TCB_inv ?t" using evolves_ack_tcb [of t packet] inv by (simp add: evolves_def)
  ultimately have "next_chunk ?t = []" by (simp add: next_chunk_eq)
  with una str fl assms(4) show ?thesis by simp
qed

theorem ack_beyond_sent_stalls_witness:
  "\<exists>packet. TcpPacketView_ack_num_ntoh packet = 7 \<and> next_chunk (ack_tcb packet (example_block [1, 2, 3])) = []
     \<and> unat (in_flight (ack_tcb packet (example_block [1, 2, 3]))) = 2 ^ 32 - 7"
proof -
  let ?p = "TcpPacket_encode (control_packet example_peer False True False False 0 7 65535)
    IPv4Address_default IPv4Address_default"
  have a: "TcpPacketView_ack_num_ntoh ?p = 7" by (simp add: control_view)
  show ?thesis
    using ack_beyond_sent_stalls [of "example_block [1, 2, 3]" 7 ?p] a by (intro exI [of _ ?p]) simp
qed

subsection \<open>Closing\<close>

lemma close_flushes_once:
  assumes "get_tcb s i = Some t" and "current_state t = ESTABLISHED"
  shows "get_tcb (fst (close_connection e i s)) i = Some ((TCB_close (sent (env_now e (clock_reads s)) t))\<lparr>
    SND_NXT := SND_NXT t + of_nat (length (next_chunk t)) + 1\<rparr>)"
proof -
  have ns: "current_state t \<noteq> SYN_SENT" and snd: "sendable t" using assms(2) by (simp_all add: sendable_def)
  show ?thesis
    using assms get_tcb_process_block [OF assms(1) ns, of e] snd
    by (simp add: close_connection_def close_with_fin_def Let_def unfold_sends TCB_set_state_def
        TCB_close_def sent_def)
qed

lemma close_output:
  assumes "get_tcb s i = Some t" and "current_state t = ESTABLISHED"
  shows "\<exists>w. wire e t (fst (close_connection e i s)) = wire e t s
    @ (if next_chunk t = [] then []
       else [datagram (src_address t) (dst_address t) (create_writer_tcp_packet t (next_chunk t) (SND_NXT t))])
    @ [datagram (src_address t) (dst_address t) (control_packet w False True False True
        (SND_NXT t + of_nat (length (next_chunk t))) (RCV_NXT t) 65535)]"
proof -
  let ?s1 = "process_block e i s" and ?t1 = "sent (env_now e (clock_reads s)) t"
  define w where "w = TCB_set_state FIN_WAIT_1 (TCB_close ?t1)"
  have ns: "current_state t \<noteq> SYN_SENT" and snd: "sendable t" using assms(2) by (simp_all add: sendable_def)
  have g: "get_tcb ?s1 i = Some ?t1" using get_tcb_process_block [OF assms(1) ns, of e] snd by simp
  have f: "src_address w = src_address t" "dst_address w = dst_address t"
    "SND_NXT w = SND_NXT t + of_nat (length (next_chunk t))" "RCV_NXT w = RCV_NXT t"
    using snd by (simp_all add: w_def TCB_set_state_def TCB_close_def Let_def sent_def)
  have "wire e t (fst (close_connection e i s)) = wire e t ?s1
      @ [datagram (src_address t) (dst_address t) (control_packet w False True False True (SND_NXT w) (RCV_NXT w) 65535)]"
    using assms g f by (simp add: close_connection_def close_with_fin_def Let_def unfold_sends wire_def flip: w_def)
  moreover have "wire e t ?s1 = wire e t s @ (if next_chunk t = [] then []
       else [datagram (src_address t) (dst_address t) (create_writer_tcp_packet t (next_chunk t) (SND_NXT t))])"
    using process_block_output [OF assms(1) ns, of e] snd by (auto simp: wire_def emits_def split: if_splits)
  ultimately show ?thesis using f by auto
qed

text \<open>C39. Closing with data left to send loses a byte. \<^verbatim>\<open>close_connection\<close> sends at most one segment of
  the unsent data and then its FIN, without payload; when more remains, the FIN has the sequence number of the next
  unsent byte: \<open>n\<close> bytes after \<^verbatim>\<open>SND.UNA\<close>, where the \<open>n\<close> bytes before it are in flight and byte \<open>n\<close> of the send buffer is
  unsent. The data that the block sends afterwards starts one byte later.\<close>

theorem close_skips_byte:
  fixes t :: tcb
  defines "n \<equiv> unat (in_flight t) + length (next_chunk t)"
  assumes "get_tcb s i = Some t" and "current_state t = ESTABLISHED" and "sender_ok t"
    and "n < length (send_stream t)"
  shows "\<exists>t' p. get_tcb (fst (close_connection e i s)) i = Some t' \<and> current_state t' = FIN_WAIT_1
    \<and> wire e t (fst (close_connection e i s)) = wire e t s
        @ (if next_chunk t = [] then []
           else [datagram (src_address t) (dst_address t) (create_writer_tcp_packet t (next_chunk t) (SND_NXT t))])
        @ [datagram (src_address t) (dst_address t) p]
    \<and> TcpHeader_fin (tcp_header p) \<and> TcpHeader_ack (tcp_header p) \<and> tcp_payload p = []
    \<and> TcpHeader_seq_num_ntoh (tcp_header p) = SND_UNA t + of_nat n
    \<and> send_stream t' = send_stream t \<and> SND_UNA t' = SND_UNA t
    \<and> SND_NXT t' = SND_NXT t + of_nat (length (next_chunk t)) + 1
    \<and> unat (in_flight t') = n + 1
    \<and> next_chunk t' = take (min (unat (SND_WND t) - (n + 1)) 1460) (drop (n + 1) (send_stream t))"
proof -
  define t' where "t' = (TCB_close (sent (env_now e (clock_reads s)) t))\<lparr>
    SND_NXT := SND_NXT t + of_nat (length (next_chunk t)) + 1\<rparr>"
  have inv: "TCB_inv t" using assms(4) by (simp add: sender_ok_def)
  have st: "current_state t' = FIN_WAIT_1" "send_stream t' = send_stream t" "SND_UNA t' = SND_UNA t"
    "SND_WND t' = SND_WND t" "TCB_inv t'"
    "SND_NXT t' = SND_NXT t + of_nat (length (next_chunk t)) + 1"
    using assms(3) inv by (simp_all add: t'_def TCB_close_def TCB_set_state_def sent_def Let_def TCB_inv_def)
  have "in_flight t' = in_flight t + of_nat (length (next_chunk t) + 1)"
    using st(3,6) by (simp add: in_flight_def)
  then have fl: "unat (in_flight t') = n + 1"
    using assms(5) stream_bound [OF inv] unat_add_small [of "in_flight t" "length (next_chunk t) + 1"]
    by (simp add: n_def)
  have chunk: "next_chunk t' = take (min (unat (SND_WND t) - (n + 1)) 1460) (drop (n + 1) (send_stream t))"
    by (simp only: next_chunk_eq [OF st(5)] fl st)
  have seq: "SND_NXT t + of_nat (length (next_chunk t)) = SND_UNA t + of_nat n"
    by (simp add: n_def in_flight_def)
  obtain w where "wire e t (fst (close_connection e i s)) = wire e t s
      @ (if next_chunk t = [] then []
         else [datagram (src_address t) (dst_address t) (create_writer_tcp_packet t (next_chunk t) (SND_NXT t))])
      @ [datagram (src_address t) (dst_address t)
          (control_packet w False True False True (SND_UNA t + of_nat n) (RCV_NXT t) 65535)]"
    using close_output [OF assms(2,3), of e] unfolding seq by blast
  moreover have "get_tcb (fst (close_connection e i s)) i = Some t'"
    using close_flushes_once [OF assms(2,3), of e] by (simp add: t'_def)
  ultimately show ?thesis
    using st chunk fl
    by (intro exI [of _ t'] exI [of _ "control_packet w False True False True (SND_UNA t + of_nat n) (RCV_NXT t) 65535"]) simp
qed

theorem close_skips_byte_witness:
  "\<exists>t' p q. get_tcb (fst (close_connection example_env 1 (example_stack (example_block (replicate 3000 7))))) 1 = Some t'
     \<and> wire example_env (example_block (replicate 3000 7))
         (fst (close_connection example_env 1 (example_stack (example_block (replicate 3000 7))))) =
         [q, datagram \<lparr>address = 0x0A000002, port = 80\<rparr> \<lparr>address = 0x0A000003, port = 5000\<rparr> p]
     \<and> TcpHeader_fin (tcp_header p) \<and> TcpHeader_seq_num_ntoh (tcp_header p) = 1460
     \<and> unat (in_flight t') = 1461 \<and> next_chunk t' = replicate 1460 7"
proof -
  let ?t = "example_block (replicate 3000 7)"
  have l: "length (next_chunk ?t) = 1460" by (simp add: next_chunk_length)
  then have "next_chunk ?t \<noteq> []" by auto
  moreover obtain t' p where "get_tcb (fst (close_connection example_env 1 (example_stack ?t))) 1 = Some t'"
    "wire example_env ?t (fst (close_connection example_env 1 (example_stack ?t))) = wire example_env ?t (example_stack ?t)
        @ (if next_chunk ?t = [] then []
           else [datagram (src_address ?t) (dst_address ?t) (create_writer_tcp_packet ?t (next_chunk ?t) (SND_NXT ?t))])
        @ [datagram (src_address ?t) (dst_address ?t) p]"
    "TcpHeader_fin (tcp_header p)" "TcpHeader_seq_num_ntoh (tcp_header p) = 1460" "unat (in_flight t') = 1461"
    "next_chunk t' = replicate 1460 7"
    using close_skips_byte [where t = ?t and i = 1 and e = example_env and s = "example_stack ?t"] l by auto
  ultimately show ?thesis by (intro exI [of _ t'] exI [of _ p]) simp
qed

text \<open>C40. A connection whose two ends live in the same stack: when the end in \<^verbatim>\<open>FIN_WAIT_2\<close> receives the
  peer's FIN, the connection that is destroyed is the peer's, which is still waiting for the last
  acknowledgement, and the end that should disappear stays in the table, \<^verbatim>\<open>CLOSED\<close>.\<close>

theorem release_destroys_local_peer:
  assumes "get_tcb s i = Some t" and "current_state t = FIN_WAIT_2" and "TcpPacketView_fin packet"
    and "map_of (connection_table s) (src_address t, dst_address t) = Some j" and "get_tcb s j = Some u"
    and "i \<noteq> j"
  shows "\<exists>s' t'. dispatch_state e i t src dst packet s = Returns 1 s' \<and> get_tcb s' j = None
    \<and> get_tcb s' i = Some t' \<and> current_state t' = CLOSED"
proof -
  define v where "v = (if TcpPacketView_ack packet
    then t\<lparr>RCV_NXT := TcpPacketView_seq_num_ntoh packet + 1, SND_NXT := TcpPacketView_ack_num_ntoh packet\<rparr>
    else t\<lparr>RCV_NXT := TcpPacketView_seq_num_ntoh packet + 1\<rparr>)"
  define s1 where "s1 = modify_tcb i (TCB_set_state CLOSED) (transmit e (src_address t) (dst_address t)
    (control_packet v False True False False (SND_NXT v) (RCV_NXT v) 65535) (modify_tcb i (\<lambda>_. v) s))"
  let ?s = "fst (destroy_connection (src_address t) (dst_address t) s1)"
  have "src_address v = src_address t" "dst_address v = dst_address t" by (simp_all add: v_def)
  then have "dispatch_state e i t src dst packet s = Returns 1 ?s"
    using assms(1-3)
    by (simp add: dispatch_simps returns_def handle_fin_wait_2_state_def unfold_sends s1_def v_def)
  moreover have j: "j \<noteq> 0" using assms(5) by (rule contrapos_pn) simp
  have "connection_table s1 = connection_table s" by (simp add: s1_def)
  then have "?s = s1\<lparr>socket_table := fst (SocketTable_destroy_socket j (socket_table s1)),
      connection_table := AList.delete (src_address t, dst_address t) (connection_table s)\<rparr>"
    using assms(4) j
    by (simp add: destroy_connection_def ConnectionTable_destroy_connection_def case_prod_unfold Let_def)
  moreover have "get_tcb s1 = (get_tcb s)(i \<mapsto> TCB_set_state CLOSED v)"
    using assms(1) by (simp add: s1_def)
  ultimately show ?thesis
    using assms(6) j by (simp add: get_tcb_destroy TCB_set_state_def)
qed

definition example_pair :: "tcb \<Rightarrow> tcb \<Rightarrow> TcpStack" where
  "example_pair t u = TcpStack_new\<lparr>socket_table := SocketTable_new\<lparr>sockets := [(1, t), (2, u)], next_id := 3\<rparr>,
     connection_table := [((dst_address t, src_address t), 1), ((dst_address u, src_address u), 2)]\<rparr>"

theorem release_destroys_local_peer_witness:
  "\<exists>a b c s' t'. a \<noteq> b \<and> dispatch_state example_env 1 (TCB_new FIN_WAIT_2 a b) b a c
       (example_pair (TCB_new FIN_WAIT_2 a b) (TCB_new LAST_ACK b a)) = Returns 1 s'
     \<and> get_tcb s' 2 = None \<and> get_tcb s' 1 = Some t' \<and> current_state t' = CLOSED"
proof -
  let ?a = "\<lparr>address = 0x0A000002, port = 80\<rparr> :: IPv4Address"
  let ?b = "\<lparr>address = 0x0A000002, port = 5000\<rparr> :: IPv4Address"
  let ?t = "TCB_new FIN_WAIT_2 ?a ?b" and ?u = "TCB_new LAST_ACK ?b ?a"
  let ?c = "TcpPacket_encode (control_packet ?u False True False True 7 8 65535) ?b ?a"
  have "get_tcb (example_pair ?t ?u) 1 = Some ?t" "get_tcb (example_pair ?t ?u) 2 = Some ?u"
    by (simp_all add: example_pair_def get_tcb_def SocketTable_find_socket_def)
  moreover have "map_of (connection_table (example_pair ?t ?u)) (?a, ?b) = Some 2"
    by (simp add: example_pair_def)
  moreover have "TcpPacketView_fin ?c" by (simp add: control_view)
  ultimately have "\<exists>s' t'. dispatch_state example_env 1 ?t ?b ?a ?c (example_pair ?t ?u) = Returns 1 s'
      \<and> get_tcb s' 2 = None \<and> get_tcb s' 1 = Some t' \<and> current_state t' = CLOSED"
    by (intro release_destroys_local_peer) simp_all
  then show ?thesis
    by (intro exI [of _ ?a] exI [of _ ?b] exI [of _ ?c]) simp
qed

subsection \<open>States\<close>

text \<open>A port that was bound but never put into \<^verbatim>\<open>LISTEN\<close> accepts connections: a SYN for it creates a
  block in \<^verbatim>\<open>SYN_RECEIVED\<close> and is answered with a SYN-ACK instead of a reset.\<close>

theorem bound_port_accepts_without_listen:
  fixes s :: TcpStack and t :: tcb and x :: u32
  defines "j \<equiv> next_id (socket_table s)"
  assumes "get_tcb s (find_listener s (port b)) = Some l" and "current_state l = CLOSED"
    and "get_tcb s j = None" and "j \<noteq> 0" and "find_connections_tcb s a b = 0"
    and "src_address t = a" and "dst_address t = b"
  shows "\<exists>n s' u. process_incoming_packet e (datagram a b (control_packet t True False False False x 0 65535)) s =
      Returns n s' \<and> get_tcb s' j = Some u \<and> current_state u = SYN_RECEIVED
    \<and> emits e b a (control_packet u True True False False (SND_ISS u) (x + 1) 65535) s s'"
proof -
  let ?p = "control_packet t True False False False x 0 65535"
  have "find_listener s (port b) \<noteq> 0" using assms(2) by (rule contrapos_pn) simp
  then obtain n s' u where "process_incoming_packet e (datagram a b ?p) s = Returns n s'"
      "get_tcb s' = (get_tcb s)(j \<mapsto> u)" and u: "u = syn_child j a b (TcpPacket_encode ?p a b) (env_random e (draws s))"
      and "emits e b a (control_packet u True True False False (SND_ISS u) (RCV_NXT u) 65535) s s'"
    using handshake_server [of s b a t e x] assms(4-8) unfolding j_def by blast
  moreover have "current_state u = SYN_RECEIVED" "RCV_NXT u = x + 1"
    by (simp_all add: u syn_child_def TCB_new_def control_view)
  ultimately show ?thesis by auto
qed

definition example_bound :: TcpStack where
  "example_bound = snd (TcpSocket_bind example_env \<lparr>address = 0, port = 80\<rparr> TcpSocket_new TcpStack_new)"

lemma example_bound_simps:
  "get_tcb example_bound 2 = None" "next_id (socket_table example_bound) = 2"
  "find_listener example_bound 80 = 1" "connection_table example_bound = []"
  "map_option current_state (get_tcb example_bound 1) = Some CLOSED"
  by (simp_all add: example_bound_def TcpSocket_bind_def bind_socket_def
      ListenerTable_bind_new_def SocketTable_create_socket_def TcpStack_new_def SocketTable_new_def
      Let_def get_tcb_def SocketTable_find_socket_def generate_random_uint32_def modify_tcb_def
      SocketTable_modify_def ListenerTable_find_def SocketTable_contains_def TCB_new_def
      TcpSocket_new_def)

theorem bound_port_accepts_without_listen_witness:
  "\<exists>n s' u. process_incoming_packet example_env (datagram \<lparr>address = 0x0A000003, port = 5000\<rparr>
       \<lparr>address = 0x0A000002, port = 80\<rparr> (control_packet example_peer True False False False 77 0 65535))
       example_bound = Returns n s'
     \<and> get_tcb s' 2 = Some u \<and> current_state u = SYN_RECEIVED"
proof -
  obtain l where l: "get_tcb example_bound 1 = Some l" "current_state l = CLOSED"
    using example_bound_simps(5) by auto
  have "find_connections_tcb example_bound \<lparr>address = 0x0A000003, port = 5000\<rparr>
      \<lparr>address = 0x0A000002, port = 80\<rparr> = 0"
    by (simp add: find_connections_eq example_bound_simps)
  then show ?thesis
    using bound_port_accepts_without_listen [where s = example_bound and l = l and e = example_env
        and t = example_peer and x = 77 and a = "\<lparr>address = 0x0A000003, port = 5000\<rparr>"
        and b = "\<lparr>address = 0x0A000002, port = 80\<rparr>"] l
    by (simp add: example_bound_simps) blast
qed

text \<open>A block in \<^verbatim>\<open>CLOSE_WAIT\<close> is deaf: every segment that arrives for it is dropped without any
  change, acknowledgements included, so data that it still sends is never released from its buffer.\<close>

theorem close_wait_ignores_segments:
  assumes "connected s i t a b" and "current_state t = CLOSE_WAIT" and "plain_packet p"
    and "TcpHeader_source_port_ntoh (tcp_header p) = port b"
    and "TcpHeader_dest_port_ntoh (tcp_header p) = port a"
  shows "process_incoming_packet e (datagram b a p) s = Returns 0 s"
  using connected_arrival [OF assms(1,3-5)] assms(2) by (simp add: dispatch_state_def)

theorem close_wait_ignores_segments_witness:
  "\<exists>s. (\<exists>t. get_tcb s 1 = Some t \<and> current_state t = CLOSE_WAIT) \<and>
     process_incoming_packet example_env (datagram \<lparr>address = 0x0A000003, port = 5000\<rparr>
       \<lparr>address = 0x0A000002, port = 80\<rparr> (create_writer_tcp_packet example_peer [1, 2] 0)) s = Returns 0 s"
proof -
  let ?t = "(example_block [])\<lparr>current_state := CLOSE_WAIT\<rparr>"
  have "connected (example_conn ?t) 1 ?t \<lparr>address = 0x0A000002, port = 80\<rparr> \<lparr>address = 0x0A000003, port = 5000\<rparr>"
    by (simp add: connected_def) (simp add: example_conn_def)
  then show ?thesis
    using close_wait_ignores_segments [of "example_conn ?t" 1 ?t]
    by (intro exI [of _ "example_conn ?t"]) simp
qed

end
