(* ===== verification/Loss_Recovery.thy ===== *)
theory Loss_Recovery
  imports Stream_Transfer
begin

text \<open>
  What the stack does when the network or a peer fails. The hooks of the testing build (\<^verbatim>\<open>TcpStack.h\<close>,
  \<^verbatim>\<open>TCP_STACK_TESTING\<close>) simulate such failures: dropping outgoing packets, observing them, injecting
  packets, and forgetting a connection.

  The lemmas show that a segment that is lost any number of times is delivered once by the retransmission
  pass, and what happens on a connection that only one of the two ends still knows.
\<close>

subsection \<open>The hooks of the testing build\<close>

text \<open>The two callbacks; an interceptor returns nothing, so that all that matters is whether one is set.\<close>

record testing_hooks =
  outbound_interceptor :: bool
  packet_drop_predicate :: "(IPv4Address \<Rightarrow> IPv4Address \<Rightarrow> TcpPacket \<Rightarrow> bool) option"

definition testing_hooks_new :: testing_hooks where
  "testing_hooks_new = \<lparr>outbound_interceptor = False, packet_drop_predicate = None\<rparr>"

definition set_outbound_interceptor :: "bool \<Rightarrow> testing_hooks \<Rightarrow> testing_hooks" where
  "set_outbound_interceptor callback h = h\<lparr>outbound_interceptor := callback\<rparr>"

definition set_packet_drop_predicate ::
  "(IPv4Address \<Rightarrow> IPv4Address \<Rightarrow> TcpPacket \<Rightarrow> bool) option \<Rightarrow> testing_hooks \<Rightarrow> testing_hooks" where
  "set_packet_drop_predicate predicate h = h\<lparr>packet_drop_predicate := predicate\<rparr>"

text \<open>\<^verbatim>\<open>write_packet_\<close> with the two callbacks; the last component of the result lists what the interceptor was
  called with.\<close>

definition write_packet_testing ::
  "testing_hooks \<Rightarrow> stack_env \<Rightarrow> IPv4Address \<Rightarrow> IPv4Address
     \<Rightarrow> TcpPacket \<Rightarrow> TcpStack \<Rightarrow> TcpStack \<times> nat \<times> (IPv4Address \<times> IPv4Address \<times> TcpPacket) list" where
  "write_packet_testing h e src dst p s =
     (case serialize_packet src dst p (replicate MAX_IPV4_PACKET_SIZE 0)
             (replicate MAX_IPV4_PACKET_SIZE 0) of
        None \<Rightarrow> (s, 0, [])
      | Some (ip_buf, ip_payload_size) \<Rightarrow>
          (let seen = (if outbound_interceptor h then [(src, dst, p)] else [])
           in case packet_drop_predicate h of
                Some f \<Rightarrow>
                  if f src dst p then (s, ip_payload_size, seen)
                  else let (s, n) = write_packet e src dst p s in (s, n, seen)
              | None \<Rightarrow> let (s, n) = write_packet e src dst p s in (s, n, seen)))"

definition inject_packet :: "stack_env \<Rightarrow> bytes \<Rightarrow> TcpStack \<Rightarrow> nat outcome" where
  "inject_packet e raw_bytes s = process_incoming_packet e raw_bytes s"

definition simulate_node_crash :: "IPv4Address \<Rightarrow> IPv4Address \<Rightarrow> TcpStack \<Rightarrow> TcpStack" where
  "simulate_node_crash remote_addr local_addr s =
     s\<lparr>connection_table := fst (ConnectionTable_erase remote_addr local_addr (connection_table s))\<rparr>"

text \<open>Without callbacks the testing build writes like the other one; a dropped packet is reported as written
  and is on neither wire, and an interceptor sees it all the same.\<close>

lemma write_packet_testing_cases:
  assumes "plain_packet p"
  shows "write_packet_testing testing_hooks_new e src dst p s =
      (fst (write_packet e src dst p s), snd (write_packet e src dst p s), [])"
    and "f src dst p \<Longrightarrow> write_packet_testing (set_packet_drop_predicate (Some f) h) e src dst p s =
      (s, 40 + length (tcp_payload p), if outbound_interceptor h then [(src, dst, p)] else [])"
    and "snd (snd (write_packet_testing (set_outbound_interceptor True h) e src dst p s)) = [(src, dst, p)]"
proof -
  obtain b where b: "serialize_packet src dst p (replicate 65535 0) (replicate 65535 0) =
      Some (b, length (datagram src dst p))"
    using serialize_packet_eq [OF assms, of "replicate 65535 0" "replicate 65535 0"] by fastforce
  note d = write_packet_testing_def testing_hooks_new_def set_packet_drop_predicate_def set_outbound_interceptor_def
  show "write_packet_testing testing_hooks_new e src dst p s =
      (fst (write_packet e src dst p s), snd (write_packet e src dst p s), [])"
    and "f src dst p \<Longrightarrow> write_packet_testing (set_packet_drop_predicate (Some f) h) e src dst p s =
      (s, 40 + length (tcp_payload p), if outbound_interceptor h then [(src, dst, p)] else [])"
    and "snd (snd (write_packet_testing (set_outbound_interceptor True h) e src dst p s)) = [(src, dst, p)]"
    using b by (simp_all add: d MAX_IPV4_PACKET_SIZE_def case_prod_unfold Let_def split: option.split)
qed

subsection \<open>Lost segments\<close>

lemma SocketTable_inv_modify:
  assumes "SocketTable_inv (socket_table s)"
    and "\<And>t. get_tcb s i = Some t \<Longrightarrow> tcb_id (f t) = tcb_id t \<and> (TCB_inv t \<longrightarrow> TCB_inv (f t))"
  shows "SocketTable_inv (socket_table (modify_tcb i f s))"
  using st.modify_inv [OF assms(1), of i f] st.find_ok [OF assms(1)] assms(2)
  by (simp add: modify_tcb_def get_tcb_def)

lemma SocketTable_inv_frame [simp]:
  "socket_table (transmit e a b p s) = socket_table s" "socket_table (add_dirty_tcb i s) = socket_table s"
  by (simp_all add: transmit_def add_dirty_tcb_def)

lemma process_block_table:
  assumes "SocketTable_inv (socket_table s)"
  shows "SocketTable_inv (socket_table (process_block e i s))"
proof (cases "get_tcb s i")
  case (Some t)
  have "SocketTable_inv (socket_table (modify_tcb i (\<lambda>t. t\<lparr>last_written := n\<rparr>) (s\<lparr>clock_reads := m\<rparr>)))" for n m
    using assms by (intro SocketTable_inv_modify) (simp_all add: TCB_inv_def)
  moreover from this have "SocketTable_inv (socket_table (modify_tcb i (\<lambda>u. u\<lparr>SND_NXT := SND_NXT u + d\<rparr>)
      (modify_tcb i (\<lambda>t. t\<lparr>last_written := n\<rparr>) (s\<lparr>clock_reads := m\<rparr>))))" for n m d
    by (rule SocketTable_inv_modify) (simp add: TCB_inv_def)
  ultimately show ?thesis by (simp add: process_block_eq [OF Some] Let_def)
qed (use assms in \<open>simp add: process_block_none\<close>)

text \<open>What a pass leaves alone, and what it puts on the wire.\<close>

lemma retransmit_pass_frame:
  "connection_table (retransmit_pass e now xs s) = connection_table s
   \<and> (SocketTable_inv (socket_table s) \<longrightarrow> SocketTable_inv (socket_table (retransmit_pass e now xs s)))
   \<and> clock_reads (retransmit_pass e now xs s) = clock_reads s"
proof (induction xs arbitrary: s)
  case (Cons x xs)
  obtain i t where x: "x = (i, t)" by (cases x)
  have "connection_table (retransmit_block e now i t s) = connection_table s"
    "clock_reads (retransmit_block e now i t s) = clock_reads s"
    by (simp_all add: retransmit_block_eq transmit_def)
  moreover have "SocketTable_inv (socket_table (retransmit_block e now i t s))" if "SocketTable_inv (socket_table s)"
    using SocketTable_inv_modify [OF that] that by (simp add: retransmit_block_eq TCB_inv_def)
  ultimately show ?case using x Cons.IH by simp
qed simp

lemma retransmit_pass_appends:
  assumes "(i, t) \<in> set xs" and "retransmit_due now t" and "retransmit_chunk t \<noteq> []"
  shows "\<exists>raws. wire e t (retransmit_pass e now xs s) = wire e t s @ raws
    \<and> datagram (src_address t) (dst_address t)
        (create_writer_tcp_packet t (retransmit_chunk t) (SND_UNA t)) \<in> set raws"
  using assms(1)
proof (induction xs arbitrary: s)
  case (Cons x xs)
  obtain j u where x: "x = (j, u)" by (cases x)
  obtain r1 where r1: "wire e t (retransmit_block e now j u s) = wire e t s @ r1"
    using wire_retransmit_block by blast
  show ?case
  proof (cases "(j, u) = (i, t)")
    case True
    obtain r2 where "wire e t (retransmit_pass e now xs (retransmit_block e now i t s)) =
        wire e t (retransmit_block e now i t s) @ r2"
      using wire_retransmit_pass by blast
    moreover have "wire e t (retransmit_block e now i t s) = wire e t s @ [datagram (src_address t) (dst_address t)
        (create_writer_tcp_packet t (retransmit_chunk t) (SND_UNA t))]"
      using assms(2,3) by (simp add: retransmit_block_eq wire_def)
    ultimately show ?thesis using x True by simp
  next
    case False
    then have "(i, t) \<in> set xs" using Cons.prems x by auto
    from Cons.IH [OF this] r1 x show ?thesis by (auto simp del: append_assoc) (metis append_assoc in_set_conv_decomp)
  qed
qed simp

text \<open>A clock whose readings are at least a timeout apart; \<open>rto\<close> is in milliseconds.\<close>

definition readings_apart :: "stack_env \<Rightarrow> int \<Rightarrow> bool" where
  "readings_apart e rto \<longleftrightarrow> (\<forall>n. rto * 1000000 \<le> env_now e (Suc n) - env_now e n)"

text \<open>The block of a sender that waits for an acknowledgement, stamped at the last reading of the clock.\<close>

definition awaiting :: "stack_env \<Rightarrow> socket_id \<Rightarrow> IPv4Address \<Rightarrow> IPv4Address \<Rightarrow> TcpStack \<Rightarrow> tcb \<Rightarrow> bool" where
  "awaiting e i a b s t \<longleftrightarrow> SocketTable_inv (socket_table s) \<and> connected s i t a b \<and> current_state t = ESTABLISHED
     \<and> sender_ok t \<and> 0 < in_flight t \<and> (\<exists>n. clock_reads s = Suc n \<and> last_written t = env_now e n)"

abbreviation again :: "stack_env \<Rightarrow> TcpStack \<Rightarrow> tcb \<Rightarrow> tcb" where
  "again e s t \<equiv> retransmitted (env_now e (clock_reads s)) t"

lemma again_simps [simp]:
  "in_flight (again e s t) = in_flight t" "send_stream (again e s t) = send_stream t" "RTO (again e s t) = RTO t"
  "SND_NXT (again e s t) = SND_NXT t" "SND_UNA (again e s t) = SND_UNA t" "src_address (again e s t) = src_address t"
  "dst_address (again e s t) = dst_address t" "sender_ok (again e s t) = sender_ok t"
  "current_state (again e s t) = current_state t" "last_written (again e s t) = env_now e (clock_reads s)"
  by (simp_all add: retransmitted_def in_flight_def sender_ok_def TCB_inv_def)

lemma wire_clock: "wire e t (s\<lparr>clock_reads := n\<rparr>) = wire e t s"
  by (simp add: wire_def)

lemma awaiting_pass:
  assumes "awaiting e i a b s t" and "readings_apart e (RTO t)"
  shows "awaiting e i a b (check_retransmissions e s) (again e s t)"
    and "\<exists>raws. wire e t (check_retransmissions e s) = wire e t s @ raws
      \<and> datagram a b (create_writer_tcp_packet t (take (min (unat (in_flight t)) 1460) (send_stream t)) (SND_UNA t))
          \<in> set raws"
proof -
  let ?now = "env_now e (clock_reads s)" and ?xs = "sockets (socket_table s)"
    and ?s = "s\<lparr>clock_reads := clock_reads s + 1\<rparr>"
  have h: "SocketTable_inv (socket_table s)" "connected s i t a b" "sender_ok t"
    using assms(1) by (simp_all add: awaiting_def)
  have t: "get_tcb s i = Some t" "src_address t = a" "dst_address t = b" using h(2) by (simp_all add: connected_def)
  have m: "map_of ?xs i = Some t" "distinct (map fst ?xs)"
    using h(1) t(1) by (auto simp: get_tcb_def SocketTable_find_socket_def SocketTable_inv_def split: if_splits)
  have due: "retransmit_due ?now t"
    using assms by (auto simp: awaiting_def retransmit_due_def readings_apart_def)
  note chunk = retransmit_due_chunk [OF h(3) due]
  have s': "check_retransmissions e s = retransmit_pass e ?now ?xs ?s"
    by (simp add: check_retransmissions_def system_clock_now_def SocketTable_for_each_socket_def)
  have g: "get_tcb (check_retransmissions e s) i = Some (again e s t)"
    using retransmit_pass_get [OF m(2,1), of ?s t e ?now] t(1) due chunk by (simp add: s')
  have f: "connection_table (check_retransmissions e s) = connection_table s"
      "SocketTable_inv (socket_table (check_retransmissions e s))"
      "clock_reads (check_retransmissions e s) = Suc (clock_reads s)"
    using retransmit_pass_frame [of e ?now ?xs ?s] h(1) by (simp_all add: s')
  have "connected (check_retransmissions e s) i (again e s t) a b"
    using h(2) g f(1) by (simp add: connected_def)
  then show "awaiting e i a b (check_retransmissions e s) (again e s t)"
    using assms(1) f by (simp add: awaiting_def)
  show "\<exists>raws. wire e t (check_retransmissions e s) = wire e t s @ raws
      \<and> datagram a b (create_writer_tcp_packet t (take (min (unat (in_flight t)) 1460) (send_stream t)) (SND_UNA t))
          \<in> set raws"
    using retransmit_pass_appends [OF map_of_SomeD [OF m(1)] due chunk, of e ?s] h(3) t(2,3)
    by (simp add: s' retransmit_chunk_eq sender_ok_def wire_clock)
qed

lemma awaiting_passes:
  assumes "awaiting e i a b s t" and "readings_apart e (RTO t)"
  shows "\<exists>t'. awaiting e i a b ((check_retransmissions e ^^ k) s) t' \<and> in_flight t' = in_flight t \<and> RTO t' = RTO t
    \<and> send_stream t' = send_stream t \<and> SND_NXT t' = SND_NXT t"
proof (induction k)
  case (Suc k)
  then obtain t' where t': "awaiting e i a b ((check_retransmissions e ^^ k) s) t'" "in_flight t' = in_flight t"
      "RTO t' = RTO t" "send_stream t' = send_stream t" "SND_NXT t' = SND_NXT t" by blast
  then have "readings_apart e (RTO t')" using assms(2) by simp
  from awaiting_pass(1) [OF t'(1) this] t'(2-5) show ?case by fastforce
qed (use assms in auto)


lemma idle_example:
  assumes "length data \<le> 65535"
  shows "idle_pair 1 1 \<lparr>address = 0x0A000002, port = 80\<rparr> \<lparr>address = 0x0A000003, port = 5000\<rparr>
    (example_conn (example_block data)) (example_block data) (example_conn example_peer) example_peer"
  using connected_example assms by (simp add: idle_pair_def)


subsection \<open>Half-open connections\<close>

text \<open>A connection that the peer has forgotten is never reset. After the peer's \<^verbatim>\<open>simulate_node_crash\<close> the connection is
  no longer routed there, although its control block stays in the table. A data segment that the sender then
  emits is answered with a RST, but a block in \<^verbatim>\<open>ESTABLISHED\<close> takes no notice of it: the state of the
  sender's stack is exactly the same as before, so that the application goes on waiting and the same bytes are
  sent again at the next timeout.\<close>

theorem half_open_never_reset:
  assumes "connected sA i t a b" and "current_state t = ESTABLISHED" and "sender_ok t" and "next_chunk t \<noteq> []"
    and "connected sB j u b a"
  shows "get_tcb (simulate_node_crash a b sB) j = Some u \<and> find_connections_tcb (simulate_node_crash a b sB) a b = 0
    \<and> (\<exists>p n sB1 rst. emits ea a b p sA (process_block ea i sA)
      \<and> inject_packet eb (datagram a b p) (simulate_node_crash a b sB) = Returns n sB1
      \<and> emits eb b a rst (simulate_node_crash a b sB) sB1 \<and> TcpHeader_rst (tcp_header rst)
      \<and> inject_packet ea (datagram b a rst) (process_block ea i sA) = Returns 0 (process_block ea i sA))"
proof -
  let ?s = "simulate_node_crash a b sB" and ?p = "create_writer_tcp_packet t (next_chunk t) (SND_NXT t)"
    and ?rst = "raw_rst_packet b a (RCV_NXT t) 0 False" and ?t = "sent (env_now ea (clock_reads sA)) t"
  have t: "src_address t = a" "dst_address t = b" using assms(1) by (simp_all add: connected_def)
  have B: "get_tcb ?s j = Some u" "find_connections_tcb ?s a b = 0"
    using assms(5) by (simp_all add: connected_def simulate_node_crash_def find_connections_eq
        ConnectionTable_erase_def delete_conv')
  note A = segment_sent [OF assms(1-3) refl assms(4), of ea]
  have "inject_packet eb (datagram a b ?p) ?s = process_segment eb a b (TcpPacket_encode ?p a b) ?s"
    unfolding inject_packet_def using t next_chunk_bounded(1) [of t]
    by (intro process_incoming_datagram) simp_all
  also have "\<dots> = returns (send_raw_rst eb b a (RCV_NXT t) 0 False ?s)"
    using B(2) by (simp add: process_segment_def writer_view handle_closed_reset_response_def)
  finally obtain n where "inject_packet eb (datagram a b ?p) ?s = Returns n (transmit eb b a ?rst ?s)"
    by (simp add: returns_def send_raw_rst_eq)
  moreover have "emits eb b a ?rst ?s (transmit eb b a ?rst ?s)" by (simp add: emits_def transmit_def)
  moreover have "inject_packet ea (datagram b a ?rst) (process_block ea i sA) = Returns 0 (process_block ea i sA)"
    unfolding inject_packet_def using connected_arrival [OF A(2), of ?rst ea] A(2,3)
    by (simp add: dispatch_simps handle_established_state_def raw_rst_view connected_def)
  moreover have "TcpHeader_rst (tcp_header ?rst)" by simp
  ultimately show ?thesis using A(1) B by blast
qed

theorem half_open_never_reset_witness:
  "\<exists>rst. TcpHeader_rst (tcp_header rst)
     \<and> inject_packet example_env (datagram \<lparr>address = 0x0A000003, port = 5000\<rparr> \<lparr>address = 0x0A000002, port = 80\<rparr> rst)
         (process_block example_env 1 (example_conn (example_block [1, 2, 3]))) =
       Returns 0 (process_block example_env 1 (example_conn (example_block [1, 2, 3])))"
proof -
  have "next_chunk (example_block [1, 2, 3]) = [1, 2, 3]"
    using idle_chunk [of "example_block [1, 2, 3]"] by simp
  then show ?thesis
    using half_open_never_reset [OF connected_example(1) [of "[1, 2, 3]"] _ _ _ connected_example(2),
        of example_env example_env] by auto
qed

end
