(* ===== verification/Hash_Tables.thy ===== *)
theory Hash_Tables
  imports Routing_Tables
begin

text \<open>
  The hashing behind \<^verbatim>\<open>ConnectionTable.h\<close>: the comparison and the hash of its key, and the
  \<^verbatim>\<open>std::unordered_map\<close> that rests on them, as a list of buckets with chained entries. The hash functions of
  the standard library for the two integer types, whose values it leaves open, are arguments.

  The locale \<open>hashing\<close> is what the container asks of a key: an equivalence that the hash respects. It gives the
  laws of a finite map, also across a rehash. It is interpreted for the connection key, for every
  \<^verbatim>\<open>std::hash\<close>, and for the integer keys of the other two tables. The operations of the connection table on buckets then
  refine those of \<open>Routing_Tables\<close>.
\<close>

subsection \<open>The container\<close>

type_synonym ('k, 'v) buckets = "('k \<times> 'v) list list"

definition bucket :: "('k \<Rightarrow> u64) \<Rightarrow> nat \<Rightarrow> 'k \<Rightarrow> nat" where
  "bucket hash n k = unat (hash k) mod n"

fun chain_find :: "('k \<Rightarrow> 'k \<Rightarrow> bool) \<Rightarrow> 'k \<Rightarrow> ('k \<times> 'v) list \<Rightarrow> 'v option" where
  "chain_find key_eq k [] = None"
| "chain_find key_eq k ((k', v) # b) = (if key_eq k' k then Some v else chain_find key_eq k b)"

fun chain_assign :: "('k \<Rightarrow> 'k \<Rightarrow> bool) \<Rightarrow> 'k \<Rightarrow> 'v \<Rightarrow> ('k \<times> 'v) list \<Rightarrow> ('k \<times> 'v) list" where
  "chain_assign key_eq k v [] = [(k, v)]"
| "chain_assign key_eq k v ((k', v') # b) =
     (if key_eq k' k then (k', v) # b else (k', v') # chain_assign key_eq k v b)"

definition um_find :: "('k \<Rightarrow> 'k \<Rightarrow> bool) \<Rightarrow> ('k \<Rightarrow> u64) \<Rightarrow> ('k, 'v) buckets \<Rightarrow> 'k \<Rightarrow> 'v option" where
  "um_find key_eq hash t k = chain_find key_eq k (t ! bucket hash (length t) k)"

definition um_assign ::
  "('k \<Rightarrow> 'k \<Rightarrow> bool) \<Rightarrow> ('k \<Rightarrow> u64) \<Rightarrow> 'k \<Rightarrow> 'v \<Rightarrow> ('k, 'v) buckets \<Rightarrow> ('k, 'v) buckets" where
  "um_assign key_eq hash k v t =
     (let i = bucket hash (length t) k in t[i := chain_assign key_eq k v (t ! i)])"

definition um_erase ::
  "('k \<Rightarrow> 'k \<Rightarrow> bool) \<Rightarrow> ('k \<Rightarrow> u64) \<Rightarrow> 'k \<Rightarrow> ('k, 'v) buckets \<Rightarrow> ('k, 'v) buckets" where
  "um_erase key_eq hash k t =
     (let i = bucket hash (length t) k in t[i := filter (\<lambda>e. \<not> key_eq (fst e) k) (t ! i)])"

definition um_place :: "('k \<Rightarrow> u64) \<Rightarrow> 'k \<times> 'v \<Rightarrow> ('k, 'v) buckets \<Rightarrow> ('k, 'v) buckets" where
  "um_place hash e t = (let i = bucket hash (length t) (fst e) in t[i := e # t ! i])"

definition um_rehash :: "('k \<Rightarrow> u64) \<Rightarrow> nat \<Rightarrow> ('k, 'v) buckets \<Rightarrow> ('k, 'v) buckets" where
  "um_rehash hash n t = fold (um_place hash) (concat t) (replicate n [])"

text \<open>Every entry is in the bucket of its key, and no two entries of a bucket have equivalent keys.\<close>

definition um_ok :: "('k \<Rightarrow> 'k \<Rightarrow> bool) \<Rightarrow> ('k \<Rightarrow> u64) \<Rightarrow> ('k, 'v) buckets \<Rightarrow> bool" where
  "um_ok key_eq hash t \<longleftrightarrow> t \<noteq> [] \<and>
     (\<forall>i < length t. (\<forall>e \<in> set (t ! i). bucket hash (length t) (fst e) = i)
        \<and> sorted_wrt (\<lambda>e e'. \<not> key_eq (fst e) (fst e')) (t ! i))"

lemma bucket_less [simp]: "0 < n \<Longrightarrow> bucket hash n k < n"
  by (simp add: bucket_def)

lemma um_ok_length: "um_ok key_eq hash t \<Longrightarrow> 0 < length t"
  by (simp add: um_ok_def)

lemma um_ok_bucket_less: "um_ok key_eq hash t \<Longrightarrow> bucket hash (length t) k < length t"
  by (simp add: um_ok_def)

lemma um_ok_bucket:
  "um_ok key_eq hash t \<Longrightarrow> i < length t \<Longrightarrow> (k, v) \<in> set (t ! i) \<Longrightarrow> bucket hash (length t) k = i"
  by (fastforce simp: um_ok_def)

lemma um_ok_sorted:
  "um_ok key_eq hash t \<Longrightarrow> i < length t \<Longrightarrow> sorted_wrt (\<lambda>e e'. \<not> key_eq (fst e) (fst e')) (t ! i)"
  by (simp add: um_ok_def)

lemma um_ok_new: "0 < n \<Longrightarrow> um_ok key_eq hash (replicate n [])"
  by (simp add: um_ok_def)

lemma um_find_new [simp]: "0 < n \<Longrightarrow> um_find key_eq hash (replicate n []) k = None"
  by (simp add: um_find_def)

lemma um_ok_update:
  assumes "um_ok key_eq hash t" and "i < length t" and "\<forall>e \<in> set b. bucket hash (length t) (fst e) = i"
    and "sorted_wrt (\<lambda>e e'. \<not> key_eq (fst e) (fst e')) b"
  shows "um_ok key_eq hash (t[i := b])"
  using assms by (auto simp: um_ok_def nth_list_update)

subsection \<open>What it asks of a key\<close>

locale hashing =
  fixes key_eq :: "'k \<Rightarrow> 'k \<Rightarrow> bool" and hash :: "'k \<Rightarrow> u64"
  assumes key_refl: "key_eq k k"
    and key_sym: "key_eq k k' \<Longrightarrow> key_eq k' k"
    and key_trans: "key_eq k k' \<Longrightarrow> key_eq k' k'' \<Longrightarrow> key_eq k k''"
    and hash_respects: "key_eq k k' \<Longrightarrow> hash k = hash k'"
begin

lemma bucket_respects: "key_eq k k' \<Longrightarrow> bucket hash n k = bucket hash n k'"
  using hash_respects [of k k'] by (simp add: bucket_def)

lemma key_eq_cong: "key_eq k k' \<Longrightarrow> key_eq k k'' = key_eq k' k''"
  using key_sym key_trans by blast

lemma key_eq_cong_right: "key_eq k k' \<Longrightarrow> key_eq k'' k = key_eq k'' k'"
  using key_sym key_trans by blast

lemma chain_find_assign:
  "chain_find key_eq k' (chain_assign key_eq k v b) = (if key_eq k k' then Some v else chain_find key_eq k' b)"
proof (induction b)
  case (Cons e b)
  then show ?case
    using key_eq_cong [of "fst e" k k'] key_eq_cong_right [of k k' "fst e"] by (cases e) auto
qed simp

lemma chain_find_erase:
  "chain_find key_eq k' (filter (\<lambda>e. \<not> key_eq (fst e) k) b) = (if key_eq k k' then None else chain_find key_eq k' b)"
proof (induction b)
  case (Cons e b)
  then show ?case
    using key_eq_cong [of "fst e" k k'] key_eq_cong_right [of k k' "fst e"] by (cases e) auto
qed simp

lemma chain_find_iff:
  "sorted_wrt (\<lambda>e e'. \<not> key_eq (fst e) (fst e')) b \<Longrightarrow>
     chain_find key_eq k b = Some v \<longleftrightarrow> (\<exists>k'. (k', v) \<in> set b \<and> key_eq k' k)"
proof (induction b)
  case (Cons e b)
  obtain a w where e: "e = (a, w)" by (cases e)
  have "\<not> key_eq a k" if "(k', v) \<in> set b" "key_eq k' k" for k'
    using Cons.prems that key_eq_cong_right [OF that(2), of a] by (auto simp: e)
  then show ?case using Cons by (auto simp: e)
qed simp

lemma chain_assign_keys: "e \<in> set (chain_assign key_eq k v b) \<Longrightarrow> fst e = k \<or> fst e \<in> fst ` set b"
proof (induction b)
  case (Cons e' b)
  then show ?case by (cases e') (auto split: if_splits)
qed simp

lemma chain_assign_sorted:
  "sorted_wrt (\<lambda>e e'. \<not> key_eq (fst e) (fst e')) b
     \<Longrightarrow> sorted_wrt (\<lambda>e e'. \<not> key_eq (fst e) (fst e')) (chain_assign key_eq k v b)"
proof (induction b)
  case (Cons e b)
  then show ?case by (cases e) (fastforce dest: chain_assign_keys)
qed simp

lemma ok_assign: "um_ok key_eq hash t \<Longrightarrow> um_ok key_eq hash (um_assign key_eq hash k v t)"
  unfolding um_assign_def Let_def
  by (rule um_ok_update)
    (auto simp: um_ok_bucket_less um_ok_bucket um_ok_sorted intro: chain_assign_sorted dest!: chain_assign_keys)

lemma ok_erase: "um_ok key_eq hash t \<Longrightarrow> um_ok key_eq hash (um_erase key_eq hash k t)"
  unfolding um_erase_def Let_def
  by (rule um_ok_update) (auto simp: um_ok_bucket_less um_ok_bucket um_ok_sorted intro: sorted_wrt_filter)

lemma find_update:
  assumes "um_ok key_eq hash t"
    and "\<And>k'. bucket hash (length t) k' = i \<Longrightarrow> chain_find key_eq k' b = f k' (chain_find key_eq k' (t ! i))"
    and "\<And>k' r. bucket hash (length t) k' \<noteq> i \<Longrightarrow> f k' r = r"
  shows "um_find key_eq hash (t[i := b]) k' = f k' (um_find key_eq hash t k')"
proof (cases "bucket hash (length t) k' = i")
  case True
  then show ?thesis using assms(2) [OF True] um_ok_length [OF assms(1)] by (auto simp: um_find_def)
qed (simp add: um_find_def assms(3))

lemma find_assign:
  assumes "um_ok key_eq hash t"
  shows "um_find key_eq hash (um_assign key_eq hash k v t) k' = (if key_eq k k' then Some v else um_find key_eq hash t k')"
  unfolding um_assign_def Let_def
  by (rule find_update [OF assms, where f = "\<lambda>k' r. if key_eq k k' then Some v else r"])
    (auto simp: chain_find_assign dest: bucket_respects [of k _ "length t"])

lemma find_erase:
  assumes "um_ok key_eq hash t"
  shows "um_find key_eq hash (um_erase key_eq hash k t) k' = (if key_eq k k' then None else um_find key_eq hash t k')"
  unfolding um_erase_def Let_def
  by (rule find_update [OF assms, where f = "\<lambda>k' r. if key_eq k k' then None else r"])
    (auto simp: chain_find_erase dest: bucket_respects [of k _ "length t"])

text \<open>A lookup finds an entry wherever it is, so the order of the entries and the number of buckets do not matter.\<close>

lemma find_iff:
  assumes "um_ok key_eq hash t"
  shows "um_find key_eq hash t k = Some v \<longleftrightarrow> (\<exists>k'. (k', v) \<in> set (concat t) \<and> key_eq k' k)"
proof -
  let ?i = "bucket hash (length t) k"
  have i: "?i < length t" using um_ok_length [OF assms] by simp
  have "(k', v) \<in> set (t ! ?i) \<longleftrightarrow> (k', v) \<in> set (concat t)" if "key_eq k' k" for k'
  proof
    assume "(k', v) \<in> set (concat t)"
    then obtain j where "j < length t" "(k', v) \<in> set (t ! j)" by (auto simp: in_set_conv_nth [of _ t])
    then show "(k', v) \<in> set (t ! ?i)"
      using um_ok_bucket [OF assms] bucket_respects [OF that, of "length t"] by auto
  qed (use i in auto)
  then show ?thesis
    using chain_find_iff [OF um_ok_sorted [OF assms i], of k v] by (auto simp: um_find_def)
qed

lemma place_ok:
  assumes "um_ok key_eq hash t" and "\<forall>a \<in> set (concat t). \<not> key_eq (fst e) (fst a)"
  shows "um_ok key_eq hash (um_place hash e t)"
    and "set (concat (um_place hash e t)) = insert e (set (concat t))"
proof -
  let ?i = "bucket hash (length t) (fst e)"
  note i = um_ok_bucket_less [OF assms(1), of "fst e"]
  then have "set (t ! ?i) \<subseteq> set (concat t)" using nth_mem [OF i] by (auto simp del: nth_mem)
  then show "um_ok key_eq hash (um_place hash e t)"
    unfolding um_place_def Let_def using assms i
    by (intro um_ok_update) (auto simp: um_ok_bucket um_ok_sorted)
  have "set (concat (t[?i := e # t ! ?i])) = insert e (set (concat (take ?i t @ t ! ?i # drop (Suc ?i) t)))"
    using i by (simp add: upd_conv_take_nth_drop)
  then show "set (concat (um_place hash e t)) = insert e (set (concat t))"
    using id_take_nth_drop [OF i] by (simp add: um_place_def Let_def)
qed

lemma places_ok:
  "um_ok key_eq hash t \<Longrightarrow> sorted_wrt (\<lambda>e e'. \<not> key_eq (fst e) (fst e')) es
     \<Longrightarrow> \<forall>e \<in> set es. \<forall>a \<in> set (concat t). \<not> key_eq (fst e) (fst a)
     \<Longrightarrow> um_ok key_eq hash (fold (um_place hash) es t)
       \<and> set (concat (fold (um_place hash) es t)) = set es \<union> set (concat t)"
proof (induction es arbitrary: t)
  case (Cons e es)
  have e: "\<forall>a \<in> set (concat t). \<not> key_eq (fst e) (fst a)" using Cons.prems(3) by simp
  note p = place_ok [OF Cons.prems(1) e]
  have "\<forall>x \<in> set es. \<forall>a \<in> set (concat (um_place hash e t)). \<not> key_eq (fst x) (fst a)"
    unfolding p(2) using Cons.prems(2,3) key_sym by fastforce
  from Cons.IH [OF p(1) _ this] show ?case using Cons.prems(2) p(2) by simp
qed simp

lemma entries_distinct:
  assumes "um_ok key_eq hash t"
  shows "sorted_wrt (\<lambda>e e'. \<not> key_eq (fst e) (fst e')) (concat t)"
proof -
  have "sorted_wrt (\<lambda>b b'. \<forall>e \<in> set b. \<forall>e' \<in> set b'. \<not> key_eq (fst e) (fst e')) t"
    using um_ok_bucket [OF assms] bucket_respects [where n = "length t"] unfolding sorted_wrt_iff_nth_less
    by (metis less_trans nat_neq_iff prod.collapse)
  moreover have "\<forall>b \<in> set t. sorted_wrt (\<lambda>e e'. \<not> key_eq (fst e) (fst e')) b"
    using um_ok_sorted [OF assms] by (auto simp: in_set_conv_nth)
  ultimately show ?thesis by (induction t) (auto simp: sorted_wrt_append)
qed

lemma rehash_law:
  assumes "um_ok key_eq hash t" and "0 < n"
  shows "um_ok key_eq hash (um_rehash hash n t)"
    and "um_find key_eq hash (um_rehash hash n t) k = um_find key_eq hash t k"
proof -
  have p: "um_ok key_eq hash (um_rehash hash n t) \<and> set (concat (um_rehash hash n t)) = set (concat t)"
    using places_ok [OF um_ok_new [OF assms(2)] entries_distinct [OF assms(1)]] by (simp add: um_rehash_def)
  then show "um_ok key_eq hash (um_rehash hash n t)" by simp
  have "um_find key_eq hash (um_rehash hash n t) k = Some v \<longleftrightarrow> um_find key_eq hash t k = Some v" for v
    unfolding find_iff [OF p [THEN conjunct1]] find_iff [OF assms(1)] using p by simp
  then show "um_find key_eq hash (um_rehash hash n t) k = um_find key_eq hash t k"
    by (metis not_Some_eq)
qed

end

subsection \<open>The key of a connection\<close>

definition IPv4Address_eq :: "IPv4Address \<Rightarrow> IPv4Address \<Rightarrow> bool" where
  "IPv4Address_eq a other \<longleftrightarrow> address a = address other \<and> port a = port other"

definition ConnectionKey_eq :: "ConnectionKey \<Rightarrow> ConnectionKey \<Rightarrow> bool" where
  "ConnectionKey_eq k other \<longleftrightarrow> IPv4Address_eq (fst k) (fst other) \<and> IPv4Address_eq (snd k) (snd other)"

definition hash_mix :: "u64 \<Rightarrow> u64 \<Rightarrow> u64" where
  "hash_mix v h = h XOR (v + 0x71be114 + push_bit 6 h + drop_bit 2 h)"

definition ConnectionKeyHash :: "(u32 \<Rightarrow> u64) \<Rightarrow> (u16 \<Rightarrow> u64) \<Rightarrow> ConnectionKey \<Rightarrow> u64" where
  "ConnectionKeyHash hash32 hash16 key =
     (let h = 0;
          h = hash_mix (hash32 (address (fst key))) h;
          h = hash_mix (hash16 (port (fst key))) h;
          h = hash_mix (hash32 (address (snd key))) h;
          h = hash_mix (hash16 (port (snd key))) h
      in h)"

lemma IPv4Address_eq_iff: "IPv4Address_eq a b \<longleftrightarrow> a = b"
  by (cases a; cases b) (simp add: IPv4Address_eq_def)

lemma ConnectionKey_eq_iff [simp]: "ConnectionKey_eq k k' \<longleftrightarrow> k = k'"
  by (cases k; cases k') (simp add: ConnectionKey_eq_def IPv4Address_eq_iff)

interpretation ck: hashing ConnectionKey_eq "ConnectionKeyHash hash32 hash16" for hash32 hash16
  by unfold_locales simp_all

text \<open>The keys of the other two tables are integers, with the comparison and the hash of the library.\<close>

interpretation pk: hashing "(=)" std_hash for std_hash
  by unfold_locales simp_all

text \<open>The last value that is mixed in never gets lost: connections that differ only in the local port do not collide,
  when the hash of a port does not.\<close>

lemma hash_mix_inject: "hash_mix v h = hash_mix w h \<longleftrightarrow> v = w"
proof -
  have "h XOR (h XOR a) = a" for a by (simp flip: xor.assoc)
  then have "h XOR a = h XOR b \<longleftrightarrow> a = b" for a b by metis
  then show ?thesis by (simp add: hash_mix_def)
qed

lemma local_port_separates:
  assumes "inj hash16" and "port l \<noteq> port l'" and "address l = address l'"
  shows "ConnectionKeyHash hash32 hash16 (r, l) \<noteq> ConnectionKeyHash hash32 hash16 (r, l')"
  using assms by (simp add: ConnectionKeyHash_def Let_def hash_mix_inject inj_eq)

subsection \<open>The connection table on buckets\<close>

type_synonym connection_buckets = "(ConnectionKey, socket_id) buckets"

text \<open>The operations of \<^verbatim>\<open>ConnectionTable.cpp\<close> once more, on the container itself. The two hash functions of the
  library are the pair \<open>hs\<close>.\<close>

type_synonym std_hashes = "(u32 \<Rightarrow> u64) \<times> (u16 \<Rightarrow> u64)"

definition connections_assign :: "std_hashes \<Rightarrow> ConnectionKey \<Rightarrow> socket_id \<Rightarrow> connection_buckets \<Rightarrow> connection_buckets" where
  "connections_assign hs = um_assign ConnectionKey_eq (ConnectionKeyHash (fst hs) (snd hs))"

definition connections_lookup :: "std_hashes \<Rightarrow> connection_buckets \<Rightarrow> ConnectionKey \<Rightarrow> socket_id option" where
  "connections_lookup hs = um_find ConnectionKey_eq (ConnectionKeyHash (fst hs) (snd hs))"

definition connections_erase :: "std_hashes \<Rightarrow> ConnectionKey \<Rightarrow> connection_buckets \<Rightarrow> connection_buckets" where
  "connections_erase hs = um_erase ConnectionKey_eq (ConnectionKeyHash (fst hs) (snd hs))"

definition hashed_register ::
  "std_hashes \<Rightarrow> IPv4Address \<Rightarrow> IPv4Address \<Rightarrow> socket_id \<Rightarrow> SocketTable \<times> connection_buckets
     \<Rightarrow> socket_id \<times> SocketTable \<times> connection_buckets" where
  "hashed_register hs local_addr remote_addr i s =
     (let (st, t) = s;
          (i, st) =
            (if i = 0 \<or> \<not> SocketTable_contains st i
             then SocketTable_create_socket CLOSED local_addr remote_addr st
             else (i, SocketTable_modify i
                        (\<lambda>b. b\<lparr>src_address := local_addr, dst_address := remote_addr\<rparr>) st))
      in (i, st, connections_assign hs (remote_addr, local_addr) i t))"

definition hashed_find :: "std_hashes \<Rightarrow> SocketTable \<times> connection_buckets \<Rightarrow> IPv4Address \<Rightarrow> IPv4Address \<Rightarrow> socket_id" where
  "hashed_find hs s remote_addr local_addr =
     (case connections_lookup hs (snd s) (remote_addr, local_addr) of
        Some i \<Rightarrow> if SocketTable_contains (fst s) i then i else 0
      | None \<Rightarrow> 0)"

definition hashed_destroy ::
  "std_hashes \<Rightarrow> IPv4Address \<Rightarrow> IPv4Address \<Rightarrow> SocketTable \<times> connection_buckets
     \<Rightarrow> (SocketTable \<times> connection_buckets) \<times> bool" where
  "hashed_destroy hs remote_addr local_addr s =
     (let (st, t) = s;
          (i, t) = (case connections_lookup hs t (remote_addr, local_addr) of
                      Some i \<Rightarrow> (i, connections_erase hs (remote_addr, local_addr) t)
                    | None \<Rightarrow> (0, t))
      in if i \<noteq> 0
         then let (st, gone) = SocketTable_destroy_socket i st in ((st, t), gone)
         else ((st, t), False))"

text \<open>A call of an operation and what it returns. The container may also rehash at any time.\<close>

datatype connection_call =
    Insert IPv4Address IPv4Address socket_id
  | Register IPv4Address IPv4Address socket_id
  | Find IPv4Address IPv4Address
  | Erase IPv4Address IPv4Address
  | Destroy IPv4Address IPv4Address
  | Rehash nat

datatype call_result = Nothing | Id socket_id | Flag bool

fun hashed_call ::
  "std_hashes \<Rightarrow> connection_call \<Rightarrow> SocketTable \<times> connection_buckets \<Rightarrow> call_result \<times> SocketTable \<times> connection_buckets" where
  "hashed_call hs (Insert r l i) (st, t) = (Nothing, st, connections_assign hs (r, l) i t)"
| "hashed_call hs (Register l r i) s = (let (i, s) = hashed_register hs l r i s in (Id i, s))"
| "hashed_call hs (Find r l) s = (Id (hashed_find hs s r l), s)"
| "hashed_call hs (Erase r l) (st, t) =
     (Flag (connections_lookup hs t (r, l) \<noteq> None), st, connections_erase hs (r, l) t)"
| "hashed_call hs (Destroy r l) s = (let (s, gone) = hashed_destroy hs r l s in (Flag gone, s))"
| "hashed_call hs (Rehash n) (st, t) = (Nothing, st, um_rehash (ConnectionKeyHash (fst hs) (snd hs)) (Suc n) t)"

fun table_call ::
  "connection_call \<Rightarrow> SocketTable \<times> ConnectionTable \<Rightarrow> call_result \<times> SocketTable \<times> ConnectionTable" where
  "table_call (Insert r l i) (st, c) = (Nothing, st, ConnectionTable_insert r l i c)"
| "table_call (Register l r i) s = (let (i, s) = ConnectionTable_register_connection l r i s in (Id i, s))"
| "table_call (Find r l) s = (Id (ConnectionTable_find s r l), s)"
| "table_call (Erase r l) (st, c) = (let (c, b) = ConnectionTable_erase r l c in (Flag b, st, c))"
| "table_call (Destroy r l) s = (let (s, gone) = ConnectionTable_destroy_connection r l s in (Flag gone, s))"
| "table_call (Rehash n) s = (Nothing, s)"

fun calls :: "(connection_call \<Rightarrow> 's \<Rightarrow> call_result \<times> 's) \<Rightarrow> connection_call list \<Rightarrow> 's \<Rightarrow> call_result list \<times> 's" where
  "calls step [] s = ([], s)"
| "calls step (c # cs) s = (let (r, s) = step c s; (rs, s) = calls step cs s in (r # rs, s))"

text \<open>The buckets hold the same bindings as the list.\<close>

definition same_bindings :: "std_hashes \<Rightarrow> SocketTable \<times> connection_buckets \<Rightarrow> SocketTable \<times> ConnectionTable \<Rightarrow> bool" where
  "same_bindings hs s s' \<longleftrightarrow> fst s = fst s' \<and> um_ok ConnectionKey_eq (ConnectionKeyHash (fst hs) (snd hs)) (snd s)
     \<and> connections_lookup hs (snd s) = map_of (snd s')"

lemma connections_lookup_law:
  assumes "um_ok ConnectionKey_eq (ConnectionKeyHash (fst hs) (snd hs)) t"
  shows "connections_lookup hs (connections_assign hs k i t) = (connections_lookup hs t)(k \<mapsto> i)"
    and "connections_lookup hs (connections_erase hs k t) = (connections_lookup hs t)(k := None)"
  using ck.find_assign [OF assms] ck.find_erase [OF assms]
  by (auto simp: connections_lookup_def connections_assign_def connections_erase_def fun_eq_iff)

lemma same_bindings_updates:
  assumes "same_bindings hs (st, t) (st', c)"
  shows "same_bindings hs (st1, connections_assign hs k i t) (st1, AList.update k i c)"
    and "same_bindings hs (st1, connections_erase hs k t) (st1, AList.delete k c)"
    and "same_bindings hs (st1, t) (st1, c)"
    and "same_bindings hs (st1, um_rehash (ConnectionKeyHash (fst hs) (snd hs)) (Suc n) t) (st1, c)"
proof -
  let ?h = "ConnectionKeyHash (fst hs) (snd hs)"
  have ok: "um_ok ConnectionKey_eq ?h t" and c: "connections_lookup hs t = map_of c"
    using assms by (simp_all add: same_bindings_def)
  note u = connections_lookup_law [OF ok] ck.ok_assign [OF ok] ck.ok_erase [OF ok]
  show "same_bindings hs (st1, connections_assign hs k i t) (st1, AList.update k i c)"
    using u by (simp add: same_bindings_def c connections_assign_def update_conv')
  show "same_bindings hs (st1, connections_erase hs k t) (st1, AList.delete k c)"
    using u by (simp add: same_bindings_def c connections_erase_def delete_conv')
  show "same_bindings hs (st1, t) (st1, c)" using ok c by (simp add: same_bindings_def)
  show "same_bindings hs (st1, um_rehash ?h (Suc n) t) (st1, c)"
    using ck.rehash_law [OF ok] c by (auto simp: same_bindings_def connections_lookup_def fun_eq_iff)
qed

lemma call_refines:
  assumes "same_bindings hs s s'"
  shows "fst (hashed_call hs c s) = fst (table_call c s')
    \<and> same_bindings hs (snd (hashed_call hs c s)) (snd (table_call c s'))"
proof -
  obtain st t st' l where s: "s = (st, t)" "s' = (st', l)" by (cases s; cases s')
  then have e: "st' = st" "connections_lookup hs t = map_of l" using assms by (simp_all add: same_bindings_def)
  note u = same_bindings_updates [OF assms [unfolded s]]
  show ?thesis
    by (cases c) (auto simp: s e u hashed_register_def ConnectionTable_register_connection_def hashed_find_def
        ConnectionTable_find_def ConnectionTable_insert_def ConnectionTable_erase_def hashed_destroy_def
        ConnectionTable_destroy_connection_def Let_def split: prod.splits option.splits)
qed

text \<open>C32. The connection table may be hashed in any way. For any \<^verbatim>\<open>std::hash\<close> and any initial number of buckets, every
  sequence of calls of the table, with rehashes anywhere in between, returns the same results on the buckets that
  \<^verbatim>\<open>ConnectionKeyHash\<close> and \<^verbatim>\<open>operator==\<close> govern as on the table of bindings, and leaves the same socket table and the same
  bindings.\<close>

theorem hashed_table_refines:
  "fst (calls (hashed_call hs) cs (st, replicate (Suc n) [])) = fst (calls table_call cs (st, []))
    \<and> same_bindings hs (snd (calls (hashed_call hs) cs (st, replicate (Suc n) []))) (snd (calls table_call cs (st, [])))"
proof -
  have "same_bindings hs s s' \<Longrightarrow> fst (calls (hashed_call hs) cs s) = fst (calls table_call cs s')
      \<and> same_bindings hs (snd (calls (hashed_call hs) cs s)) (snd (calls table_call cs s'))" for s s'
  proof (induction cs arbitrary: s s')
    case (Cons c cs)
    show ?case
      using call_refines [OF Cons.prems, of c] Cons.IH [of "snd (hashed_call hs c s)" "snd (table_call c s')"]
      by (simp add: split_def Let_def)
  qed simp
  moreover have "same_bindings hs (st, replicate (Suc n) []) (st, [])"
    using um_ok_new [of "Suc n" ConnectionKey_eq "ConnectionKeyHash (fst hs) (snd hs)"]
    by (auto simp: same_bindings_def connections_lookup_def simp del: replicate_Suc)
  ultimately show ?thesis by blast
qed

end
