(* ===== verification/Buffer_Steps.thy ===== *)
theory Buffer_Steps
  imports Blocking_Buffer
begin

text \<open>
  Inside the critical sections of \<^verbatim>\<open>BlockingBuffer.h\<close>. In \<open>Blocking_Buffer\<close> an operation is one step, and \<open>Buffer_Monitor\<close> takes a
  critical section as one step; here the calls of several threads go through their sections statement by statement: the
  predicate of the wait, every iteration of a copy loop, the update of the length, the return. Other threads run in between,
  and \<^verbatim>\<open>force_wake_up_\<close> takes no lock at all.

  A sleeping thread may wake up at any time, as the standard allows, so that every choice of notifications is covered.
  The lemmas show that the mutex makes the sections atomic: the returned calls have the results of the same calls
  one after the other.
\<close>

subsection \<open>Calls one after the other\<close>

datatype 'a buffer_call =
    Call_write "'a list" | Call_read nat | Call_try_read nat | Call_peek nat nat | Call_discard nat
  | Call_size | Call_capacity

datatype 'a buffer_result = Count nat | Elements "'a list"

fun sequential :: "nat \<Rightarrow> 'a buffer_call \<Rightarrow> 'a BlockingBuffer \<Rightarrow> ('a BlockingBuffer \<times> 'a buffer_result) option" where
  "sequential Size (Call_write data) b = map_option (\<lambda>(b, n). (b, Count n)) (BlockingBuffer_write Size b data)"
| "sequential Size (Call_read n) b = map_option (\<lambda>(b, xs). (b, Elements xs)) (BlockingBuffer_read Size b n)"
| "sequential Size (Call_try_read n) b = (let (b, xs) = BlockingBuffer_try_read Size b n in Some (b, Elements xs))"
| "sequential Size (Call_peek n offset) b = Some (b, Elements (BlockingBuffer_peek Size b n offset))"
| "sequential Size (Call_discard n) b = (let (b, k) = BlockingBuffer_discard Size b n in Some (b, Count k))"
| "sequential Size Call_size b = Some (b, Count (BlockingBuffer_size b))"
| "sequential Size Call_capacity b = Some (b, Count (BlockingBuffer_available_capacity Size b))"

text \<open>What happened, in order: calls that returned, with the thread and the result, and forced wake-ups.\<close>

datatype 'a entry = Returned nat "'a buffer_call" "'a buffer_result" | Forced

fun replay :: "nat \<Rightarrow> 'a BlockingBuffer \<Rightarrow> 'a entry list \<Rightarrow> 'a BlockingBuffer option" where
  "replay Size b [] = Some b"
| "replay Size b (Forced # es) = replay Size (force_wake_up b) es"
| "replay Size b (Returned t c r # es) =
     (case sequential Size c b of
        None \<Rightarrow> None
      | Some (b, r') \<Rightarrow> if r' = r then replay Size b es else None)"

subsection \<open>Statement by statement\<close>

text \<open>Where a thread is. The local variables of a call are those of its loop: what remains, what was loaded, a position, the
  count.\<close>

datatype 'a point =
    Away
  | Before "'a buffer_call"
  | Testing "'a buffer_call"
  | Dozing "'a buffer_call"
  | Asleep "'a buffer_call"
  | Storing "'a list" "'a list" nat
  | Loading "'a buffer_call" nat "'a list" nat
  | Peeking "'a buffer_call" nat nat "'a list"
  | Shrinking "'a buffer_call" nat
  | Returning "'a buffer_call" "'a buffer_result"

text \<open>The first statement of a section: the predicate of the wait or the test at its beginning.\<close>

fun test :: "nat \<Rightarrow> 'a buffer_call \<Rightarrow> 'a BlockingBuffer \<Rightarrow> 'a point \<times> 'a BlockingBuffer" where
  "test Size (Call_write data) b =
     (if curr_len b < Size \<or> is_forcefully_woken_up b
      then let available = Size - curr_len b;
               count = min (length data) available
           in (Storing data (take count data) count, b)
      else (Dozing (Call_write data), b))"
| "test Size (Call_read n) b =
     (if curr_len b > 0 \<or> is_forcefully_woken_up b
      then let count = min n (curr_len b) in (Loading (Call_read n) count [] count, b)
      else (Dozing (Call_read n), b))"
| "test Size (Call_try_read n) b =
     (if curr_len b = 0 then (Returning (Call_try_read n) (Elements []), b)
      else let count = min n (curr_len b) in (Loading (Call_try_read n) count [] count, b))"
| "test Size (Call_peek n offset) b =
     (if offset \<ge> curr_len b then (Returning (Call_peek n offset) (Elements []), b)
      else let available = curr_len b - offset;
               count = min n available
           in (Peeking (Call_peek n offset) count ((read_pos b + offset) mod Size) [], b))"
| "test Size (Call_discard n) b =
     (let to_discard = min n (curr_len b)
      in (Shrinking (Call_discard n) to_discard, b\<lparr>read_pos := (read_pos b + to_discard) mod Size\<rparr>))"
| "test Size Call_size b = (Returning Call_size (Count (curr_len b)), b)"
| "test Size Call_capacity b = (Returning Call_capacity (Count (Size - curr_len b)), b)"

text \<open>The next statement of a thread that has the mutex.\<close>

fun work :: "nat \<Rightarrow> 'a point \<Rightarrow> 'a BlockingBuffer \<Rightarrow> ('a point \<times> 'a BlockingBuffer) option" where
  "work Size (Testing c) b = Some (test Size c b)"
| "work Size (Storing data (x # rest) count) b =
     Some (Storing data rest count,
           b\<lparr>buffer := (buffer b)(write_pos b := x), write_pos := (write_pos b + 1) mod Size\<rparr>)"
| "work Size (Storing data [] count) b =
     Some (Returning (Call_write data) (Count count), b\<lparr>curr_len := curr_len b + count\<rparr>)"
| "work Size (Loading c (Suc k) xs count) b =
     Some (Loading c k (xs @ [buffer b (read_pos b)]) count, b\<lparr>read_pos := (read_pos b + 1) mod Size\<rparr>)"
| "work Size (Loading c 0 xs count) b = Some (Returning c (Elements xs), b\<lparr>curr_len := curr_len b - count\<rparr>)"
| "work Size (Peeking c (Suc k) pos xs) b = Some (Peeking c k ((pos + 1) mod Size) (xs @ [buffer b pos]), b)"
| "work Size (Peeking c 0 pos xs) b = Some (Returning c (Elements xs), b)"
| "work Size (Shrinking c k) b = Some (Returning c (Count k), b\<lparr>curr_len := curr_len b - k\<rparr>)"
| "work Size p b = None"

record 'a steps =
  shared :: "'a BlockingBuffer"
  mutex :: "nat option"
  points :: "'a point list"
  trace :: "'a entry list"

definition steps_new :: "nat \<Rightarrow> (nat \<Rightarrow> 'a) \<Rightarrow> 'a steps" where
  "steps_new n init = \<lparr>shared = BlockingBuffer_new init, mutex = None, points = replicate n Away, trace = []\<rparr>"

datatype 'a buffer_move =
    Calls nat "'a buffer_call"
  | Locks nat
  | Works nat
  | Dozes nat
  | Awakes nat
  | Leaves nat
  | Forces

text \<open>One move of the system; \<open>None\<close> is a move that is not possible.\<close>

fun move :: "nat \<Rightarrow> 'a buffer_move \<Rightarrow> 'a steps \<Rightarrow> 'a steps option" where
  "move Size (Calls t c) m =
     (if t < length (points m) \<and> points m ! t = Away
      then Some (m\<lparr>points := (points m)[t := Before c]\<rparr>) else None)"
| "move Size (Locks t) m =
     (if t < length (points m) \<and> mutex m = None
      then case points m ! t of
             Before c \<Rightarrow> Some (m\<lparr>mutex := Some t, points := (points m)[t := Testing c]\<rparr>)
           | _ \<Rightarrow> None
      else None)"
| "move Size (Works t) m =
     (if t < length (points m)
      then map_option (\<lambda>(p, b). m\<lparr>shared := b, points := (points m)[t := p]\<rparr>) (work Size (points m ! t) (shared m))
      else None)"
| "move Size (Dozes t) m =
     (if t < length (points m)
      then case points m ! t of
             Dozing c \<Rightarrow> Some (m\<lparr>mutex := None, points := (points m)[t := Asleep c]\<rparr>)
           | _ \<Rightarrow> None
      else None)"
| "move Size (Awakes t) m =
     (if t < length (points m)
      then case points m ! t of Asleep c \<Rightarrow> Some (m\<lparr>points := (points m)[t := Before c]\<rparr>) | _ \<Rightarrow> None
      else None)"
| "move Size (Leaves t) m =
     (if t < length (points m)
      then case points m ! t of
             Returning c r \<Rightarrow> Some (m\<lparr>mutex := None, points := (points m)[t := Away], trace := trace m @ [Returned t c r]\<rparr>)
           | _ \<Rightarrow> None
      else None)"
| "move Size Forces m = Some (m\<lparr>shared := force_wake_up (shared m), trace := trace m @ [Forced]\<rparr>)"

fun moves :: "nat \<Rightarrow> 'a buffer_move list \<Rightarrow> 'a steps \<Rightarrow> 'a steps option" where
  "moves Size [] m = Some m"
| "moves Size (a # as) m = (case move Size a m of None \<Rightarrow> None | Some m \<Rightarrow> moves Size as m)"

subsection \<open>A section half way through\<close>

lemma store_loop_snoc:
  "store_loop Size (xs @ [x]) buf pos =
     (let (buf', pos') = store_loop Size xs buf pos in (buf'(pos' := x), (pos' + 1) mod Size))"
  by (induction Size xs buf pos rule: store_loop.induct) (simp_all add: fun_upd_def)

lemma load_loop_snoc:
  "load_loop Size (Suc n) buf pos = (let (xs, pos') = load_loop Size n buf pos in (xs @ [buf pos'], (pos' + 1) mod Size))"
proof (induction n arbitrary: pos)
  case (Suc n)
  show ?case
    by (subst load_loop.simps(2), subst Suc.IH) (simp add: Let_def split: prod.splits)
qed simp

text \<open>The buffer \<open>r\<close> of a thread at a point of its section that began with the buffer \<open>b\<close>, up to forced wake-ups.\<close>

fun midway :: "nat \<Rightarrow> 'a BlockingBuffer \<Rightarrow> 'a point \<Rightarrow> 'a BlockingBuffer \<Rightarrow> bool" where
  "midway Size b (Testing c) r \<longleftrightarrow> r = b"
| "midway Size b (Dozing c) r \<longleftrightarrow> r = b"
| "midway Size b (Storing data rest count) r \<longleftrightarrow>
     (curr_len b < Size \<or> is_forcefully_woken_up b) \<and> count = min (length data) (Size - curr_len b)
     \<and> (\<exists>stored. take count data = stored @ rest
          \<and> r = b\<lparr>buffer := fst (store_loop Size stored (buffer b) (write_pos b)),
                  write_pos := snd (store_loop Size stored (buffer b) (write_pos b))\<rparr>)"
| "midway Size b (Loading c k xs count) r \<longleftrightarrow>
     (\<exists>n. (c = Call_read n \<and> (curr_len b > 0 \<or> is_forcefully_woken_up b) \<or> c = Call_try_read n \<and> curr_len b \<noteq> 0)
        \<and> count = min n (curr_len b)) \<and> k \<le> count
     \<and> (\<exists>pos. load_loop Size (count - k) (buffer b) (read_pos b) = (xs, pos) \<and> r = b\<lparr>read_pos := pos\<rparr>)"
| "midway Size b (Peeking c k pos xs) r \<longleftrightarrow> r = b
     \<and> (\<exists>n offset. c = Call_peek n offset \<and> offset < curr_len b \<and> k \<le> min n (curr_len b - offset)
        \<and> load_loop Size (min n (curr_len b - offset) - k) (buffer b) ((read_pos b + offset) mod Size) = (xs, pos))"
| "midway Size b (Shrinking c k) r \<longleftrightarrow>
     (\<exists>n. c = Call_discard n \<and> k = min n (curr_len b) \<and> r = b\<lparr>read_pos := (read_pos b + k) mod Size\<rparr>)"
| "midway Size b (Returning c res) r \<longleftrightarrow> sequential Size c b = Some (r, res)"
| "midway Size b p r \<longleftrightarrow> False"

lemma midway_test: "midway Size b (fst (test Size c b)) (snd (test Size c b))"
  by (cases c) (auto simp: Let_def BlockingBuffer_try_read_def BlockingBuffer_peek_def BlockingBuffer_size_def
      BlockingBuffer_available_capacity_def)

lemma midway_work:
  assumes "midway Size b p r" and "work Size p r = Some (p', r')"
  shows "midway Size b p' r'"
proof (cases p)
  case (Testing c)
  then show ?thesis using assms midway_test [of Size b c] by simp
next
  case (Storing data rest count)
  then obtain stored where s: "curr_len b < Size \<or> is_forcefully_woken_up b" "count = min (length data) (Size - curr_len b)"
      "take count data = stored @ rest" "r = b\<lparr>buffer := fst (store_loop Size stored (buffer b) (write_pos b)),
                  write_pos := snd (store_loop Size stored (buffer b) (write_pos b))\<rparr>"
    using assms(1) by auto
  show ?thesis
  proof (cases rest)
    case Nil
    then have "BlockingBuffer_write Size b data = Some (r\<lparr>curr_len := curr_len b + count\<rparr>, count)"
      using s by (auto simp: BlockingBuffer_write_def Let_def split: prod.splits)
    then show ?thesis using assms(2) Storing Nil s(4) by auto
  next
    case (Cons x xs)
    then have "take count data = (stored @ [x]) @ xs" using s(3) by simp
    then show ?thesis
      using assms(2) Storing Cons s(1,2,4)
      by (auto simp: store_loop_snoc Let_def split: prod.splits intro!: exI [of _ "stored @ [x]"])
  qed
next
  case (Loading c k xs count)
  then obtain n pos where l: "c = Call_read n \<and> (curr_len b > 0 \<or> is_forcefully_woken_up b) \<or> c = Call_try_read n \<and> curr_len b \<noteq> 0"
      "count = min n (curr_len b)" "k \<le> count" "load_loop Size (count - k) (buffer b) (read_pos b) = (xs, pos)"
      "r = b\<lparr>read_pos := pos\<rparr>"
    using assms(1) by auto
  show ?thesis
  proof (cases k)
    case 0
    then have "take_front Size b n = (r\<lparr>curr_len := curr_len b - count\<rparr>, xs)"
      using l by (simp add: take_front_def Let_def)
    then show ?thesis
      using assms(2) Loading 0 l(1,5) by (auto simp: BlockingBuffer_read_def BlockingBuffer_try_read_def)
  next
    case (Suc k')
    then have "count - k' = Suc (count - k)" using l(3) by simp
    then show ?thesis using assms(2) Loading Suc l by (auto simp: load_loop_snoc simp del: load_loop.simps)
  qed
next
  case (Peeking c k pos xs)
  then obtain n offset where l: "r = b" "c = Call_peek n offset" "offset < curr_len b" "k \<le> min n (curr_len b - offset)"
      "load_loop Size (min n (curr_len b - offset) - k) (buffer b) ((read_pos b + offset) mod Size) = (xs, pos)"
    using assms(1) by auto
  show ?thesis
  proof (cases k)
    case 0
    then show ?thesis using assms(2) Peeking l by (auto simp: BlockingBuffer_peek_def Let_def)
  next
    case (Suc k')
    then have "min n (curr_len b - offset) - k' = Suc (min n (curr_len b - offset) - k)" using l(4) by linarith
    then show ?thesis using assms(2) Peeking Suc l by (auto simp: load_loop_snoc simp del: load_loop.simps)
  qed
next
  case (Shrinking c k)
  then show ?thesis using assms by (auto simp: BlockingBuffer_discard_def Let_def)
qed (use assms in auto)

text \<open>A forced wake-up in the middle of a section changes nothing but the flag.\<close>

lemma sequential_forced:
  "sequential Size c b = Some (r, res) \<Longrightarrow> sequential Size c (force_wake_up b) = Some (force_wake_up r, res)"
  by (cases c) (auto simp: BlockingBuffer_write_def BlockingBuffer_read_def BlockingBuffer_try_read_def take_front_def
      BlockingBuffer_peek_def BlockingBuffer_discard_def BlockingBuffer_size_def BlockingBuffer_available_capacity_def
      force_wake_up_def Let_def split: if_splits prod.splits)

lemma midway_forced:
  assumes "midway Size b p r"
  shows "midway Size (force_wake_up b) p (force_wake_up r)"
proof (cases p)
  case (Returning c res)
  then show ?thesis using assms sequential_forced by auto
qed (use assms in \<open>auto simp: force_wake_up_def\<close>)


lemma replay_append:
  "replay Size b (es @ es') = (case replay Size b es of None \<Rightarrow> None | Some b \<Rightarrow> replay Size b es')"
  by (induction Size b es rule: replay.induct) (auto split: option.splits)

subsection \<open>Sections are atomic\<close>

text \<open>A point between taking the mutex and giving it up.\<close>

fun in_section :: "'a point \<Rightarrow> bool" where
  "in_section Away = False"
| "in_section (Before c) = False"
| "in_section (Asleep c) = False"
| "in_section p = True"

text \<open>The thread with the mutex is the one in a section, and its section began with the buffer that the
  finished calls leave.\<close>

definition steps_inv :: "nat \<Rightarrow> 'a BlockingBuffer \<Rightarrow> 'a steps \<Rightarrow> bool" where
  "steps_inv Size b m \<longleftrightarrow>
     (\<forall>t < length (points m). in_section (points m ! t) \<longleftrightarrow> mutex m = Some t)
     \<and> (\<forall>t. mutex m = Some t \<longrightarrow> t < length (points m))
     \<and> (\<exists>c. replay Size b (trace m) = Some c
          \<and> (case mutex m of None \<Rightarrow> shared m = c | Some t \<Rightarrow> midway Size c (points m ! t) (shared m)))"

lemma midway_critical: "midway Size b p r \<Longrightarrow> in_section p"
  by (cases p) simp_all

lemma work_critical: "work Size p r = Some r' \<Longrightarrow> in_section p"
  by (cases p) simp_all

lemma steps_inv_holder:
  assumes "steps_inv Size b m" and "t < length (points m)" and "in_section (points m ! t)"
  obtains c where "mutex m = Some t" "replay Size b (trace m) = Some c" "midway Size c (points m ! t) (shared m)"
  using assms by (auto simp: steps_inv_def)

lemma steps_inv_outside:
  assumes "steps_inv Size b m" and "t < length (points m)" and "\<not> in_section (points m ! t)" and "\<not> in_section p"
  shows "steps_inv Size b (m\<lparr>points := (points m)[t := p]\<rparr>)"
proof -
  have "mutex m \<noteq> Some t" using assms(1-3) by (auto simp: steps_inv_def)
  then show ?thesis using assms by (auto simp: steps_inv_def nth_list_update split: option.splits)
qed

lemma steps_inv_move:
  assumes "move Size a m = Some m'" and "steps_inv Size b m"
  shows "steps_inv Size b m'"
proof (cases a)
  case (Works t)
  then obtain p r where w: "t < length (points m)" "work Size (points m ! t) (shared m) = Some (p, r)"
      "m' = m\<lparr>shared := r, points := (points m)[t := p]\<rparr>"
    using assms(1) by (auto split: if_splits)
  obtain c where c: "mutex m = Some t" "replay Size b (trace m) = Some c" "midway Size c (points m ! t) (shared m)"
    using steps_inv_holder [OF assms(2) w(1) work_critical [OF w(2)]] by blast
  have "midway Size c p r" by (rule midway_work [OF c(3) w(2)])
  then show ?thesis using w c assms(2) midway_critical by (auto simp: steps_inv_def nth_list_update)
next
  case (Locks t)
  then have f: "mutex m = None" using assms(1) by (simp split: if_splits)
  obtain c where w: "t < length (points m)" "m' = m\<lparr>mutex := Some t, points := (points m)[t := Testing c]\<rparr>"
    using assms(1) Locks by (auto split: if_splits point.splits)
  then show ?thesis using assms(2) f by (auto simp: steps_inv_def nth_list_update)
next
  case (Dozes t)
  then obtain c where w: "t < length (points m)" "points m ! t = Dozing c"
      "m' = m\<lparr>mutex := None, points := (points m)[t := Asleep c]\<rparr>"
    using assms(1) by (auto split: if_splits point.splits)
  moreover obtain d where "mutex m = Some t" "replay Size b (trace m) = Some d" "shared m = d"
    using steps_inv_holder [OF assms(2) w(1)] w(2) by auto
  ultimately show ?thesis using assms(2) by (auto simp: steps_inv_def nth_list_update)
next
  case (Leaves t)
  then obtain c r where w: "t < length (points m)" "points m ! t = Returning c r"
      "m' = m\<lparr>mutex := None, points := (points m)[t := Away], trace := trace m @ [Returned t c r]\<rparr>"
    using assms(1) by (auto split: if_splits point.splits)
  moreover obtain d where "mutex m = Some t" "replay Size b (trace m) = Some d" "sequential Size c d = Some (shared m, r)"
    using steps_inv_holder [OF assms(2) w(1)] w(2) by auto
  ultimately show ?thesis using assms(2) by (auto simp: steps_inv_def nth_list_update replay_append)
next
  case Forces
  then show ?thesis
    using assms midway_forced by (fastforce simp: steps_inv_def replay_append split: option.splits)
next
  case (Calls t c)
  then have "t < length (points m)" "points m ! t = Away" "m' = m\<lparr>points := (points m)[t := Before c]\<rparr>"
    using assms(1) by (auto split: if_splits)
  then show ?thesis using steps_inv_outside [OF assms(2)] by simp
next
  case (Awakes t)
  then obtain c where "t < length (points m)" "points m ! t = Asleep c" "m' = m\<lparr>points := (points m)[t := Before c]\<rparr>"
    using assms(1) by (auto split: if_splits point.splits)
  then show ?thesis using steps_inv_outside [OF assms(2)] by simp
qed

lemma steps_inv_moves:
  "moves Size as m = Some m' \<Longrightarrow> steps_inv Size b m \<Longrightarrow> steps_inv Size b m' \<and> length (points m') = length (points m)"
proof (induction as arbitrary: m)
  case (Cons a as)
  then obtain m1 where m1: "move Size a m = Some m1" "moves Size as m1 = Some m'" by (auto split: option.splits)
  moreover have "length (points m1) = length (points m)"
    using m1(1) by (cases a) (auto split: point.splits if_splits)
  ultimately show ?case using Cons.IH steps_inv_move Cons.prems(2) by metis
qed simp

lemma steps_inv_new: "steps_inv Size (BlockingBuffer_new init) (steps_new n init)"
  by (simp add: steps_inv_def steps_new_def)

text \<open>What the finished calls put into the buffer, and how many elements they took out of it.\<close>

fun incoming :: "'a entry \<Rightarrow> 'a list" where
  "incoming (Returned t (Call_write data) (Count k)) = take k data"
| "incoming e = []"

fun outgoing :: "'a entry \<Rightarrow> nat" where
  "outgoing (Returned t (Call_read n) (Elements xs)) = length xs"
| "outgoing (Returned t (Call_try_read n) (Elements xs)) = length xs"
| "outgoing (Returned t (Call_discard n) (Count k)) = k"
| "outgoing e = 0"

lemma sequential_conserves:
  assumes "BlockingBuffer_inv Size b" and "sequential Size c b = Some (b', r)"
  shows "BlockingBuffer_inv Size b' \<and> outgoing (Returned t c r) \<le> length (contents Size b)
    \<and> contents Size b' = drop (outgoing (Returned t c r)) (contents Size b) @ incoming (Returned t c r)"
proof (cases c)
  case (Call_write data)
  then show ?thesis using assms rb.wr_seq [OF assms(1)] by fastforce
next
  case (Call_read n)
  then obtain xs where x: "BlockingBuffer_read Size b n = Some (b', xs)" "r = Elements xs" using assms(2) by auto
  then show ?thesis using Call_read rb.rd_seq [OF assms(1) x(1)] by (auto simp: min_def)
next
  case (Call_try_read n)
  then obtain xs where x: "BlockingBuffer_try_read Size b n = (b', xs)" "r = Elements xs"
    using assms(2) by (auto split: prod.splits)
  then show ?thesis using Call_try_read try_read_eq [OF assms(1) x(1)] by (auto simp: min_def)
next
  case (Call_discard n)
  then obtain k where x: "BlockingBuffer_discard Size b n = (b', k)" "r = Count k"
    using assms(2) by (auto split: prod.splits)
  then show ?thesis using Call_discard inv_discard [OF assms(1) x(1)] by (auto simp: min_def)
qed (use assms in auto)

lemma replay_conserves:
  assumes "replay Size b es = Some c" and "BlockingBuffer_inv Size b"
  shows "BlockingBuffer_inv Size c
    \<and> contents Size c = drop (sum_list (map outgoing es)) (contents Size b @ concat (map incoming es))"
  using assms
proof (induction es arbitrary: b)
  case (Cons e es)
  show ?case
  proof (cases e)
    case (Returned t d r)
    then obtain b1 where b1: "sequential Size d b = Some (b1, r)" "replay Size b1 es = Some c"
      using Cons.prems(1) by (auto split: option.splits if_splits)
    note s = sequential_conserves [OF Cons.prems(2) b1(1), of t]
    then show ?thesis using Cons.IH [OF b1(2)] Returned by (simp add: add.commute)
  next
    case Forced
    then show ?thesis using Cons.IH [of "force_wake_up b"] Cons.prems by simp
  qed
qed simp

subsection \<open>Linearizability\<close>

text \<open>C27. The calls on a buffer are linearizable. Any number of threads write, read, peek, discard and ask for the size, in
  any interleaving of the single statements of their critical sections: the predicate of the wait, each iteration of a
  copy loop, the update of the length, the return; a thread that waits may wake up at any time, and the flag of
  \<^verbatim>\<open>force_wake_up_\<close> may change between any two statements. Each call that returned has the result that the same
  call has when the calls run alone, one after the other in the order of their returns; whenever the mutex is free, the buffer
  is the one that this sequential run leaves, and it holds what was accepted less what was taken, in order;
  at most one thread is in a section.\<close>

theorem critical_sections_linearizable:
  assumes "0 < Size" and "moves Size as (steps_new n init) = Some m"
  shows "(\<exists>c. replay Size (BlockingBuffer_new init) (trace m) = Some c
      \<and> contents Size c = drop (sum_list (map outgoing (trace m))) (concat (map incoming (trace m)))
      \<and> (mutex m = None \<longrightarrow> shared m = c))
    \<and> (\<forall>t < n. \<forall>u < n. in_section (points m ! t) \<and> in_section (points m ! u) \<longrightarrow> t = u)"
proof -
  have inv: "steps_inv Size (BlockingBuffer_new init) m" "length (points m) = n"
    using steps_inv_moves [OF assms(2) steps_inv_new] by (simp_all add: steps_new_def)
  then obtain c where c: "replay Size (BlockingBuffer_new init) (trace m) = Some c" "mutex m = None \<Longrightarrow> shared m = c"
    by (auto simp: steps_inv_def split: option.splits)
  have "contents Size c = drop (sum_list (map outgoing (trace m))) (concat (map incoming (trace m)))"
    using replay_conserves [OF c(1)] assms(1) by simp
  moreover have "\<forall>t < n. \<forall>u < n. in_section (points m ! t) \<and> in_section (points m ! u) \<longrightarrow> t = u"
    using inv by (auto simp: steps_inv_def)
  ultimately show ?thesis using c by (auto simp: c(1))
qed

text \<open>A reader that finds the buffer empty sleeps; a writer stores two elements, and between them the reader wakes up and
  a wake-up is forced; the reader then takes one of them.\<close>

theorem critical_sections_linearizable_witness:
  "\<exists>m c. moves 2 [Calls 0 (Call_read 1), Locks 0, Works 0, Dozes 0, Calls 1 (Call_write [7, 8 :: nat]), Locks 1, Works 1,
       Works 1, Awakes 0, Forces, Works 1, Works 1, Leaves 1, Locks 0, Works 0, Works 0, Works 0, Leaves 0]
       (steps_new 2 (\<lambda>_. 0)) = Some m
     \<and> trace m = [Forced, Returned 1 (Call_write [7, 8]) (Count 2), Returned 0 (Call_read 1) (Elements [7])]
     \<and> replay 2 (BlockingBuffer_new (\<lambda>_. 0)) (trace m) = Some c \<and> shared m = c \<and> contents 2 c = [8]"
proof -
  let ?as = "[Calls 0 (Call_read 1), Locks 0, Works 0, Dozes 0, Calls 1 (Call_write [7, 8 :: nat]), Locks 1, Works 1,
       Works 1, Awakes 0, Forces, Works 1, Works 1, Leaves 1, Locks 0, Works 0, Works 0, Works 0, Leaves 0]"
  obtain m where m: "moves 2 ?as (steps_new 2 (\<lambda>_. 0)) = Some m" "mutex m = None"
      "trace m = [Forced, Returned 1 (Call_write [7, 8]) (Count 2), Returned 0 (Call_read 1) (Elements [7])]"
    by (simp add: steps_new_def BlockingBuffer_new_def force_wake_up_def numeral_2_eq_2)
  from critical_sections_linearizable [OF _ m(1)] obtain c where
    "replay 2 (BlockingBuffer_new (\<lambda>_. 0)) (trace m) = Some c" "shared m = c"
    "contents 2 c = drop (sum_list (map outgoing (trace m))) (concat (map incoming (trace m)))"
    using m(2) by auto
  then show ?thesis using m by auto
qed

end
