(* ===== verification/Buffer_Monitor.thy ===== *)
theory Buffer_Monitor
  imports Blocking_Buffer
begin

text \<open>
  The synchronisation of \<^verbatim>\<open>BlockingBuffer.h\<close>: its mutex, its two condition variables and the threads that call it. In
  \<open>Blocking_Buffer\<close> an operation is one step; here a thread takes the lock, evaluates the predicate of its wait, goes to sleep
  or does its work, and notifies. The scheduler is the list of actions: which thread goes on, which sleeper a
  \<^verbatim>\<open>notify_one\<close> picks, and when a thread wakes up for no reason, as the standard allows.

  The evaluation of the predicate, the work on the ring, the notification and the release of the lock are one action: no other
  thread can look at the ring in between, which \<open>Buffer_Steps\<close> proves with the single statements as the steps, and
  the notification comes before the release of the lock.

  The lemmas show that with one reading and one writing thread nobody sleeps who could go on, and that this holds neither of
  the wake-up at the end of a stream nor with a second reading thread.
\<close>

subsection \<open>Threads\<close>

text \<open>Where a thread is: outside, before the lock, holding it, about to sleep after the predicate was false, asleep,
  notified but without the lock, or in \<^verbatim>\<open>force_wake_up_\<close> between the assignment and the notification.\<close>

datatype 'a place =
    Outside | Entering "'a buffer_op" | Holding "'a buffer_op" | Parking "'a buffer_op" | Sleeping "'a buffer_op"
  | Notified "'a buffer_op" | Forcing

record 'a monitor =
  ring :: "'a BlockingBuffer"
  lock_holder :: "nat option"
  places :: "'a place list"

definition monitor_new :: "nat \<Rightarrow> (nat \<Rightarrow> 'a) \<Rightarrow> 'a monitor" where
  "monitor_new n init =
     \<lparr>ring = BlockingBuffer_new init, lock_holder = None, places = replicate n Outside\<rparr>"

text \<open>The sleepers of \<^verbatim>\<open>can_read_\<close> and of \<^verbatim>\<open>can_write_\<close>.\<close>

fun reads :: "'a place \<Rightarrow> bool" where
  "reads (Sleeping (Read n)) = True"
| "reads p = False"

fun writes :: "'a place \<Rightarrow> bool" where
  "writes (Sleeping (Write data)) = True"
| "writes p = False"

fun wake :: "'a place \<Rightarrow> 'a place" where
  "wake (Sleeping op) = Notified op"
| "wake p = p"

text \<open>\<^verbatim>\<open>notify_one\<close> with the sleeper that it picks; \<open>None\<close> is only possible when there is none.\<close>

definition notify_one :: "('a place \<Rightarrow> bool) \<Rightarrow> nat option \<Rightarrow> 'a place list \<Rightarrow> 'a place list option" where
  "notify_one waits choice ps =
     (case choice of
        None \<Rightarrow> if list_ex waits ps then None else Some ps
      | Some u \<Rightarrow> if u < length ps \<and> waits (ps ! u) then Some (ps[u := wake (ps ! u)]) else None)"

definition notify_all :: "('a place \<Rightarrow> bool) \<Rightarrow> 'a place list \<Rightarrow> 'a place list" where
  "notify_all waits ps = map (\<lambda>p. if waits p then wake p else p) ps"

text \<open>The notification at the end of an operation, given the buffer before it.\<close>

fun notification :: "'a BlockingBuffer \<Rightarrow> 'a buffer_op \<Rightarrow> nat option \<Rightarrow> 'a place list \<Rightarrow> 'a place list option" where
  "notification b (Write data) choice ps = notify_one reads choice ps"
| "notification b (Read n) choice ps = notify_one writes choice ps"
| "notification b (Try_read n) choice ps = (if curr_len b = 0 then Some ps else notify_one writes choice ps)"
| "notification b (Discard n) choice ps = Some (if min n (curr_len b) > 0 then notify_all writes ps else ps)"
| "notification b Wake choice ps = Some ps"

subsection \<open>Actions\<close>

datatype 'a action =
    Call nat "'a buffer_op"
  | Lock nat
  | Check nat "nat option"
  | Park nat
  | Spurious nat
  | Force nat
  | Notify nat

text \<open>\<^verbatim>\<open>None\<close> is an action that is not possible. Giving up the lock and going to sleep is one step of the wait; the
  flag of \<^verbatim>\<open>force_wake_up_\<close> is assigned without the lock.\<close>

fun act :: "nat \<Rightarrow> 'a action \<Rightarrow> 'a monitor \<Rightarrow> 'a monitor option" where
  "act Size (Call t op) m =
     (if t < length (places m) \<and> places m ! t = Outside \<and> op \<noteq> Wake
      then Some (m\<lparr>places := (places m)[t := Entering op]\<rparr>) else None)"
| "act Size (Lock t) m =
     (if t < length (places m) \<and> lock_holder m = None
      then case places m ! t of
             Entering op \<Rightarrow> Some (m\<lparr>lock_holder := Some t, places := (places m)[t := Holding op]\<rparr>)
           | Notified op \<Rightarrow> Some (m\<lparr>lock_holder := Some t, places := (places m)[t := Holding op]\<rparr>)
           | _ \<Rightarrow> None
      else None)"
| "act Size (Check t choice) m =
     (if t < length (places m)
      then case places m ! t of
             Holding op \<Rightarrow>
               (case buffer_step Size (ring m) op of
                  None \<Rightarrow> Some (m\<lparr>places := (places m)[t := Parking op]\<rparr>)
                | Some (b, _, _) \<Rightarrow>
                    map_option (\<lambda>ps. m\<lparr>ring := b, lock_holder := None, places := ps\<rparr>)
                      (notification (ring m) op choice ((places m)[t := Outside])))
           | _ \<Rightarrow> None
      else None)"
| "act Size (Park t) m =
     (if t < length (places m)
      then case places m ! t of
             Parking op \<Rightarrow> Some (m\<lparr>lock_holder := None, places := (places m)[t := Sleeping op]\<rparr>)
           | _ \<Rightarrow> None
      else None)"
| "act Size (Spurious t) m =
     (if t < length (places m) then Some (m\<lparr>places := (places m)[t := wake (places m ! t)]\<rparr>) else None)"
| "act Size (Force t) m =
     (if t < length (places m) \<and> places m ! t = Outside
      then Some (m\<lparr>ring := force_wake_up (ring m), places := (places m)[t := Forcing]\<rparr>)
      else None)"
| "act Size (Notify t) m =
     (if t < length (places m) \<and> places m ! t = Forcing
      then Some (m\<lparr>places := notify_all writes (notify_all reads ((places m)[t := Outside]))\<rparr>) else None)"

fun acts :: "nat \<Rightarrow> 'a action list \<Rightarrow> 'a monitor \<Rightarrow> 'a monitor option" where
  "acts Size [] m = Some m"
| "acts Size (a # as) m = do { m \<leftarrow> act Size a m; acts Size as m }"

subsection \<open>One thread at a time\<close>

text \<open>What an action can do to the places of the other threads.\<close>

lemma notify_one_frame:
  "notify_one waits choice ps = Some ps' \<Longrightarrow> length ps' = length ps
     \<and> (\<forall>u < length ps. ps' ! u = ps ! u \<or> waits (ps ! u) \<and> ps' ! u = wake (ps ! u))"
  by (auto simp: notify_one_def nth_list_update split: option.splits if_splits)

lemma notification_frame:
  "notification b op choice ps = Some ps' \<Longrightarrow> length ps' = length ps
     \<and> (\<forall>u < length ps. ps' ! u = ps ! u \<or> ps' ! u = wake (ps ! u))"
  by (cases op) (auto simp: notify_all_def split: if_splits dest!: notify_one_frame)

lemma act_CheckE:
  assumes "act Size (Check t choice) m = Some m'"
  obtains (blocks) op where "t < length (places m)" "places m ! t = Holding op" "buffer_step Size (ring m) op = None"
      "m' = m\<lparr>places := (places m)[t := Parking op]\<rparr>"
    | (works) op b ins outs ps where "t < length (places m)" "places m ! t = Holding op"
      "buffer_step Size (ring m) op = Some (b, ins, outs)"
      "notification (ring m) op choice ((places m)[t := Outside]) = Some ps"
      "m' = m\<lparr>ring := b, lock_holder := None, places := ps\<rparr>"
  using assms by (auto split: if_splits place.splits option.splits)

lemma act_length: "act Size a m = Some m' \<Longrightarrow> length (places m') = length (places m)"
proof (cases a)
  case (Check t choice)
  assume "act Size a m = Some m'"
  from this [unfolded Check] show ?thesis
    by (cases rule: act_CheckE) (auto dest!: notification_frame)
qed (auto simp: notify_all_def split: place.splits if_splits)

text \<open>The thread that holds the lock.\<close>

fun inside :: "'a place \<Rightarrow> bool" where
  "inside (Holding op) = True"
| "inside (Parking op) = True"
| "inside p = False"

lemma inside_wake [simp]: "inside (wake p) = inside p"
  by (cases p) simp_all

definition exclusive :: "'a monitor \<Rightarrow> bool" where
  "exclusive m \<longleftrightarrow> (\<forall>t < length (places m). inside (places m ! t) \<longleftrightarrow> lock_holder m = Some t)"

lemma exclusive_act:
  assumes "act Size a m = Some m'" and "exclusive m"
  shows "exclusive m'"
proof (cases a)
  case (Check t choice)
  from assms(1) [unfolded Check] show ?thesis
  proof (cases rule: act_CheckE)
    case (works op b ins outs ps)
    have t: "lock_holder m = Some t" using assms(2) works(1,2) by (auto simp: exclusive_def)
    have "\<not> inside (ps ! u)" if "u < length ps" for u
    proof -
      have "inside (ps ! u) = inside ((places m)[t := Outside] ! u)"
        using notification_frame [OF works(4)] that by (metis inside_wake)
      then show ?thesis
        using notification_frame [OF works(4)] that assms(2) t by (auto simp: exclusive_def nth_list_update)
    qed
    then show ?thesis using works(5) by (simp add: exclusive_def)
  qed (use assms(2) in \<open>auto simp: exclusive_def nth_list_update\<close>)
next
  case (Notify t)
  then have "t < length (places m)" "places m ! t = Forcing" using assms(1) by (auto split: if_splits)
  then have "lock_holder m \<noteq> Some t" using assms(2) by (auto simp: exclusive_def)
  then show ?thesis
    using Notify assms by (auto simp: exclusive_def nth_list_update notify_all_def split: if_splits)
qed (use assms in \<open>fastforce simp: exclusive_def nth_list_update split: place.splits if_splits\<close>)+

text \<open>An invariant of the actions holds in every schedule.\<close>

lemma acts_invariant:
  assumes "acts Size as m = Some m'" and "P m" and "\<And>a m m'. a \<in> set as \<Longrightarrow> act Size a m = Some m' \<Longrightarrow> P m \<Longrightarrow> P m'"
  shows "P m'"
  using assms
proof (induction as arbitrary: m)
  case (Cons a as)
  then obtain m1 where "act Size a m = Some m1" "acts Size as m1 = Some m'" by (auto simp: bind_eq_Some_conv)
  then show ?case using Cons.IH [of m1] Cons.prems(2,3) by (metis list.set_intros)
qed simp

lemma monitor_new_ok: "exclusive (monitor_new n init)"
  by (simp add: exclusive_def monitor_new_def)

subsection \<open>Sleepers\<close>

lemma buffer_step_None:
  "buffer_step Size b op = None \<longleftrightarrow> \<not> is_forcefully_woken_up b
     \<and> ((\<exists>data. op = Write data) \<and> Size \<le> curr_len b \<or> (\<exists>n. op = Read n) \<and> curr_len b = 0)"
  by (cases op) (auto simp: BlockingBuffer_write_def BlockingBuffer_read_def Let_def split: prod.splits if_splits)

lemma buffer_step_flag:
  "buffer_step Size b op = Some (b', ins, outs) \<Longrightarrow> op \<noteq> Wake \<Longrightarrow> is_forcefully_woken_up b' = is_forcefully_woken_up b"
  by (cases op) (auto simp: BlockingBuffer_write_def BlockingBuffer_read_def BlockingBuffer_try_read_def take_front_def
      BlockingBuffer_discard_def Let_def split: prod.splits if_splits)

lemma empty_after:
  assumes "buffer_step Size b op = Some (b', ins, outs)" and "curr_len b = 0" and "\<forall>data. op \<noteq> Write data" and "op \<noteq> Wake"
  shows "curr_len b' = 0"
  using assms by (cases op) (auto simp: BlockingBuffer_read_def BlockingBuffer_try_read_def take_front_def
      BlockingBuffer_discard_def Let_def split: prod.splits if_splits)

lemma full_after:
  assumes "buffer_step Size b op = Some (b', ins, outs)" and "op = Write data \<or> op = Try_read n \<and> curr_len b = 0
      \<or> op = Discard n \<and> min n (curr_len b) = 0"
  shows "curr_len b \<le> curr_len b'"
  using assms by (auto simp: BlockingBuffer_write_def BlockingBuffer_try_read_def BlockingBuffer_discard_def Let_def
      split: prod.splits if_splits)

text \<open>One thread reads and one writes, and nobody forces a wake-up.\<close>

fun disciplined :: "nat \<Rightarrow> nat \<Rightarrow> 'a action \<Rightarrow> bool" where
  "disciplined r w (Call t (Read n)) = (t = r)"
| "disciplined r w (Call t (Write data)) = (t = w)"
| "disciplined r w (Force t) = False"
| "disciplined r w a = True"

fun role :: "nat \<Rightarrow> nat \<Rightarrow> nat \<Rightarrow> 'a buffer_op \<Rightarrow> bool" where
  "role r w t (Read n) = (t = r)"
| "role r w t (Write data) = (t = w)"
| "role r w t Wake = False"
| "role r w t op = True"

fun place_ok :: "(nat \<Rightarrow> 'a buffer_op \<Rightarrow> bool) \<Rightarrow> ('a buffer_op \<Rightarrow> bool) \<Rightarrow> nat \<Rightarrow> 'a place \<Rightarrow> bool" where
  "place_ok R B t Outside = True"
| "place_ok R B t (Entering op) = R t op"
| "place_ok R B t (Holding op) = R t op"
| "place_ok R B t (Parking op) = (R t op \<and> B op)"
| "place_ok R B t (Sleeping op) = (R t op \<and> B op)"
| "place_ok R B t (Notified op) = R t op"
| "place_ok R B t Forcing = False"

definition awake :: "nat \<Rightarrow> nat \<Rightarrow> nat \<Rightarrow> 'a monitor \<Rightarrow> bool" where
  "awake Size r w m \<longleftrightarrow> exclusive m \<and> \<not> is_forcefully_woken_up (ring m)
     \<and> (\<forall>t < length (places m). place_ok (role r w) (\<lambda>op. buffer_step Size (ring m) op = None) t (places m ! t))"

lemma place_ok_wake: "place_ok R B t p \<Longrightarrow> place_ok R B t (wake p)"
  by (cases p) simp_all

lemma reads_iff: "reads p \<longleftrightarrow> (\<exists>n. p = Sleeping (Read n))" and writes_iff: "writes p \<longleftrightarrow> (\<exists>data. p = Sleeping (Write data))"
  by (cases p rule: reads.cases; simp) (cases p rule: writes.cases; simp)

text \<open>After the notification the only thread that could sleep there has been picked.\<close>

lemma notify_one_only:
  assumes "notify_one waits choice ps = Some ps'" and "\<And>u. u < length ps \<Longrightarrow> waits (ps ! u) \<Longrightarrow> u = v"
    and "\<And>p. waits p \<Longrightarrow> \<not> waits (wake p)" and "u < length ps'"
  shows "\<not> waits (ps' ! u)"
proof (cases choice)
  case None
  then show ?thesis using assms(1,4) by (auto simp: notify_one_def list_ex_length split: if_splits)
next
  case (Some c)
  then have "c < length ps" "waits (ps ! c)" "ps' = ps[c := wake (ps ! c)]"
    using assms(1) by (auto simp: notify_one_def split: if_splits)
  then show ?thesis using assms(2) [of c] assms(2) [of u] assms(3) [of "ps ! c"] assms(4) by (cases "u = c") auto
qed

lemma sleeper_stays:
  assumes "awake Size r w m" and "t < length (places m)" and "places m ! t = Holding op"
    and "buffer_step Size (ring m) op = Some (b, ins, outs)"
    and "notification (ring m) op choice ((places m)[t := Outside]) = Some ps"
    and "u < length ps" and "ps ! u = Sleeping op'"
  shows "buffer_step Size b op' = None \<and> role r w u op'"
proof -
  let ?ps = "(places m)[t := Outside]"
  have len: "length ps = length (places m)" using notification_frame [OF assms(5)] by simp
  have wk: "wake p \<noteq> Sleeping o'" for p :: "'a place" and o' by (cases p) simp_all
  have "ps ! u = ?ps ! u" using notification_frame [OF assms(5)] assms(6,7) wk by metis
  then have u: "u \<noteq> t" "places m ! u = Sleeping op'" using assms(2,7) by (auto simp: nth_list_update split: if_splits)
  have ok: "place_ok (role r w) (\<lambda>op. buffer_step Size (ring m) op = None) v (places m ! v)" if "v < length (places m)" for v
    using that assms(1) by (simp add: awake_def)
  have o: "role r w u op'" "buffer_step Size (ring m) op' = None" "role r w t op"
    using ok [of u] ok [OF assms(2)] u(2) assms(3,6) len by simp_all
  have only: "reads (?ps ! v) \<Longrightarrow> v = r" "writes (?ps ! v) \<Longrightarrow> v = w" if "v < length ?ps" for v
    using ok [of v] that by (cases "v = t"; auto simp: reads_iff writes_iff)+
  have wake: "reads p \<Longrightarrow> \<not> reads (wake p)" "writes p \<Longrightarrow> \<not> writes (wake p)" for p :: "'a place"
    by (auto simp: reads_iff writes_iff)
  have nr: "\<not> (notify_one reads choice ?ps = Some ps \<and> reads (ps ! u))"
    and nw: "\<not> (notify_one writes choice ?ps = Some ps \<and> writes (ps ! u))"
    using notify_one_only [of reads choice ?ps ps r u] notify_one_only [of writes choice ?ps ps w u] only wake assms(6)
    by blast+
  have "op \<noteq> Wake" using o(3) by auto
  note flag = buffer_step_flag [OF assms(4) this] and empty = empty_after [OF assms(4) _ _ this] and full = full_after [OF assms(4)]
  from o(2) consider n where "op' = Read n" "curr_len (ring m) = 0" | data where "op' = Write data" "Size \<le> curr_len (ring m)"
    by (auto simp: buffer_step_None)
  then have "buffer_step Size b op' = None"
  proof cases
    case 1
    have "\<forall>data. op \<noteq> Write data" using nr assms(5,7) 1(1) by auto
    with 1 show ?thesis using empty flag o(2) unfolding buffer_step_None by simp
  next
    case (2 data)
    have "curr_len (ring m) \<le> curr_len b"
    proof (cases op)
      case (Discard n)
      have "ps ! u \<noteq> Sleeping (Write data)" if "0 < min n (curr_len (ring m))"
        using assms(5,6) that Discard wk [of "?ps ! u"] by (auto simp: notify_all_def writes_iff split: if_splits)
      then have "min n (curr_len (ring m)) = 0" using 2(1) assms(7) by (metis neq0_conv)
      then show ?thesis using full [of data n] Discard by simp
    qed (use full nw assms(5,7) 2(1) o(1,3) u(1) \<open>op \<noteq> Wake\<close> in \<open>auto split: if_splits\<close>)
    then show ?thesis using 2 flag o(2) unfolding buffer_step_None by simp
  qed
  with o(1) show ?thesis by simp
qed

lemma awake_works:
  assumes "awake Size r w m" and "act Size (Check t choice) m = Some m'"
  shows "awake Size r w m'"
  using assms(2)
proof (cases rule: act_CheckE)
  case (blocks op)
  then have "exclusive m'" using exclusive_act [OF assms(2)] assms(1) by (simp add: awake_def)
  moreover have "role r w t op" using blocks(1,2) assms(1) by (fastforce simp: awake_def)
  ultimately show ?thesis using blocks assms(1) by (auto simp: awake_def nth_list_update)
next
  case (works op b ins outs ps)
  let ?ps = "(places m)[t := Outside]"
  have ok: "place_ok (role r w) (\<lambda>op. buffer_step Size (ring m) op = None) v (places m ! v)" if "v < length (places m)" for v
    using that assms(1) by (simp add: awake_def)
  have len: "length ps = length (places m)" using notification_frame [OF works(4)] by simp
  have ex: "exclusive m'" using exclusive_act [OF assms(2)] assms(1) by (simp add: awake_def)
  have "op \<noteq> Wake" using ok [OF works(1)] works(2) by auto
  then have "\<not> is_forcefully_woken_up b" using buffer_step_flag [OF works(3)] assms(1) by (simp add: awake_def)
  moreover have "place_ok (role r w) (\<lambda>op. buffer_step Size b op = None) u (ps ! u)" if "u < length ps" for u
  proof -
    have "ps ! u = ?ps ! u \<or> ps ! u = wake (?ps ! u)" using notification_frame [OF works(4)] that by auto
    moreover have "place_ok (role r w) (\<lambda>op. buffer_step Size (ring m) op = None) u (?ps ! u)"
      using ok [of u] that len works(1) by (simp add: nth_list_update)
    ultimately have p: "place_ok (role r w) (\<lambda>op. buffer_step Size (ring m) op = None) u (ps ! u)"
      by (auto dest: place_ok_wake)
    have "\<not> inside (ps ! u)" using ex that works(5) by (simp add: exclusive_def)
    then show ?thesis
      using p sleeper_stays [OF assms(1) works(1-4) that] by (cases "ps ! u") auto
  qed
  ultimately show ?thesis using ex works(5) by (simp add: awake_def)
qed

lemma awake_act:
  assumes "act Size a m = Some m'" and "awake Size r w m" and "disciplined r w a"
  shows "awake Size r w m'"
proof -
  have ok: "place_ok (role r w) (\<lambda>op. buffer_step Size (ring m) op = None) v (places m ! v)" if "v < length (places m)" for v
    using that assms(2) by (simp add: awake_def)
  have ex: "exclusive m'" using exclusive_act [OF assms(1)] assms(2) by (simp add: awake_def)
  have set: "awake Size r w m'"
    if "ring m' = ring m" "places m' = (places m)[t := p]"
      "t < length (places m) \<Longrightarrow> place_ok (role r w) (\<lambda>op. buffer_step Size (ring m) op = None) t p" for t p
  proof -
    note upd = that
    have "place_ok (role r w) (\<lambda>op. buffer_step Size (ring m) op = None) v ((places m)[t := p] ! v)"
      if "v < length (places m)" for v
      using that ok [OF that] upd(3) by (cases "v = t") simp_all
    then show ?thesis using ex assms(2) upd(1,2) by (simp add: awake_def)
  qed
  show ?thesis
  proof (cases a)
    case (Check t choice)
    then show ?thesis using awake_works assms(1,2) by blast
  next
    case (Call t op)
    then have "role r w t op" using assms(1,3) by (cases op) (auto split: if_splits)
    then show ?thesis using Call assms(1) by (intro set [of t "Entering op"]) (auto split: if_splits)
  next
    case (Spurious t)
    then show ?thesis using assms(1) ok [of t] by (intro set [of t "wake (places m ! t)"]) (auto intro: place_ok_wake split: if_splits)
  next
    case (Lock t)
    then obtain op where "places m ! t = Entering op \<or> places m ! t = Notified op" "t < length (places m)"
        "m' = m\<lparr>lock_holder := Some t, places := (places m)[t := Holding op]\<rparr>"
      using assms(1) by (auto split: if_splits place.splits)
    then show ?thesis using ok [of t] by (intro set [of t "Holding op"]) auto
  next
    case (Park t)
    then obtain op where "places m ! t = Parking op" "t < length (places m)"
        "m' = m\<lparr>lock_holder := None, places := (places m)[t := Sleeping op]\<rparr>"
      using assms(1) by (auto split: if_splits place.splits)
    then show ?thesis using ok [of t] by (intro set [of t "Sleeping op"]) auto
  next
    case (Notify t)
    then show ?thesis using assms(1) ok [of t] by (auto split: if_splits)
  qed (use assms(3) in simp)
qed

text \<open>C28. Nobody sleeps who could go on. With one reading thread, one writing thread and any number of threads
  that read without blocking or discard, in every schedule without a forced wake-up, a thread that is asleep is one whose
  call cannot proceed: the buffer is empty under a sleeping reader and full under a sleeping writer. So no
  notification is lost.\<close>

theorem no_lost_wakeup:
  assumes "acts Size as (monitor_new n init) = Some m" and "\<forall>a \<in> set as. disciplined r w a"
    and "t < n" and "places m ! t = Sleeping op"
  shows "buffer_step Size (ring m) op = None
    \<and> ((\<exists>k. op = Read k) \<and> t = r \<and> curr_len (ring m) = 0 \<or> (\<exists>data. op = Write data) \<and> t = w \<and> Size \<le> curr_len (ring m))"
proof -
  have "awake Size r w m \<and> length (places m) = n"
  proof (rule acts_invariant [OF assms(1)])
    show "awake Size r w (monitor_new n init) \<and> length (places (monitor_new n init)) = n"
      using monitor_new_ok [of n init] by (simp add: awake_def) (simp add: monitor_new_def BlockingBuffer_new_def)
  qed (use assms(2) in \<open>auto dest: awake_act act_length\<close>)
  then have "place_ok (role r w) (\<lambda>op. buffer_step Size (ring m) op = None) t (Sleeping op)"
    using assms(3,4) unfolding awake_def by metis
  then show ?thesis by (auto simp: buffer_step_None)
qed

theorem no_lost_wakeup_witness:
  "\<exists>m. acts 2 [Call 0 (Read 1), Lock 0, Check 0 None, Park 0] (monitor_new 2 (\<lambda>_. 0 :: nat)) = Some m
     \<and> buffer_step 2 (ring m) (Read 1) = None"
proof -
  let ?as = "[Call 0 (Read 1), Lock 0, Check 0 None, Park 0]"
  obtain m where m: "acts 2 ?as (monitor_new 2 (\<lambda>_. 0 :: nat)) = Some m" "places m ! 0 = Sleeping (Read 1)"
    by (simp add: monitor_new_def BlockingBuffer_new_def BlockingBuffer_read_def numeral_2_eq_2)
  then show ?thesis using no_lost_wakeup [OF m(1), of 0 1 0 "Read 1"] by auto
qed

subsection \<open>Lost wake-ups\<close>

text \<open>What can release a sleeping reader: a write, a forced wake-up, or no reason at all.\<close>

fun releases :: "'a action \<Rightarrow> bool" where
  "releases (Call t (Write data)) = True"
| "releases (Force t) = True"
| "releases (Spurious t) = True"
| "releases a = False"

fun harmless :: "'a place \<Rightarrow> bool" where
  "harmless Forcing = False"
| "harmless (Entering (Write data)) = False"
| "harmless (Holding (Write data)) = False"
| "harmless (Notified (Write data)) = False"
| "harmless (Parking (Write data)) = False"
| "harmless (Sleeping (Write data)) = False"
| "harmless p = True"

definition abandoned :: "nat \<Rightarrow> nat \<Rightarrow> 'a monitor \<Rightarrow> bool" where
  "abandoned r k m \<longleftrightarrow> r < length (places m) \<and> places m ! r = Sleeping (Read k) \<and> (\<forall>p \<in> set (places m). harmless p)"

lemma harmless_writes: "harmless p \<Longrightarrow> \<not> writes p"
  by (auto simp: writes_iff)

lemma abandoned_update:
  assumes "abandoned r k m" and "t < length (places m)" and "places m ! t \<noteq> Sleeping (Read k)" and "harmless p"
  shows "abandoned r k (m\<lparr>places := (places m)[t := p]\<rparr>)"
  using assms set_update_subset_insert [of "places m" t p] by (auto simp: abandoned_def nth_list_update)

lemma no_writer_notified:
  assumes "\<forall>p \<in> set ps. harmless p" and "\<forall>data. op \<noteq> Write data" and "notification b op choice ps = Some ps'"
  shows "ps' = ps"
proof -
  have n: "\<not> writes p" if "p \<in> set ps" for p using that assms(1) harmless_writes by blast
  then have "notify_all writes ps = ps" by (simp add: notify_all_def map_idI)
  moreover have "ps1 = ps" if "notify_one writes choice ps = Some ps1" for ps1
    using that n by (auto simp: notify_one_def split: option.splits if_splits)
  ultimately show ?thesis using assms(2,3) by (cases op) (auto split: if_splits)
qed

lemma abandoned_act:
  assumes "act Size a m = Some m'" and "abandoned r k m" and "\<not> releases a"
  shows "abandoned r k m'"
proof -
  have h: "harmless (places m ! t)" if "t < length (places m)" for t using that assms(2) by (simp add: abandoned_def)
  note upd = abandoned_update [OF assms(2)]
  show ?thesis
  proof (cases a)
    case (Call t op)
    then have "harmless (Entering op)" using assms(3) by (cases op) simp_all
    then show ?thesis using Call assms(1) upd [of t "Entering op"] by (auto split: if_splits)
  next
    case (Lock t)
    then obtain op where l: "places m ! t = Entering op \<or> places m ! t = Notified op" "t < length (places m)"
        "m' = m\<lparr>lock_holder := Some t, places := (places m)[t := Holding op]\<rparr>"
      using assms(1) by (auto split: if_splits place.splits)
    then have "harmless (Holding op)" using h [of t] by (cases op) auto
    then show ?thesis using l upd [of t "Holding op"] by (auto simp: abandoned_def)
  next
    case (Check t choice)
    from assms(1) [unfolded this] show ?thesis
    proof (cases rule: act_CheckE)
      case (blocks op)
      then have "harmless (Parking op)" using h [of t] by (cases op) auto
      then show ?thesis using blocks upd [of t "Parking op"] by simp
    next
      case (works op b ins outs ps)
      then have "\<forall>data. op \<noteq> Write data" using h [of t] by auto
      moreover have o: "abandoned r k (m\<lparr>places := (places m)[t := Outside]\<rparr>)" using works(1,2) by (intro upd) simp_all
      ultimately have "ps = (places m)[t := Outside]"
        using no_writer_notified [OF _ _ works(4)] by (simp add: abandoned_def)
      then show ?thesis using o works(5) by (simp add: abandoned_def)
    qed
  next
    case (Park t)
    then obtain op where l: "places m ! t = Parking op" "t < length (places m)"
        "m' = m\<lparr>lock_holder := None, places := (places m)[t := Sleeping op]\<rparr>"
      using assms(1) by (auto split: if_splits place.splits)
    then have "harmless (Sleeping op)" using h [of t] by (cases op) auto
    then show ?thesis using l upd [of t "Sleeping op"] by (auto simp: abandoned_def)
  next
    case (Notify t)
    then show ?thesis using assms(1) h [of t] by (auto split: if_splits)
  qed (use assms(3) in simp_all)
qed

text \<open>C36. The wake-up at the end of a stream can be lost. A reader has found the buffer empty and is about to sleep when
  another thread calls \<^verbatim>\<open>force_wake_up_\<close>, which takes no lock: its notification finds nobody asleep. The reader then
  sleeps although its call could return, and it goes on sleeping in every schedule in which nobody writes, nobody
  forces another wake-up and the system does not wake it for no reason.\<close>

theorem forced_wakeup_lost:
  "\<exists>m. acts Size [Call 0 (Read k), Lock 0, Check 0 None, Force 1, Notify 1, Park 0] (monitor_new 2 init) = Some m
    \<and> buffer_step Size (ring m) (Read k) \<noteq> None
    \<and> (\<forall>as m'. acts Size as m = Some m' \<and> (\<forall>a \<in> set as. \<not> releases a) \<longrightarrow> places m' ! 0 = Sleeping (Read k))"
proof -
  obtain m where m: "acts Size [Call 0 (Read k), Lock 0, Check 0 None, Force 1, Notify 1, Park 0] (monitor_new 2 init) = Some m"
      "places m = [Sleeping (Read k), Outside]" "is_forcefully_woken_up (ring m)"
    by (simp add: monitor_new_def BlockingBuffer_new_def BlockingBuffer_read_def force_wake_up_def notify_all_def numeral_2_eq_2)
  have "abandoned 0 k m" using m(2) by (simp add: abandoned_def)
  then have "abandoned 0 k m'" if "acts Size as m = Some m'" "\<forall>a \<in> set as. \<not> releases a" for as m'
    using acts_invariant [OF that(1), of "abandoned 0 k"] that(2) abandoned_act by blast
  then have "places m' ! 0 = Sleeping (Read k)" if "acts Size as m = Some m'" "\<forall>a \<in> set as. \<not> releases a" for as m'
    using that by (simp add: abandoned_def)
  moreover have "buffer_step Size (ring m) (Read k) \<noteq> None" using m(3) by (simp only: buffer_step_None) simp
  ultimately show ?thesis using m(1) by blast
qed

theorem forced_wakeup_lost_witness:
  "\<exists>m. acts 4 [Call 0 (Read 1), Lock 0, Check 0 None, Force 1, Notify 1, Park 0] (monitor_new 2 (\<lambda>_. 0 :: nat)) = Some m
    \<and> places m ! 0 = Sleeping (Read 1) \<and> buffer_step 4 (ring m) (Read 1) \<noteq> None"
proof -
  obtain m where m: "acts 4 [Call 0 (Read 1), Lock 0, Check 0 None, Force 1, Notify 1, Park 0]
      (monitor_new 2 (\<lambda>_. 0 :: nat)) = Some m" "buffer_step 4 (ring m) (Read 1) \<noteq> None"
    "\<forall>as m'. acts 4 as m = Some m' \<and> (\<forall>a \<in> set as. \<not> releases a) \<longrightarrow> places m' ! 0 = Sleeping (Read 1)"
    using forced_wakeup_lost [of 4 1 "\<lambda>_. 0 :: nat"] by blast
  have "places m ! 0 = Sleeping (Read 1)" using m(3) [rule_format, of "[]" m] by simp
  with m(1,2) show ?thesis by blast
qed

text \<open>With two readers a notification can be lost as well: \<^verbatim>\<open>write\<close> notifies one of them, and when that one leaves
  elements behind, the other one goes on sleeping next to a buffer that is not empty.\<close>

lemma second_reader_starves:
  "\<exists>m. acts 4 [Call 0 (Read 1), Lock 0, Check 0 None, Park 0, Call 1 (Read 1), Lock 1, Check 1 None, Park 1,
      Call 2 (Write [7, 8 :: nat]), Lock 2, Check 2 (Some 0), Lock 0, Check 0 None] (monitor_new 3 (\<lambda>_. 0)) = Some m
    \<and> places m = [Outside, Sleeping (Read 1), Outside] \<and> curr_len (ring m) = 1"
  by (simp add: monitor_new_def BlockingBuffer_new_def BlockingBuffer_read_def BlockingBuffer_write_def take_front_def
      notify_one_def numeral_2_eq_2 numeral_3_eq_3 Let_def)

end
