(* ===== verification/Output_Streams.thy ===== *)
theory Output_Streams
  imports Text_Streams
begin

text \<open>
  What the source uses of \<^verbatim>\<open>std::ostream\<close>: formatted insertion of text and of non-negative integers,
  with the manipulators \<^verbatim>\<open>dec\<close>, \<^verbatim>\<open>hex\<close>, \<^verbatim>\<open>setfill\<close>, \<^verbatim>\<open>setw\<close>, \<^verbatim>\<open>fixed\<close> and \<^verbatim>\<open>setprecision\<close>. A stream is
  the text written so far and its format state; every insertion is padded on the left to the field width, which it resets. A chain
  of insertions is a list of operations, applied in order.

  The lemmas read numbers back from text: a decimal number ends where the digits end, a padded
  hexadecimal number has a fixed length. With them a dump can be taken apart again.
\<close>

datatype number_base = Decimal | Hexadecimal

record ostream =
  os_text :: string
  os_base :: number_base
  os_fill :: char
  os_width :: nat
  os_fixed :: bool
  os_precision :: nat

definition os_new :: ostream where
  "os_new = \<lparr>os_text = [], os_base = Decimal, os_fill = CHR '' '', os_width = 0, os_fixed = False,
     os_precision = 6\<rparr>"

definition put_text :: "string \<Rightarrow> ostream \<Rightarrow> ostream" where
  "put_text s os = os\<lparr>os_text := os_text os @ replicate (os_width os - length s) (os_fill os) @ s,
     os_width := 0\<rparr>"

definition put_nat :: "nat \<Rightarrow> ostream \<Rightarrow> ostream" where
  "put_nat n os = put_text (case os_base os of Decimal \<Rightarrow> show_nat n | Hexadecimal \<Rightarrow> show_hex n) os"

definition set_base :: "number_base \<Rightarrow> ostream \<Rightarrow> ostream" where
  "set_base b os = os\<lparr>os_base := b\<rparr>"

definition set_fill :: "char \<Rightarrow> ostream \<Rightarrow> ostream" where
  "set_fill c os = os\<lparr>os_fill := c\<rparr>"

definition set_width :: "nat \<Rightarrow> ostream \<Rightarrow> ostream" where
  "set_width w os = os\<lparr>os_width := w\<rparr>"

definition set_fixed :: "ostream \<Rightarrow> ostream" where
  "set_fixed os = os\<lparr>os_fixed := True\<rparr>"

definition set_precision :: "nat \<Rightarrow> ostream \<Rightarrow> ostream" where
  "set_precision p os = os\<lparr>os_precision := p\<rparr>"

definition emit :: "(ostream \<Rightarrow> ostream) list \<Rightarrow> ostream \<Rightarrow> ostream" where
  "emit ops os = fold (\<lambda>f. f) ops os"

abbreviation newline :: char where
  "newline \<equiv> CHR 0x0A"

text \<open>The two streams of a program.\<close>

record console =
  cout :: ostream
  cerr :: ostream

definition console_new :: console where
  "console_new = \<lparr>cout = os_new, cerr = os_new\<rparr>"

definition to_cout :: "(ostream \<Rightarrow> ostream) list \<Rightarrow> console \<Rightarrow> console" where
  "to_cout ops c = c\<lparr>cout := emit ops (cout c)\<rparr>"

definition to_cerr :: "(ostream \<Rightarrow> ostream) list \<Rightarrow> console \<Rightarrow> console" where
  "to_cerr ops c = c\<lparr>cerr := emit ops (cerr c)\<rparr>"

subsection \<open>Chains of insertions\<close>

text \<open>The format state in which a program starts and which the dumps restore.\<close>

definition plain_format :: "ostream \<Rightarrow> bool" where
  "plain_format os \<longleftrightarrow> os_base os = Decimal \<and> os_fill os = CHR '' '' \<and> os_width os = 0"

definition write_text :: "string \<Rightarrow> ostream \<Rightarrow> ostream" where
  "write_text s os = os\<lparr>os_text := os_text os @ s\<rparr>"

lemma write_text_simps [simp]:
  "plain_format (write_text s os) = plain_format os"
  "os_text (write_text s os) = os_text os @ s"
  "write_text t (write_text s os) = write_text (s @ t) os"
  "write_text [] os = os"
  "write_text s os = write_text t os \<longleftrightarrow> s = t"
  by (auto simp: write_text_def plain_format_def dest: arg_cong [where f = os_text])

lemma os_new_simps [simp]: "plain_format os_new" "os_text os_new = []"
  by (simp_all add: plain_format_def os_new_def)

lemma emit_Nil [simp]: "emit [] os = os"
  by (simp add: emit_def)

lemma emit_append [simp]: "emit (fs @ gs) os = emit gs (emit fs os)"
  by (simp add: emit_def)

lemma emit_step [simp]:
  assumes "plain_format os"
  shows "emit (put_text s # ops) os = emit ops (write_text s os)"
    and "emit (put_nat n # ops) os = emit ops (write_text (show_nat n) os)"
  using assms
  by (cases os; simp add: emit_def put_text_def put_nat_def write_text_def plain_format_def)+

lemma emit_float_format [simp]:
  "emit (set_fixed # ops) os = emit ops (set_fixed os)" "emit (set_precision p # ops) os = emit ops (set_precision p os)"
  "plain_format (set_fixed os) = plain_format os" "plain_format (set_precision p os) = plain_format os"
  "os_text (set_fixed os) = os_text os" "os_text (set_precision p os) = os_text os"
  "os_fixed (set_fixed os)" "os_fixed (set_precision p os) = os_fixed os" "os_fixed (write_text s os) = os_fixed os"
  "os_precision (set_precision p os) = p" "os_precision (set_fixed os) = os_precision os"
  "os_precision (write_text s os) = os_precision os"
  by (simp_all add: emit_def set_fixed_def set_precision_def plain_format_def write_text_def)

lemma console_simps [simp]:
  "cout (to_cerr ops c) = cout c" "cerr (to_cout ops c) = cerr c"
  "cout (to_cout ops c) = emit ops (cout c)" "cerr (to_cerr ops c) = emit ops (cerr c)"
  by (simp_all add: to_cout_def to_cerr_def)

text \<open>The idiom for a padded hexadecimal number.\<close>

lemma emit_hex [simp]:
  assumes "plain_format os"
  shows "emit (set_base Hexadecimal # set_width w # set_fill (CHR ''0'') # put_nat n
      # set_base Decimal # set_fill (CHR '' '') # ops) os = emit ops (write_text (show_hex_padded w n) os)"
  using assms
  by (cases os) (simp add: emit_def put_text_def put_nat_def write_text_def plain_format_def set_base_def
      set_width_def set_fill_def show_hex_padded_def Let_def)

subsection \<open>Taking text apart\<close>

lemma show_nat_append_eq:
  assumes "show_nat m @ r = show_nat n @ q" and "no_digit_first r" and "no_digit_first q"
  shows "m = n \<and> r = q"
proof -
  have "read_digits 0 (show_nat m @ r) = read_digits 0 (show_nat n @ q)" using assms(1) by simp
  with assms(2,3) show ?thesis by (simp add: read_digits_show_nat read_digits_stop)
qed

lemma show_hex_length: "n < 16 ^ w \<Longrightarrow> 0 < w \<Longrightarrow> length (show_hex n) \<le> w"
proof (induction n arbitrary: w rule: show_hex.induct)
  case (1 n)
  show ?case
  proof (cases "n < 16")
    case False
    then obtain v where w: "w = Suc v" "0 < v" using 1(2,3) by (cases w; cases "w - 1") auto
    have "n div 16 < 16 ^ v" using 1(2) w by (simp add: div_less_iff_less_mult mult.commute)
    with False 1(1) w show ?thesis by (simp add: show_hex.simps [of n])
  qed (use 1 in \<open>simp add: show_hex.simps [of n]\<close>)
qed

lemma length_show_hex_padded [simp]: "n < 16 ^ w \<Longrightarrow> 0 < w \<Longrightarrow> length (show_hex_padded w n) = w"
  using show_hex_length [of n w] by (simp add: show_hex_padded_def Let_def)

definition hex_value :: "char \<Rightarrow> nat" where
  "hex_value c = (let k = of_char c in if k < 58 then k - 48 else k - 87)"

definition read_hex :: "string \<Rightarrow> nat" where
  "read_hex = foldl (\<lambda>n c. 16 * n + hex_value c) 0"

lemma hex_value_char [simp]: "d < 16 \<Longrightarrow> hex_value (hex_char d) = d"
  by (simp add: hex_value_def hex_char_def Let_def)

lemma read_hex_snoc [simp]: "read_hex (s @ [c]) = 16 * read_hex s + hex_value c"
  by (simp add: read_hex_def)

lemma read_hex_show [simp]: "read_hex (show_hex n) = n"
proof (induction n rule: show_hex.induct)
  case (1 n)
  then show ?case
    by (cases "n < 16") (simp_all add: show_hex.simps [of n], simp add: read_hex_def)
qed

lemma read_hex_zeros [simp]: "read_hex (replicate k (CHR ''0'') @ s) = read_hex s"
  by (induction k) (simp_all add: read_hex_def hex_value_def)

lemma read_hex_padded [simp]: "read_hex (show_hex_padded w n) = n"
  by (simp add: show_hex_padded_def Let_def)

lemma show_hex_padded_append_eq:
  assumes "show_hex_padded w m @ r = show_hex_padded w n @ q" and "m < 16 ^ w" and "n < 16 ^ w" and "0 < w"
  shows "m = n \<and> r = q"
proof -
  have "show_hex_padded w m = show_hex_padded w n \<and> r = q"
    using assms by (simp add: append_eq_append_conv)
  then show ?thesis by (metis read_hex_padded)
qed

end
