(* ===== verification/Log_Output.thy ===== *)
theory Log_Output
  imports Output_Streams
begin

text \<open>
  \<^verbatim>\<open>utils/Logger.h\<close> and \<^verbatim>\<open>utils/Logger.cpp\<close>: the logger, its lines and the tags \<^verbatim>\<open>DEBUG\<close>, \<^verbatim>\<open>INFO\<close>, \<^verbatim>\<open>WARN\<close>
  and \<^verbatim>\<open>ERROR\<close>. A log statement builds a \<^verbatim>\<open>Line\<close> object and prints it when the object is destroyed. The
  tag's operator returns its line by value: a compiler may construct it in place or move it, and a
  moved-from line must not print. The model has both, with the objects and their destruction explicit.
  The time of day, formatted by \<^verbatim>\<open>strftime\<close>, is an argument.

  The lemmas show that a statement prints its message exactly once, when its level passes the
  threshold, whichever way the line is returned, and not at all in builds without logging.
\<close>

datatype LogLevel = DEBUG | INFO | WARN | ERROR

fun LogLevel_value :: "LogLevel \<Rightarrow> nat" where
  "LogLevel_value DEBUG = 0"
| "LogLevel_value INFO = 1"
| "LogLevel_value WARN = 2"
| "LogLevel_value ERROR = 3"

lemma LogLevel_value_inject: "LogLevel_value a = LogLevel_value b \<longleftrightarrow> a = b"
  by (cases a; cases b) simp_all

instantiation LogLevel :: linorder
begin

definition less_eq_LogLevel :: "LogLevel \<Rightarrow> LogLevel \<Rightarrow> bool" where
  "less_eq_LogLevel a b \<longleftrightarrow> LogLevel_value a \<le> LogLevel_value b"

definition less_LogLevel :: "LogLevel \<Rightarrow> LogLevel \<Rightarrow> bool" where
  "less_LogLevel a b \<longleftrightarrow> LogLevel_value a < LogLevel_value b"

instance
  by standard (auto simp: less_eq_LogLevel_def less_LogLevel_def simp flip: LogLevel_value_inject)

end

fun LevelName :: "LogLevel \<Rightarrow> string" where
  "LevelName DEBUG = ''DEBUG''"
| "LevelName INFO = ''INFO''"
| "LevelName WARN = ''WARN''"
| "LevelName ERROR = ''ERROR''"

text \<open>The one logger and the stream it prints to.\<close>

record Logger =
  level :: LogLevel
  log_cout :: ostream

definition Logger_new :: Logger where
  "Logger_new = \<lparr>level = INFO, log_cout = os_new\<rparr>"

definition Logger_set_level :: "LogLevel \<Rightarrow> Logger \<Rightarrow> Logger" where
  "Logger_set_level l lg = lg\<lparr>level := l\<rparr>"

definition Logger_Write :: "string \<Rightarrow> LogLevel \<Rightarrow> string \<Rightarrow> Logger \<Rightarrow> Logger" where
  "Logger_Write timestamp l message lg =
     (if l < level lg then lg
      else lg\<lparr>log_cout := emit [put_text ''['', put_text timestamp, put_text ''][''  , put_text (LevelName l),
             put_text ''] '', put_text message, put_text [newline]] (log_cout lg)\<rparr>)"

record Line =
  line_level :: LogLevel
  line_stream :: ostream
  line_active :: bool

definition Line_new :: "LogLevel \<Rightarrow> Line" where
  "Line_new l = \<lparr>line_level = l, line_stream = os_new, line_active = True\<rparr>"

text \<open>The methods \<^verbatim>\<open>debug\<close>, \<^verbatim>\<open>info\<close>, \<^verbatim>\<open>warn\<close> and \<^verbatim>\<open>error\<close> return an empty line of their level.\<close>

definition Logger_line :: "LogLevel \<Rightarrow> Logger \<Rightarrow> Line" where
  "Logger_line l lg = Line_new l"

text \<open>The move constructor: the new line and what is left of the other one.\<close>

definition Line_move :: "Line \<Rightarrow> Line \<times> Line" where
  "Line_move other =
     (\<lparr>line_level = line_level other, line_stream = line_stream other, line_active = line_active other\<rparr>,
      other\<lparr>line_stream := os_new, line_active := False\<rparr>)"

definition Line_destroy :: "string \<Rightarrow> Line \<Rightarrow> Logger \<Rightarrow> Logger" where
  "Line_destroy timestamp line lg =
     (if line_active line then Logger_Write timestamp (line_level line) (os_text (line_stream line)) lg else lg)"

definition Line_insert :: "(ostream \<Rightarrow> ostream) \<Rightarrow> Line \<Rightarrow> Line" where
  "Line_insert value line = line\<lparr>line_stream := value (line_stream line)\<rparr>"

text \<open>\<^verbatim>\<open>LogTag::operator<<\<close>: with \<open>elide\<close> the local line is the returned object; otherwise the returned
  object is move-constructed and the local line is destroyed on return.\<close>

definition LogTag_insert ::
  "bool \<Rightarrow> string \<Rightarrow> LogLevel \<Rightarrow> (ostream \<Rightarrow> ostream) \<Rightarrow> Logger \<Rightarrow> Line \<times> Logger" where
  "LogTag_insert elide timestamp l value lg =
     (let line = Line_insert value (Line_new l)
      in if elide then (line, lg)
         else let (result, line) = Line_move line in (result, Line_destroy timestamp line lg))"

text \<open>A statement \<^verbatim>\<open>TAG << v << ...;\<close>: the temporary is destroyed at its end.\<close>

definition log_statement ::
  "bool \<Rightarrow> string \<Rightarrow> LogLevel \<Rightarrow> (ostream \<Rightarrow> ostream) \<Rightarrow> (ostream \<Rightarrow> ostream) list \<Rightarrow> Logger \<Rightarrow> Logger" where
  "log_statement elide timestamp l value values lg =
     (let (line, lg) = LogTag_insert elide timestamp l value lg;
          line = fold Line_insert values line
      in Line_destroy timestamp line lg)"

text \<open>The preprocessor condition that selects \<^verbatim>\<open>LogTag\<close> or \<^verbatim>\<open>NullLogTag\<close>.\<close>

definition TCP_LOGGING_ENABLED :: "string set \<Rightarrow> bool" where
  "TCP_LOGGING_ENABLED defined \<longleftrightarrow> ''TCP_DEBUG_LOGGING'' \<in> defined \<or> ''DEBUG_LOGGING'' \<in> defined
     \<or> (''NDEBUG'' \<notin> defined \<and> ''DISABLE_LOGGING'' \<notin> defined)"

text \<open>The tag of builds without logging takes its arguments and does nothing.\<close>

definition NullLogTag_insert :: "(ostream \<Rightarrow> ostream) \<Rightarrow> Logger \<Rightarrow> Logger" where
  "NullLogTag_insert value lg = lg"

datatype log_action = Set_level LogLevel
  | Log string LogLevel "ostream \<Rightarrow> ostream" "(ostream \<Rightarrow> ostream) list"

fun log_run :: "string set \<Rightarrow> bool \<Rightarrow> log_action list \<Rightarrow> Logger \<Rightarrow> Logger" where
  "log_run defined elide [] lg = lg"
| "log_run defined elide (Set_level l # acts) lg = log_run defined elide acts (Logger_set_level l lg)"
| "log_run defined elide (Log timestamp l value values # acts) lg =
     log_run defined elide acts
       (if TCP_LOGGING_ENABLED defined then log_statement elide timestamp l value values lg
        else fold NullLogTag_insert (value # values) lg)"

subsection \<open>What is printed\<close>

definition log_line :: "string \<Rightarrow> LogLevel \<Rightarrow> string \<Rightarrow> string" where
  "log_line timestamp l message = ''['' @ timestamp @ ''][''  @ LevelName l @ ''] '' @ message @ [newline]"

fun log_text :: "LogLevel \<Rightarrow> log_action list \<Rightarrow> string" where
  "log_text threshold [] = []"
| "log_text threshold (Set_level l # acts) = log_text l acts"
| "log_text threshold (Log timestamp l value values # acts) =
     (if threshold \<le> l then log_line timestamp l (os_text (emit (value # values) os_new)) else [])
     @ log_text threshold acts"

lemma NullLogTag_simp [simp]: "NullLogTag_insert v lg = lg"
  by (simp add: NullLogTag_insert_def)

lemma fold_NullLogTag [simp]: "fold NullLogTag_insert vs lg = lg"
  by (induction vs) (simp_all add: NullLogTag_insert_def)

lemma fold_Line_insert:
  "fold Line_insert vs line = line\<lparr>line_stream := emit vs (line_stream line)\<rparr>"
  by (induction vs arbitrary: line) (simp_all add: Line_insert_def emit_def)

lemma log_statement_eq:
  "log_statement elide timestamp l value values lg =
     Logger_Write timestamp l (os_text (emit (value # values) os_new)) lg"
  by (simp add: log_statement_def LogTag_insert_def Line_move_def Line_destroy_def fold_Line_insert
      Line_insert_def Line_new_def Let_def emit_def)

lemma Logger_Write_eq:
  "plain_format (log_cout lg) \<Longrightarrow> Logger_Write timestamp l message lg =
     lg\<lparr>log_cout := write_text (if level lg \<le> l then log_line timestamp l message else []) (log_cout lg)\<rparr>"
  by (simp add: Logger_Write_def log_line_def not_less)

text \<open>C22. Every log statement prints exactly one line if its level is at least the threshold in force
  and none otherwise, in program order and with the values streamed in order, whether the compiler
  constructs the returned line in place or moves it. In a build without logging nothing is printed.\<close>

theorem log_run_prints:
  assumes "plain_format (log_cout lg)"
  shows "log_cout (log_run defined elide acts lg) =
    write_text (if TCP_LOGGING_ENABLED defined then log_text (level lg) acts else []) (log_cout lg)"
  using assms
proof (induction defined elide acts lg rule: log_run.induct)
  case (3 defined elide timestamp l v vs acts lg)
  then show ?case
    by (cases "TCP_LOGGING_ENABLED defined") (simp_all add: log_statement_eq Logger_Write_eq)
qed (simp_all add: Logger_set_level_def)

theorem log_run_prints_witness:
  "os_text (log_cout (log_run {} False [Log ''12:00'' DEBUG (put_text ''hidden'') [], Set_level WARN,
      Log ''12:01'' WARN (put_text ''seq='') [put_text ''x'']] Logger_new)) = ''[12:01][WARN] seq=x'' @ [newline]"
  using log_run_prints [of Logger_new "{}" False "[Log ''12:00'' DEBUG (put_text ''hidden'') [], Set_level WARN,
      Log ''12:01'' WARN (put_text ''seq='') [put_text ''x'']]"]
  by (simp add: TCP_LOGGING_ENABLED_def Logger_new_def log_line_def less_eq_LogLevel_def)

end
