(* ===== verification/Lock_Order.thy ===== *)
theory Lock_Order
  imports Tcp_Socket Log_Output
begin

text \<open>
  The mutexes of the stack. Every operation of the tables, of the stack and of the sockets is described by the critical
  sections it goes through, as a tree: the lock it takes and the sections inside, as the calls are nested in the code.
  A thread runs any sequence of operations; the scheduler lets one thread at a time take or give up a lock. The
  mutexes are not recursive, so a thread that asks for a lock it holds waits for ever.

  A wait on a condition variable gives up its lock and sleeps. Whether anybody wakes the sleeper is not decided here: a
  sleeping thread goes on only when the schedule says so, and it may sleep for ever. When the waits of the code end is the
  subject of \<open>Buffer_Monitor\<close> and \<open>State_Waits\<close>, and some do not.

  The locale \<open>ranked_calls\<close> asks that inner locks have a higher rank than the locks around them and that no lock is held
  over a sleep; it gives freedom from circular waits for locks. It is interpreted with the locks of the stack.
\<close>

subsection \<open>Critical sections\<close>

text \<open>A critical section with the sections inside it, or a sleep on a condition variable.\<close>

datatype 'l critical = Within 'l "'l critical list" | Sleeps

datatype 'l event = Acquire 'l | Release 'l | Sleep

fun section_events :: "'l critical \<Rightarrow> 'l event list" where
  "section_events (Within l ss) = Acquire l # concat (map section_events ss) @ [Release l]"
| "section_events Sleeps = [Sleep]"

definition sections_events :: "'l critical list \<Rightarrow> 'l event list" where
  "sections_events ss = concat (map section_events ss)"

text \<open>A thread is the locks it holds, the last one first, and what it still has to do.\<close>

type_synonym 'l lock_thread = "'l list \<times> 'l event list"

definition lock_free :: "'l lock_thread list \<Rightarrow> 'l \<Rightarrow> bool" where
  "lock_free ths l \<longleftrightarrow> (\<forall>th \<in> set ths. l \<notin> set (fst th))"

text \<open>The scheduler lets a thread go on, or wakes a sleeping one.\<close>

datatype turn = Runs nat | Wakes nat

fun turn_of :: "turn \<Rightarrow> 'l lock_thread list \<Rightarrow> 'l lock_thread list option" where
  "turn_of (Runs t) ths =
     (if t < length ths
      then case ths ! t of
             (held, Acquire l # es) \<Rightarrow> if lock_free ths l then Some (ths[t := (l # held, es)]) else None
           | (held, Release l # es) \<Rightarrow> Some (ths[t := (remove1 l held, es)])
           | (held, _) \<Rightarrow> None
      else None)"
| "turn_of (Wakes t) ths =
     (if t < length ths
      then case ths ! t of (held, Sleep # es) \<Rightarrow> Some (ths[t := (held, es)]) | _ \<Rightarrow> None
      else None)"

fun schedule :: "turn list \<Rightarrow> 'l lock_thread list \<Rightarrow> 'l lock_thread list option" where
  "schedule [] ths = Some ths"
| "schedule (t # ts) ths = (case turn_of t ths of None \<Rightarrow> None | Some ths \<Rightarrow> schedule ts ths)"

fun at_rest :: "'l lock_thread \<Rightarrow> bool" where
  "at_rest (held, []) = True"
| "at_rest (held, Sleep # es) = True"
| "at_rest (held, _) = False"

text \<open>All threads are done or asleep.\<close>

definition settled :: "'l lock_thread list \<Rightarrow> bool" where
  "settled ths \<longleftrightarrow> (\<forall>th \<in> set ths. at_rest th)"

definition remaining :: "'l lock_thread list \<Rightarrow> nat" where
  "remaining ths = sum_list (map (\<lambda>th. length (snd th)) ths)"

subsection \<open>Ranks\<close>

fun ranked :: "('l \<Rightarrow> nat) \<Rightarrow> nat \<Rightarrow> 'l critical \<Rightarrow> bool" where
  "ranked rank n (Within l ss) \<longleftrightarrow> n \<le> rank l \<and> (\<forall>s \<in> set ss. ranked rank (Suc (rank l)) s)"
| "ranked rank n Sleeps \<longleftrightarrow> n = 0"

text \<open>A thread that takes locks in ascending order, gives up the last one first and sleeps without a lock.\<close>

fun proper :: "('l \<Rightarrow> nat) \<Rightarrow> 'l list \<Rightarrow> 'l event list \<Rightarrow> bool" where
  "proper rank held [] \<longleftrightarrow> held = []"
| "proper rank held (Acquire l # es) \<longleftrightarrow> (\<forall>h \<in> set held. rank h < rank l) \<and> proper rank (l # held) es"
| "proper rank held (Release l # es) \<longleftrightarrow> held \<noteq> [] \<and> hd held = l \<and> proper rank (tl held) es"
| "proper rank held (Sleep # es) \<longleftrightarrow> held = [] \<and> proper rank held es"

lemma proper_section:
  "ranked rank n s \<Longrightarrow> \<forall>h \<in> set held. rank h < n \<Longrightarrow> proper rank held es \<Longrightarrow> proper rank held (section_events s @ es)"
proof (induction s arbitrary: n held es)
  case (Within l ss)
  have inner: "proper rank (l # held) (concat (map section_events ss') @ Release l # es)" if "set ss' \<subseteq> set ss" for ss'
    using that
  proof (induction ss')
    case (Cons s ss')
    have "\<forall>h \<in> set (l # held). rank h < Suc (rank l)" using Within.prems(1,2) by fastforce
    then show ?case using Within.IH [of s "Suc (rank l)"] Within.prems(1) Cons by simp
  qed (use Within.prems(3) in simp)
  have "\<forall>h \<in> set held. rank h < rank l" using Within.prems(1,2) by fastforce
  then show ?case using inner [of ss] by simp
next
  case Sleeps
  then have "held = []" by (cases held) auto
  then show ?case using Sleeps.prems(3) by simp
qed

lemma proper_sections:
  "\<forall>s \<in> set ss. ranked rank 0 s \<Longrightarrow> proper rank [] es \<Longrightarrow> proper rank [] (sections_events ss @ es)"
  by (induction ss) (auto simp: sections_events_def intro: proper_section)

subsection \<open>Freedom from deadlock\<close>

definition exclusive_locks :: "'l lock_thread list \<Rightarrow> bool" where
  "exclusive_locks ths \<longleftrightarrow>
     (\<forall>t < length ths. \<forall>u < length ths. t \<noteq> u \<longrightarrow> set (fst (ths ! t)) \<inter> set (fst (ths ! u)) = {})"

lemma turn_ofE:
  assumes "turn_of t ths = Some ths'"
  obtains (acquires) u held l es where "t = Runs u" "u < length ths" "ths ! u = (held, Acquire l # es)" "lock_free ths l"
      "ths' = ths[u := (l # held, es)]"
    | (releases) u held l es where "t = Runs u" "u < length ths" "ths ! u = (held, Release l # es)"
      "ths' = ths[u := (remove1 l held, es)]"
    | (wakes) u held es where "t = Wakes u" "u < length ths" "ths ! u = (held, Sleep # es)" "ths' = ths[u := (held, es)]"
  using assms by (cases t) (auto split: if_splits prod.splits list.splits event.splits)

lemma exclusive_update:
  assumes ex: "exclusive_locks ths" and new: "\<And>u. u < length ths \<Longrightarrow> u \<noteq> t \<Longrightarrow> set (fst th) \<inter> set (fst (ths ! u)) = {}"
  shows "exclusive_locks (ths[t := th])"
  unfolding exclusive_locks_def
proof (intro allI impI)
  fix u v
  assume uv: "u < length (ths[t := th])" "v < length (ths[t := th])" "u \<noteq> v"
  then have "set (fst (ths ! u)) \<inter> set (fst (ths ! v)) = {}" using ex by (simp add: exclusive_locks_def)
  then show "set (fst (ths[t := th] ! u)) \<inter> set (fst (ths[t := th] ! v)) = {}"
    using uv new [of u] new [of v] by (cases "u = t"; cases "v = t") (simp_all add: Int_commute)
qed

lemma turn_exclusive:
  assumes "turn_of t ths = Some ths'" and "exclusive_locks ths"
  shows "exclusive_locks ths'"
proof -
  have other: "set (fst (ths ! u)) \<inter> set (fst (ths ! v)) = {}" if "u < length ths" "v < length ths" "v \<noteq> u" for u v
    using assms(2) that by (simp add: exclusive_locks_def)
  from assms(1) show ?thesis
  proof (cases rule: turn_ofE)
    case (acquires u held l es)
    have "set (l # held) \<inter> set (fst (ths ! v)) = {}" if "v < length ths" "v \<noteq> u" for v
      using other [OF acquires(2) that] acquires(3,4) that(1) by (simp add: lock_free_def)
    then show ?thesis unfolding acquires(5) by (intro exclusive_update [OF assms(2)]) simp
  next
    case (releases u held l es)
    have "set (remove1 l held) \<inter> set (fst (ths ! v)) = {}" if "v < length ths" "v \<noteq> u" for v
      using other [OF releases(2) that] releases(3) set_remove1_subset [of l held] by auto
    then show ?thesis unfolding releases(4) by (intro exclusive_update [OF assms(2)]) simp
  next
    case (wakes u held es)
    have "set held \<inter> set (fst (ths ! v)) = {}" if "v < length ths" "v \<noteq> u" for v
      using other [OF wakes(2) that] wakes(3) by simp
    then show ?thesis unfolding wakes(4) by (intro exclusive_update [OF assms(2)]) simp
  qed
qed

lemma turn_proper:
  assumes "turn_of t ths = Some ths'" and "\<forall>th \<in> set ths. proper rank (fst th) (snd th)"
  shows "\<forall>th \<in> set ths'. proper rank (fst th) (snd th)"
proof -
  have all: "proper rank (fst (ths ! u)) (snd (ths ! u))" if "u < length ths" for u
    using assms(2) nth_mem [OF that] by blast
  have put: "\<forall>th \<in> set (ths[u := th']). proper rank (fst th) (snd th)" if "proper rank (fst th') (snd th')" for u th'
    using assms(2) that set_update_subset_insert [of ths u th'] by auto
  from assms(1) show ?thesis
  proof (cases rule: turn_ofE)
    case (acquires u held l es)
    then show ?thesis unfolding acquires(5) using all [OF acquires(2)] by (intro put) simp
  next
    case (releases u held l es)
    then have "proper rank (remove1 l held) es" using all [OF releases(2)] by (cases held) auto
    then show ?thesis unfolding releases(4) by (intro put) simp
  next
    case (wakes u held es)
    then have "proper rank held es" using all [OF wakes(2)] by auto
    then show ?thesis unfolding wakes(4) by (intro put) simp
  qed
qed

lemma remaining_update:
  assumes "t < length ths"
  shows "remaining (ths[t := th]) + length (snd (ths ! t)) = remaining ths + length (snd th)"
  using assms by (induction ths arbitrary: t) (auto simp: remaining_def split: nat.splits)

lemma turn_remaining:
  assumes "turn_of t ths = Some ths'"
  shows "remaining ths = Suc (remaining ths')"
  using assms
proof (cases rule: turn_ofE)
  case (acquires u held l es)
  then show ?thesis using remaining_update [of u ths "(l # held, es)"] by simp
next
  case (releases u held l es)
  then show ?thesis using remaining_update [of u ths "(remove1 l held, es)"] by simp
next
  case (wakes u held es)
  then show ?thesis using remaining_update [of u ths "(held, es)"] by simp
qed

text \<open>Among the threads that are neither done nor asleep, one that wants a lock of the highest rank can have it: its holder
  would be asleep with a lock, or want a lock of a higher rank.\<close>

lemma some_thread_runs:
  assumes "\<forall>th \<in> set ths. proper rank (fst th) (snd th)" and "\<not> settled ths"
  shows "\<exists>t. turn_of (Runs t) ths \<noteq> None"
proof (rule ccontr)
  assume stuck: "\<nexists>t. turn_of (Runs t) ths \<noteq> None"
  have wants: "\<exists>l es. snd th = Acquire l # es \<and> \<not> lock_free ths l \<and> (\<forall>h \<in> set (fst th). rank h < rank l)"
    if th: "th \<in> set ths" "\<not> at_rest th" for th
  proof -
    obtain t where t: "t < length ths" "ths ! t = th" using th(1) by (auto simp: in_set_conv_nth)
    then have "turn_of (Runs t) ths = None" "proper rank (fst th) (snd th)" using stuck assms(1) th(1) by blast+
    with t th(2) show ?thesis
      by (cases th) (auto split: list.splits event.splits if_splits)
  qed
  define W where "W = {l. \<exists>th \<in> set ths. \<exists>es. snd th = Acquire l # es}"
  have fin: "finite W"
  proof (rule finite_subset)
    show "W \<subseteq> (\<lambda>th. case snd th of Acquire l # es \<Rightarrow> l | _ \<Rightarrow> undefined) ` set ths" by (force simp: W_def)
  qed simp
  obtain th where "th \<in> set ths" "\<not> at_rest th" using assms(2) by (auto simp: settled_def)
  then have "W \<noteq> {}" using wants [of th] unfolding W_def by blast
  then have "Max (rank ` W) \<in> rank ` W" using fin by (intro Max_in) simp_all
  then obtain l where "l \<in> W" "Max (rank ` W) = rank l" by blast
  then have l: "l \<in> W" "\<forall>l' \<in> W. rank l' \<le> rank l" using fin Max_ge [of "rank ` W"] by force+
  then obtain th es where th: "th \<in> set ths" "snd th = Acquire l # es" by (auto simp: W_def)
  have "\<not> at_rest th" using th(2) by (cases "th" rule: at_rest.cases) auto
  then have "\<not> lock_free ths l" using wants [of th] th by auto
  then obtain ho where ho: "ho \<in> set ths" "l \<in> set (fst ho)" by (auto simp: lock_free_def)
  then have "proper rank (fst ho) (snd ho)" using assms(1) by blast
  then have "\<not> at_rest ho" using ho(2) by (cases ho rule: at_rest.cases) auto
  then obtain l' es' where l': "snd ho = Acquire l' # es'" "\<forall>h \<in> set (fst ho). rank h < rank l'"
    using wants [OF ho(1)] by blast
  then have "l' \<in> W" using ho(1) by (auto simp: W_def)
  then show False using l' ho(2) l(2) by fastforce
qed

subsection \<open>Threads that run calls\<close>

definition caller :: "('c \<Rightarrow> 'l critical list) \<Rightarrow> 'c list \<Rightarrow> 'l lock_thread" where
  "caller sections cs = ([], concat (map (\<lambda>c. sections_events (sections c)) cs))"

lemma exclusive_start: "exclusive_locks (map (caller sections) css)"
  by (simp add: exclusive_locks_def caller_def)

lemma schedule_remaining: "schedule ts ths = Some ths' \<Longrightarrow> remaining ths = length ts + remaining ths'"
  by (induction ts arbitrary: ths) (auto split: option.splits dest: turn_remaining)

lemma schedule_append:
  "schedule (ts @ us) ths = (case schedule ts ths of None \<Rightarrow> None | Some ths \<Rightarrow> schedule us ths)"
  by (induction ts arbitrary: ths) (auto split: option.splits)

locale ranked_calls =
  fixes rank :: "'l \<Rightarrow> nat" and sections :: "'c \<Rightarrow> 'l critical list"
  assumes ranked_sections: "s \<in> set (sections c) \<Longrightarrow> ranked rank 0 s"
begin

lemma caller_proper: "proper rank (fst (caller sections cs)) (snd (caller sections cs))"
proof (induction cs)
  case (Cons c cs)
  then show ?case using ranked_sections proper_sections [of "sections c" rank] by (simp add: caller_def)
qed (simp add: caller_def)

lemma schedule_kept:
  assumes "schedule ts ths = Some ths'" and "exclusive_locks ths" and "\<forall>th \<in> set ths. proper rank (fst th) (snd th)"
  shows "exclusive_locks ths' \<and> (\<forall>th \<in> set ths'. proper rank (fst th) (snd th))"
  using assms
proof (induction ts arbitrary: ths)
  case (Cons t ts)
  then obtain ths1 where t: "turn_of t ths = Some ths1" "schedule ts ths1 = Some ths'" by (auto split: option.splits)
  show ?case
    using Cons.IH [OF t(2) turn_exclusive [OF t(1) Cons.prems(2)] turn_proper [OF t(1) Cons.prems(3)]] .
qed simp

lemma proper_settles:
  assumes "\<forall>th \<in> set ths. proper rank (fst th) (snd th)"
  shows "\<exists>us ths'. schedule (map Runs us) ths = Some ths' \<and> settled ths'"
  using assms
proof (induction "remaining ths" arbitrary: ths rule: less_induct)
  case less
  show ?case
  proof (cases "settled ths")
    case True
    then have "schedule (map Runs []) ths = Some ths \<and> settled ths" by simp
    then show ?thesis by blast
  next
    case False
    then obtain t ths1 where t: "turn_of (Runs t) ths = Some ths1" using some_thread_runs [OF less.prems] by blast
    then obtain us ths' where "schedule (map Runs us) ths1 = Some ths'" "settled ths'"
      using less.hyps [of ths1] turn_remaining [OF t] turn_proper [OF t less.prems] by auto
    then show ?thesis using t by (intro exI [of _ "t # us"]) simp
  qed
qed

lemma at_rest_free:
  assumes "proper rank (fst th) (snd th)" and "at_rest th"
  shows "fst th = []"
  using assms by (cases th rule: at_rest.cases) auto

lemma calls_settle:
  assumes "schedule ts (map (caller sections) css) = Some ths"
  shows "exclusive_locks ths" and "\<forall>th \<in> set ths. at_rest th \<longrightarrow> fst th = []"
    and "settled ths \<or> (\<exists>t. turn_of (Runs t) ths \<noteq> None)"
    and "\<exists>us ths'. schedule (map Runs us) ths = Some ths' \<and> settled ths' \<and> (\<forall>l. lock_free ths' l)"
proof -
  have start: "\<forall>th \<in> set (map (caller sections) css). proper rank (fst th) (snd th)" using caller_proper by auto
  then have kept: "exclusive_locks ths" "\<forall>th \<in> set ths. proper rank (fst th) (snd th)"
    using schedule_kept [OF assms exclusive_start] by blast+
  show "exclusive_locks ths" "settled ths \<or> (\<exists>t. turn_of (Runs t) ths \<noteq> None)"
    using kept some_thread_runs by blast+
  show "\<forall>th \<in> set ths. at_rest th \<longrightarrow> fst th = []" using kept(2) at_rest_free by blast
  obtain us ths' where us: "schedule (map Runs us) ths = Some ths'" "settled ths'" using proper_settles [OF kept(2)] by blast
  have "\<forall>th \<in> set ths'. proper rank (fst th) (snd th)" using schedule_kept [OF us(1) kept] by blast
  then have "\<forall>th \<in> set ths'. fst th = []" using us(2) at_rest_free by (auto simp: settled_def)
  then show "\<exists>us ths'. schedule (map Runs us) ths = Some ths' \<and> settled ths' \<and> (\<forall>l. lock_free ths' l)"
    using us unfolding lock_free_def by (metis empty_iff list.set(1))
qed

end

subsection \<open>The locks of the stack\<close>

text \<open>
  \<^verbatim>\<open>Listeners\<close>, \<^verbatim>\<open>Connections\<close> and \<^verbatim>\<open>Sockets\<close> are the mutexes of the three tables, \<^verbatim>\<open>State i\<close>, \<^verbatim>\<open>Send_buffer i\<close> and
  \<^verbatim>\<open>Recv_buffer i\<close> those of the control block with id \<open>i\<close>, \<^verbatim>\<open>Dirty\<close> and \<^verbatim>\<open>Loopback\<close> those of the two queues of the stack,
  \<^verbatim>\<open>Log\<close> that of the logger.
\<close>

datatype stack_lock =
    Listeners | Connections | Sockets | State socket_id | Send_buffer socket_id | Recv_buffer socket_id
  | Dirty | Loopback | Log

type_synonym locks = "stack_lock critical list"

text \<open>The socket table and the logger.\<close>

definition create_socket_locks :: locks where
  "create_socket_locks = [Within Sockets []]"

definition destroy_socket_locks :: "socket_id \<Rightarrow> locks" where
  "destroy_socket_locks i = (if i = 0 then [] else [Within Sockets []])"

definition find_socket_locks :: "socket_id \<Rightarrow> locks" where
  "find_socket_locks i = (if i = 0 then [] else [Within Sockets []])"

definition contains_locks :: "socket_id \<Rightarrow> locks" where
  "contains_locks i = (if i = 0 then [] else [Within Sockets []])"

definition size_locks :: locks where
  "size_locks = [Within Sockets []]"

definition for_each_socket_locks :: "(socket_id \<Rightarrow> tcb \<Rightarrow> locks) \<Rightarrow> SocketTable \<Rightarrow> locks" where
  "for_each_socket_locks f st = [Within Sockets (concat (map (\<lambda>(i, b). f i b) (sockets st)))]"

definition Write_locks :: "LogLevel \<Rightarrow> Logger \<Rightarrow> locks" where
  "Write_locks l lg = (if l < level lg then [] else [Within Log []])"

text \<open>The listener table.\<close>

definition listener_bind_locks :: locks where
  "listener_bind_locks = [Within Listeners []]"

definition listener_bind_new_locks :: locks where
  "listener_bind_new_locks = [Within Listeners create_socket_locks]"

definition listener_find_locks :: "ListenerTable \<Rightarrow> u16 \<Rightarrow> locks" where
  "listener_find_locks l p = [Within Listeners (case map_of l p of Some i \<Rightarrow> contains_locks i | None \<Rightarrow> [])]"

definition listener_unbind_locks :: "ListenerTable \<Rightarrow> u16 \<Rightarrow> locks" where
  "listener_unbind_locks l p =
     Within Listeners [] # (case map_of l p of Some i \<Rightarrow> destroy_socket_locks i | None \<Rightarrow> [])"

definition listener_contains_locks :: "ListenerTable \<Rightarrow> u16 \<Rightarrow> locks" where
  "listener_contains_locks l p = [Within Listeners (case map_of l p of Some i \<Rightarrow> contains_locks i | None \<Rightarrow> [])]"

text \<open>The connection table.\<close>

definition connection_insert_locks :: locks where
  "connection_insert_locks = [Within Connections []]"

definition connection_register_locks :: "SocketTable \<Rightarrow> socket_id \<Rightarrow> locks" where
  "connection_register_locks st i =
     [Within Connections
        (if i = 0 then create_socket_locks
         else contains_locks i @
              (if \<not> SocketTable_contains st i then create_socket_locks else find_socket_locks i))]"

definition connection_find_locks :: "ConnectionTable \<Rightarrow> ConnectionKey \<Rightarrow> locks" where
  "connection_find_locks c k = [Within Connections (case map_of c k of Some i \<Rightarrow> contains_locks i | None \<Rightarrow> [])]"

definition connection_erase_locks :: locks where
  "connection_erase_locks = [Within Connections []]"

definition connection_destroy_locks :: "ConnectionTable \<Rightarrow> ConnectionKey \<Rightarrow> locks" where
  "connection_destroy_locks c k =
     Within Connections [] # (case map_of c k of Some i \<Rightarrow> destroy_socket_locks i | None \<Rightarrow> [])"

text \<open>The control block. A wait on a condition variable evaluates its predicate with the mutex held, and gives the mutex up and
  sleeps when it is false. In a wait that has found its predicate false \<open>n\<close> times it is true afterwards; a thread may stay in any of the
  sleeps for ever, so that a wait that never ends is one that is not woken any more.\<close>

definition set_state_locks :: "socket_id \<Rightarrow> locks" where
  "set_state_locks i = [Within (State i) []]"

definition buffer_wait_locks :: "stack_lock \<Rightarrow> nat \<Rightarrow> locks" where
  "buffer_wait_locks l n = concat (replicate n [Within l [], Sleeps]) @ [Within l []]"

definition state_wait_locks :: "socket_id \<Rightarrow> nat \<Rightarrow> locks \<Rightarrow> locks \<Rightarrow> locks" where
  "state_wait_locks i n predicate rest =
     concat (replicate n [Within (State i) predicate, Sleeps]) @ [Within (State i) (predicate @ rest)]"

text \<open>\<^verbatim>\<open>connect\<close> and \<^verbatim>\<open>accept\<close> keep the mutex from the wait to their return.\<close>

definition connect_wait_locks :: "socket_id \<Rightarrow> nat \<Rightarrow> tcb option \<Rightarrow> Logger \<Rightarrow> locks" where
  "connect_wait_locks i n found lg =
     state_wait_locks i n (find_socket_locks i)
       (find_socket_locks i @
        (case found of
           Some t \<Rightarrow> if current_state t = ESTABLISHED then Write_locks INFO lg else []
         | None \<Rightarrow> []))"

definition accept_wait_locks :: "socket_id \<Rightarrow> nat \<Rightarrow> tcb option \<Rightarrow> SocketTable \<Rightarrow> Logger \<Rightarrow> locks" where
  "accept_wait_locks i n found st lg =
     state_wait_locks i n (find_socket_locks i)
       (find_socket_locks i @
        (case found of
           None \<Rightarrow> Write_locks ERROR lg
         | Some t \<Rightarrow>
             (case accept_queue t of
                [] \<Rightarrow> Write_locks ERROR lg
              | child_id # rest \<Rightarrow>
                  find_socket_locks child_id @
                  (if SocketTable_find_socket st child_id \<noteq> None then Write_locks INFO lg else []))))"

text \<open>The stack.\<close>

definition add_dirty_tcb_locks :: "SocketTable \<Rightarrow> socket_id \<Rightarrow> locks" where
  "add_dirty_tcb_locks st i =
     (if i = 0 then []
      else contains_locks i @ (if \<not> SocketTable_contains st i then [] else [Within Dirty []]))"

definition write_packet_locks :: "stack_env \<Rightarrow> IPv4Address \<Rightarrow> IPv4Address \<Rightarrow> locks" where
  "write_packet_locks e src dst = (if is_local e src dst then [Within Loopback []] else [])"

definition create_writer_tcp_packet_locks :: "socket_id \<Rightarrow> locks" where
  "create_writer_tcp_packet_locks i = [Within (Recv_buffer i) []]"

definition send_control_packet_locks :: "stack_env \<Rightarrow> socket_id \<Rightarrow> tcb \<Rightarrow> locks" where
  "send_control_packet_locks e i t = Within (Recv_buffer i) [] # write_packet_locks e (src_address t) (dst_address t)"

definition process_block_locks :: "stack_env \<Rightarrow> socket_id \<Rightarrow> TcpStack \<Rightarrow> locks" where
  "process_block_locks e i s =
     find_socket_locks i @
     (case get_tcb s i of
        None \<Rightarrow> []
      | Some t \<Rightarrow>
          if current_state t = SYN_SENT then send_control_packet_locks e i t
          else if \<not> sendable t \<or> usable_window t = 0 then []
          else Within (Send_buffer i) [] #
            (if next_chunk t = [] then []
             else create_writer_tcp_packet_locks i @ write_packet_locks e (src_address t) (dst_address t) @
                  Within (Send_buffer i) [] #
                  (if more_to_send (after_send t) then add_dirty_tcb_locks (socket_table s) i else [])))"

definition retransmit_locks :: "stack_env \<Rightarrow> int \<Rightarrow> socket_id \<Rightarrow> tcb \<Rightarrow> locks" where
  "retransmit_locks e now i t =
     (if retransmit_due now t
      then Within (Send_buffer i) [] #
           (if retransmit_chunk t = [] then []
            else create_writer_tcp_packet_locks i @ write_packet_locks e (src_address t) (dst_address t))
      else [])"

definition check_retransmissions_locks :: "stack_env \<Rightarrow> int \<Rightarrow> SocketTable \<Rightarrow> locks" where
  "check_retransmissions_locks e now st = for_each_socket_locks (retransmit_locks e now) st"

text \<open>
  The calls that take locks. What a call reads of the tables, the blocks and the logger while it runs is an argument of
  the call, so that every outcome of these reads is covered. All other operations of the stack and of the sockets hold no lock
  across two of these calls: they are sequences of them.
\<close>

datatype stack_call =
    Create_socket | Destroy_socket socket_id | Find_socket socket_id | Contains_socket socket_id | Table_size
  | Listener_bind | Listener_bind_new | Listener_find ListenerTable u16 | Listener_unbind ListenerTable u16
  | Listener_contains ListenerTable u16
  | Connection_insert | Connection_register SocketTable socket_id | Connection_find ConnectionTable ConnectionKey
  | Connection_erase | Connection_destroy ConnectionTable ConnectionKey
  | Log_write LogLevel Logger
  | Send_buffer_call socket_id nat | Recv_buffer_call socket_id nat
  | Set_state socket_id | Push_accept_queue socket_id | Note_ack socket_id
  | Connect_wait socket_id nat "tcb option" Logger
  | Accept_wait socket_id nat "tcb option" SocketTable Logger
  | Add_dirty SocketTable socket_id | Look_dirty | Take_dirty | Take_loopback
  | Write_packet stack_env IPv4Address IPv4Address | Send_control_packet stack_env socket_id tcb
  | Process_block stack_env socket_id TcpStack | Check_retransmissions stack_env int SocketTable

fun call_locks :: "stack_call \<Rightarrow> locks" where
  "call_locks Create_socket = create_socket_locks"
| "call_locks (Destroy_socket i) = destroy_socket_locks i"
| "call_locks (Find_socket i) = find_socket_locks i"
| "call_locks (Contains_socket i) = contains_locks i"
| "call_locks Table_size = size_locks"
| "call_locks Listener_bind = listener_bind_locks"
| "call_locks Listener_bind_new = listener_bind_new_locks"
| "call_locks (Listener_find l p) = listener_find_locks l p"
| "call_locks (Listener_unbind l p) = listener_unbind_locks l p"
| "call_locks (Listener_contains l p) = listener_contains_locks l p"
| "call_locks Connection_insert = connection_insert_locks"
| "call_locks (Connection_register st i) = connection_register_locks st i"
| "call_locks (Connection_find c k) = connection_find_locks c k"
| "call_locks Connection_erase = connection_erase_locks"
| "call_locks (Connection_destroy c k) = connection_destroy_locks c k"
| "call_locks (Log_write l lg) = Write_locks l lg"
| "call_locks (Send_buffer_call i n) = buffer_wait_locks (Send_buffer i) n"
| "call_locks (Recv_buffer_call i n) = buffer_wait_locks (Recv_buffer i) n"
| "call_locks (Set_state i) = set_state_locks i"
| "call_locks (Push_accept_queue i) = [Within (State i) []]"
| "call_locks (Note_ack i) = [Within (State i) []]"
| "call_locks (Connect_wait i n found lg) = connect_wait_locks i n found lg"
| "call_locks (Accept_wait i n found st lg) = accept_wait_locks i n found st lg"
| "call_locks (Add_dirty st i) = add_dirty_tcb_locks st i"
| "call_locks Look_dirty = [Within Dirty []]"
| "call_locks Take_dirty = [Within Dirty []]"
| "call_locks Take_loopback = [Within Loopback []]"
| "call_locks (Write_packet e src dst) = write_packet_locks e src dst"
| "call_locks (Send_control_packet e i t) = send_control_packet_locks e i t"
| "call_locks (Process_block e i s) = process_block_locks e i s"
| "call_locks (Check_retransmissions e now st) = check_retransmissions_locks e now st"

text \<open>The tables and the state mutexes are taken before the socket table, and everything else inside.\<close>

fun lock_rank :: "stack_lock \<Rightarrow> nat" where
  "lock_rank Listeners = 0"
| "lock_rank Connections = 0"
| "lock_rank (State i) = 0"
| "lock_rank Sockets = 1"
| "lock_rank _ = 2"

named_theorems lock_defs

lemmas table_lock_defs [lock_defs] =
  create_socket_locks_def destroy_socket_locks_def find_socket_locks_def contains_locks_def size_locks_def Write_locks_def
  listener_bind_locks_def listener_bind_new_locks_def listener_find_locks_def listener_unbind_locks_def
  listener_contains_locks_def connection_insert_locks_def connection_register_locks_def connection_find_locks_def
  connection_erase_locks_def connection_destroy_locks_def

lemmas stack_lock_defs [lock_defs] =
  set_state_locks_def buffer_wait_locks_def add_dirty_tcb_locks_def write_packet_locks_def create_writer_tcp_packet_locks_def
  send_control_packet_locks_def retransmit_locks_def

lemma connect_wait_ranked: "s \<in> set (connect_wait_locks i n found lg) \<Longrightarrow> ranked lock_rank 0 s"
  by (auto simp: connect_wait_locks_def state_wait_locks_def lock_defs split: option.splits if_splits)

lemma accept_wait_ranked: "s \<in> set (accept_wait_locks i n found st lg) \<Longrightarrow> ranked lock_rank 0 s"
  by (auto simp: accept_wait_locks_def state_wait_locks_def lock_defs split: option.splits if_splits list.splits)

lemma process_block_ranked: "s \<in> set (process_block_locks e i x) \<Longrightarrow> ranked lock_rank 0 s"
  by (auto simp: process_block_locks_def lock_defs split: option.splits if_splits)

lemma retransmit_ranked: "s \<in> set (retransmit_locks e now i t) \<Longrightarrow> ranked lock_rank 2 s"
  by (auto simp: lock_defs split: if_splits)

lemma check_retransmissions_ranked: "s \<in> set (check_retransmissions_locks e now st) \<Longrightarrow> ranked lock_rank 0 s"
  using retransmit_ranked
  by (fastforce simp: check_retransmissions_locks_def for_each_socket_locks_def numeral_2_eq_2)

lemma call_ranked:
  assumes "s \<in> set (call_locks c)"
  shows "ranked lock_rank 0 s"
proof (cases c)
qed (use assms connect_wait_ranked accept_wait_ranked process_block_ranked check_retransmissions_ranked in
      \<open>auto simp: lock_defs split: if_splits option.splits\<close>)

interpretation ll: ranked_calls lock_rank call_locks
  by unfold_locales (rule call_ranked)

text \<open>C29. No thread ever waits for a mutex in vain. However many threads make calls on the stack, and however the scheduler
  lets them take turns, sleepers waking up or sleeping for ever: a mutex is held by one thread at most; a thread that is done
  or asleep holds none; as long as some thread is neither done nor asleep, one of those can go on, so that the threads never wait for
  each other's mutexes in a circle nor for one of their own; and from every moment on, without waking anybody, all threads can be run until each
  is done or asleep and all mutexes are free. Every turn brings the threads one event closer to their ends. Whether a sleeper
  is woken is not claimed.\<close>

theorem no_circular_wait:
  assumes "schedule ts (map (caller call_locks) css) = Some ths"
  shows "exclusive_locks ths \<and> (\<forall>th \<in> set ths. at_rest th \<longrightarrow> fst th = [])
    \<and> (settled ths \<or> (\<exists>t. turn_of (Runs t) ths \<noteq> None))
    \<and> (\<exists>us ths'. schedule (map Runs us) ths = Some ths' \<and> settled ths' \<and> (\<forall>l. lock_free ths' l))
    \<and> remaining (map (caller call_locks) css) = length ts + remaining ths"
  using ll.calls_settle [OF assms] schedule_remaining [OF assms] by blast

text \<open>A thread sleeps in \<^verbatim>\<open>recv\<close>; a listener is bound while a connection is registered, which waits for the socket table.\<close>

theorem no_circular_wait_witness:
  "let start = map (caller call_locks)
         [[Recv_buffer_call 3 1], [Listener_bind_new], [Connection_register SocketTable_new 0, Set_state 1]];
       ths = [([], [Sleep, Acquire (Recv_buffer 3), Release (Recv_buffer 3)]),
              ([Sockets, Listeners], [Release Sockets, Release Listeners]),
              ([Connections], [Acquire Sockets, Release Sockets, Release Connections, Acquire (State 1), Release (State 1)])]
   in schedule (map Runs [0, 0, 1, 2, 1]) start = Some ths \<and> turn_of (Runs 0) ths = None \<and> turn_of (Runs 2) ths = None
      \<and> exclusive_locks ths
      \<and> (\<exists>us ths'. schedule (map Runs us) ths = Some ths' \<and> settled ths' \<and> (\<forall>l. lock_free ths' l))"
proof -
  let ?start = "map (caller call_locks)
    [[Recv_buffer_call 3 1], [Listener_bind_new], [Connection_register SocketTable_new 0, Set_state 1]]"
  let ?ths = "[([], [Sleep, Acquire (Recv_buffer 3), Release (Recv_buffer 3)]),
    ([Sockets, Listeners], [Release Sockets, Release Listeners]),
    ([Connections], [Acquire Sockets, Release Sockets, Release Connections, Acquire (State 1), Release (State 1)])]"
  have run: "schedule (map Runs [0, 0, 1, 2, 1]) ?start = Some ?ths"
    by (simp add: caller_def sections_events_def lock_free_def lock_defs numeral_2_eq_2)
  have waits: "turn_of (Runs 0) ?ths = None" "turn_of (Runs 2) ?ths = None"
    by (simp_all add: lock_free_def numeral_2_eq_2)
  show ?thesis unfolding Let_def using run waits no_circular_wait [OF run] by blast
qed

end
