(* ===== verification/State_Waits.thy ===== *)
theory State_Waits
  imports Tcp_Transitions
begin

text \<open>
  The waits on \<^verbatim>\<open>state_cv\<close>. A control block has the mutex \<^verbatim>\<open>state_mutex\<close> and the condition variable \<^verbatim>\<open>state_cv\<close>
  (\<^verbatim>\<open>TransmissionControlBlock.h\<close>); \<^verbatim>\<open>connect\<close> waits on it for the end of the handshake, \<^verbatim>\<open>accept\<close> for a connection in the queue
  (\<^verbatim>\<open>TcpSocket.cpp\<close>), and the daemon changes the state, pushes connections and notes acknowledgements under the mutex
  (\<^verbatim>\<open>TcpStack.cpp\<close>). \<^verbatim>\<open>set_state\<close> notifies after it has given up the mutex, the other two before.

  The model is one block that stays in the socket table and the threads that work on it, one action at a time. The lemmas
  show that no notification is lost, that \<^verbatim>\<open>accept\<close> hands out every connection once and in order, and that \<^verbatim>\<open>connect\<close> misses
  a connection that is established and closed by the peer before the waiting thread has the mutex again.
\<close>

subsection \<open>Threads\<close>

datatype waiter = Connector | Acceptor

datatype block_update = Set_to TcpState | Push_accepted socket_id | Ack_noted

text \<open>Where a thread is: outside; before the mutex; evaluating the predicate; going to sleep; asleep; woken but without the
  mutex; before, in and after an update, up to the notification.\<close>

datatype spot =
    Idle | Wants waiter | Evaluates waiter | Parks waiter | Asleep waiter | Woken waiter
  | Wants_update block_update | Updates block_update | Notifies block_update

record state_monitor =
  block :: tcb
  state_owner :: "nat option"
  spots :: "spot list"
  pushed :: "socket_id list"
  taken :: "socket_id list"

definition state_monitor_new :: "nat \<Rightarrow> tcb \<Rightarrow> state_monitor" where
  "state_monitor_new n b = \<lparr>block = b, state_owner = None, spots = replicate n Idle, pushed = [], taken = []\<rparr>"

text \<open>The predicates of the two waits, for a block that is in the table.\<close>

fun wait_over :: "waiter \<Rightarrow> tcb \<Rightarrow> bool" where
  "wait_over Connector t \<longleftrightarrow> current_state t = ESTABLISHED \<or> current_state t = CLOSED"
| "wait_over Acceptor t \<longleftrightarrow> accept_queue t \<noteq> []"

fun apply_update :: "block_update \<Rightarrow> tcb \<Rightarrow> tcb" where
  "apply_update (Set_to st) t = TCB_set_state st t"
| "apply_update (Push_accepted i) t = t\<lparr>accept_queue := accept_queue t @ [i]\<rparr>"
| "apply_update Ack_noted t = t\<lparr>has_recived_ack := True\<rparr>"

fun notifies_unlocked :: "block_update \<Rightarrow> bool" where
  "notifies_unlocked (Set_to st) = True"
| "notifies_unlocked u = False"

fun wake_spot :: "spot \<Rightarrow> spot" where
  "wake_spot (Asleep w) = Woken w"
| "wake_spot p = p"

subsection \<open>Actions\<close>

datatype state_action =
    Begin_wait nat waiter
  | Begin_update nat block_update
  | Take nat
  | Go nat
  | Wake_up nat
  | Listen_store

text \<open>What a thread does once it is on its way. \<^verbatim>\<open>accept\<close> takes the first connection with the mutex held.\<close>

fun go :: "nat \<Rightarrow> spot \<Rightarrow> state_monitor \<Rightarrow> state_monitor option" where
  "go t (Evaluates w) m =
     (if wait_over w (block m)
      then let m = m\<lparr>state_owner := None, spots := (spots m)[t := Idle]\<rparr>
           in Some (case w of
                      Connector \<Rightarrow> m
                    | Acceptor \<Rightarrow> m\<lparr>taken := taken m @ [hd (accept_queue (block m))],
                                    block := (block m)\<lparr>accept_queue := tl (accept_queue (block m))\<rparr>\<rparr>)
      else Some (m\<lparr>spots := (spots m)[t := Parks w]\<rparr>))"
| "go t (Parks w) m = Some (m\<lparr>state_owner := None, spots := (spots m)[t := Asleep w]\<rparr>)"
| "go t (Updates u) m =
     Some (m\<lparr>block := apply_update u (block m), spots := (spots m)[t := Notifies u],
             state_owner := if notifies_unlocked u then None else state_owner m,
             pushed := pushed m @ (case u of Push_accepted i \<Rightarrow> [i] | _ \<Rightarrow> [])\<rparr>)"
| "go t (Notifies u) m =
     Some (m\<lparr>spots := map wake_spot ((spots m)[t := Idle]),
             state_owner := if notifies_unlocked u then state_owner m else None\<rparr>)"
| "go t p m = None"

text \<open>A thread that gets the mutex.\<close>

fun with_mutex :: "spot \<Rightarrow> spot option" where
  "with_mutex (Wants w) = Some (Evaluates w)"
| "with_mutex (Woken w) = Some (Evaluates w)"
| "with_mutex (Wants_update u) = Some (Updates u)"
| "with_mutex p = None"

text \<open>\<^verbatim>\<open>accept\<close> begins to wait in \<^verbatim>\<open>LISTEN\<close> only; \<^verbatim>\<open>listen\<close> assigns the state without the mutex.\<close>

fun state_act :: "state_action \<Rightarrow> state_monitor \<Rightarrow> state_monitor option" where
  "state_act (Begin_wait t w) m =
     (if t < length (spots m) \<and> spots m ! t = Idle \<and> (w = Acceptor \<longrightarrow> current_state (block m) = LISTEN)
      then Some (m\<lparr>spots := (spots m)[t := Wants w]\<rparr>) else None)"
| "state_act (Begin_update t u) m =
     (if t < length (spots m) \<and> spots m ! t = Idle then Some (m\<lparr>spots := (spots m)[t := Wants_update u]\<rparr>) else None)"
| "state_act (Take t) m =
     (if t < length (spots m) \<and> state_owner m = None
      then map_option (\<lambda>p. m\<lparr>state_owner := Some t, spots := (spots m)[t := p]\<rparr>) (with_mutex (spots m ! t)) else None)"
| "state_act (Go t) m = (if t < length (spots m) then go t (spots m ! t) m else None)"
| "state_act (Wake_up t) m =
     (if t < length (spots m) then Some (m\<lparr>spots := (spots m)[t := wake_spot (spots m ! t)]\<rparr>) else None)"
| "state_act Listen_store m = Some (m\<lparr>block := (block m)\<lparr>current_state := LISTEN\<rparr>\<rparr>)"

fun state_acts :: "state_action list \<Rightarrow> state_monitor \<Rightarrow> state_monitor option" where
  "state_acts [] m = Some m"
| "state_acts (a # as) m = (case state_act a m of None \<Rightarrow> None | Some m \<Rightarrow> state_acts as m)"

subsection \<open>No notification is lost\<close>

fun holds_mutex :: "spot \<Rightarrow> bool" where
  "holds_mutex (Evaluates w) = True"
| "holds_mutex (Parks w) = True"
| "holds_mutex (Updates u) = True"
| "holds_mutex (Notifies u) = (\<not> notifies_unlocked u)"
| "holds_mutex p = False"

fun notifies :: "spot \<Rightarrow> bool" where
  "notifies (Notifies u) = True"
| "notifies p = False"

definition one_owner :: "state_monitor \<Rightarrow> bool" where
  "one_owner m \<longleftrightarrow> (\<forall>t < length (spots m). holds_mutex (spots m ! t) \<longrightarrow> state_owner m = Some t)"

definition all_heard :: "state_monitor \<Rightarrow> bool" where
  "all_heard m \<longleftrightarrow>
     (\<forall>t < length (spots m). \<forall>w. wait_over w (block m) \<longrightarrow>
        spots m ! t \<noteq> Parks w \<and> (spots m ! t = Asleep w \<longrightarrow> list_ex notifies (spots m)))"

text \<open>The connections that \<^verbatim>\<open>accept\<close> has taken, and those still in the queue, are those that were there and were pushed.\<close>

definition queue_kept :: "tcb \<Rightarrow> state_monitor \<Rightarrow> bool" where
  "queue_kept b m \<longleftrightarrow> accept_queue b @ pushed m = taken m @ accept_queue (block m)"

lemma wake_spot_simps [simp]:
  "holds_mutex (wake_spot p) = holds_mutex p" "notifies (wake_spot p) = notifies p" "wake_spot p \<noteq> Asleep w"
  "wake_spot p = Parks w \<longleftrightarrow> p = Parks w"
  by (cases p; simp)+

lemma with_mutexE:
  assumes "with_mutex p = Some q"
  obtains (waits) w where "p = Wants w \<or> p = Woken w" "q = Evaluates w" | (updates) u where "p = Wants_update u" "q = Updates u"
  using assms by (cases p) auto

lemma goE:
  assumes "go t p m = Some m'"
  obtains (returns) w where "p = Evaluates w" "wait_over w (block m)" "spots m' = (spots m)[t := Idle]" "state_owner m' = None"
      "pushed m' = pushed m" "w = Connector \<and> taken m' = taken m \<and> block m' = block m
       \<or> w = Acceptor \<and> taken m' = taken m @ [hd (accept_queue (block m))]
         \<and> block m' = (block m)\<lparr>accept_queue := tl (accept_queue (block m))\<rparr>"
    | (fails) w where "p = Evaluates w" "\<not> wait_over w (block m)" "m' = m\<lparr>spots := (spots m)[t := Parks w]\<rparr>"
    | (sleeps) w where "p = Parks w" "m' = m\<lparr>state_owner := None, spots := (spots m)[t := Asleep w]\<rparr>"
    | (updates) u where "p = Updates u" "block m' = apply_update u (block m)" "spots m' = (spots m)[t := Notifies u]"
      "state_owner m' = (if notifies_unlocked u then None else state_owner m)" "taken m' = taken m"
      "pushed m' = pushed m @ (case u of Push_accepted i \<Rightarrow> [i] | _ \<Rightarrow> [])"
    | (notifies) u where "p = Notifies u"
      "m' = m\<lparr>spots := map wake_spot ((spots m)[t := Idle]),
              state_owner := if notifies_unlocked u then state_owner m else None\<rparr>"
proof (cases p)
  case (Evaluates w)
  then show ?thesis
    using assms returns [of w] fails [of w] by (cases "wait_over w (block m)"; cases w) (auto simp: Let_def)
qed (use assms sleeps updates notifies in auto)

lemma state_act_length: "state_act a m = Some m' \<Longrightarrow> length (spots m') = length (spots m)"
proof (cases a)
  case (Go t)
  assume "state_act a m = Some m'"
  then have "go t (spots m ! t) m = Some m'" using Go by (simp split: if_splits)
  then show ?thesis by (cases rule: goE) auto
qed (auto split: if_splits)

lemma one_owner_change:
  assumes "one_owner m" and "length (spots m') = length (spots m)"
    and "\<And>u. u < length (spots m) \<Longrightarrow> u \<noteq> t \<Longrightarrow> holds_mutex (spots m' ! u) = holds_mutex (spots m ! u)"
    and "t < length (spots m) \<Longrightarrow> holds_mutex (spots m' ! t) \<Longrightarrow> state_owner m' = Some t"
    and "state_owner m' = state_owner m \<or> state_owner m = Some t \<or> state_owner m = None"
  shows "one_owner m'"
  unfolding one_owner_def
proof (intro allI impI)
  fix u
  assume u: "u < length (spots m')" "holds_mutex (spots m' ! u)"
  show "state_owner m' = Some u"
  proof (cases "u = t")
    case False
    then have "state_owner m = Some u" using assms(1-3) u by (simp add: one_owner_def)
    then show ?thesis using assms(5) False by auto
  qed (use assms(2,4) u in auto)
qed

lemma one_owner_go:
  assumes "go t (spots m ! t) m = Some m'" and "t < length (spots m)" and "one_owner m"
  shows "one_owner m'"
  using assms(1)
proof (cases rule: goE)
  case (returns w)
  then have "state_owner m = Some t" using assms(2,3) by (auto simp: one_owner_def)
  then show ?thesis using returns assms(2) by (intro one_owner_change [OF assms(3), where t = t]) auto
next
  case (fails w)
  then have "state_owner m = Some t" using assms(2,3) by (auto simp: one_owner_def)
  then show ?thesis using fails assms(2) by (intro one_owner_change [OF assms(3), where t = t]) auto
next
  case (sleeps w)
  then have "state_owner m = Some t" using assms(2,3) by (auto simp: one_owner_def)
  then show ?thesis using sleeps assms(2) by (intro one_owner_change [OF assms(3), where t = t]) auto
next
  case (updates u)
  then have "state_owner m = Some t" using assms(2,3) by (auto simp: one_owner_def)
  then show ?thesis using updates assms(2) by (intro one_owner_change [OF assms(3), where t = t]) auto
next
  case (notifies u)
  then have "\<not> notifies_unlocked u \<Longrightarrow> state_owner m = Some t" using assms(2,3) by (auto simp: one_owner_def)
  then show ?thesis using notifies assms(2) by (intro one_owner_change [OF assms(3), where t = t]) auto
qed

lemma one_owner_act:
  assumes "state_act a m = Some m'" and "one_owner m"
  shows "one_owner m'"
proof (cases a)
  case (Take t)
  then obtain p where p: "with_mutex (spots m ! t) = Some p" "state_owner m = None" "t < length (spots m)"
    "m' = m\<lparr>state_owner := Some t, spots := (spots m)[t := p]\<rparr>" using assms(1) by (auto split: if_splits)
  then show ?thesis by (intro one_owner_change [OF assms(2), where t = t]) auto
next
  case (Go t)
  then show ?thesis using assms one_owner_go by (auto split: if_splits)
next
  case (Begin_wait t w)
  then show ?thesis using assms(1) by (intro one_owner_change [OF assms(2), where t = t]) (auto split: if_splits)
next
  case (Begin_update t u)
  then show ?thesis using assms(1) by (intro one_owner_change [OF assms(2), where t = t]) (auto split: if_splits)
next
  case (Wake_up t)
  then show ?thesis
    using assms by (intro one_owner_change [OF assms(2), where t = t]) (auto simp: one_owner_def split: if_splits)
next
  case Listen_store
  then show ?thesis using assms by (auto simp: one_owner_def)
qed

text \<open>Only an update can end a wait.\<close>

lemma wait_over_mono:
  "wait_over w (b\<lparr>current_state := LISTEN\<rparr>) \<Longrightarrow> wait_over w b"
  "wait_over w (b\<lparr>accept_queue := tl (accept_queue b)\<rparr>) \<Longrightarrow> wait_over w b"
  by (cases w; auto)+

lemma all_heard_change:
  assumes "all_heard m" and "length (spots m') = length (spots m)"
    and "\<And>w. wait_over w (block m') \<Longrightarrow> wait_over w (block m)"
    and "\<And>u. u < length (spots m) \<Longrightarrow> u \<noteq> t \<Longrightarrow> spots m' ! u = spots m ! u"
    and "t < length (spots m) \<Longrightarrow> \<not> notifies (spots m ! t)"
    and "\<And>w. t < length (spots m) \<Longrightarrow> wait_over w (block m') \<Longrightarrow> spots m' ! t \<noteq> Parks w \<and> spots m' ! t \<noteq> Asleep w"
  shows "all_heard m'"
  unfolding all_heard_def
proof (intro allI impI)
  fix u w
  assume u: "u < length (spots m')" "wait_over w (block m')"
  have "list_ex notifies (spots m')" if "list_ex notifies (spots m)"
    using that assms(2,4,5) by (metis list_ex_length)
  then show "spots m' ! u \<noteq> Parks w \<and> (spots m' ! u = Asleep w \<longrightarrow> list_ex notifies (spots m'))"
    using assms(1) assms(2) assms(3) [OF u(2)] assms(4) [of u] assms(6) [OF _ u(2)] u by (cases "u = t") (auto simp: all_heard_def)
qed

lemma all_heard_go:
  assumes "go t (spots m ! t) m = Some m'" and "t < length (spots m)" and "one_owner m" and "all_heard m"
  shows "all_heard m'"
  using assms(1)
proof (cases rule: goE)
  case (returns w)
  then show ?thesis
    using assms(2) wait_over_mono(2) by (intro all_heard_change [OF assms(4), where t = t]) auto
next
  case (fails w)
  then show ?thesis using assms(2) by (intro all_heard_change [OF assms(4), where t = t]) auto
next
  case (sleeps w)
  then have "\<not> wait_over w (block m)" using assms(2,4) by (auto simp: all_heard_def)
  then show ?thesis using sleeps assms(2) by (intro all_heard_change [OF assms(4), where t = t]) auto
next
  case (updates u)
  have "spots m ! v \<noteq> Parks w" if "v < length (spots m)" for v w
  proof
    assume v: "spots m ! v = Parks w"
    have "state_owner m = Some v" using assms(3) that v unfolding one_owner_def by (metis holds_mutex.simps(2))
    moreover have "state_owner m = Some t"
      using assms(2,3) updates(1) unfolding one_owner_def by (metis holds_mutex.simps(3))
    ultimately show False using v updates(1) by simp
  qed
  moreover have "list_ex notifies (spots m')" using updates(3) assms(2) by (auto simp: list_ex_length)
  ultimately show ?thesis using updates(3) assms(2) by (auto simp: all_heard_def nth_list_update)
next
  case (notifies u)
  have "spots m ! v = Parks w \<Longrightarrow> v < length (spots m) \<Longrightarrow> \<not> wait_over w (block m)" for v w
    using assms(4) by (auto simp: all_heard_def)
  then show ?thesis using notifies assms(2) by (auto simp: all_heard_def nth_list_update)
qed

lemma all_heard_act:
  assumes "state_act a m = Some m'" and "one_owner m" and "all_heard m"
  shows "all_heard m'"
proof (cases a)
  case (Take t)
  then obtain p where p: "with_mutex (spots m ! t) = Some p" "t < length (spots m)"
    "m' = m\<lparr>state_owner := Some t, spots := (spots m)[t := p]\<rparr>" using assms(1) by (auto split: if_splits)
  from p(1) show ?thesis
    by (cases rule: with_mutexE) (use p in \<open>auto intro!: all_heard_change [OF assms(3), where t = t]\<close>)
next
  case (Go t)
  then show ?thesis using assms all_heard_go by (auto split: if_splits)
next
  case (Begin_wait t w)
  then show ?thesis using assms(1) by (intro all_heard_change [OF assms(3), where t = t]) (auto split: if_splits)
next
  case (Begin_update t u)
  then show ?thesis using assms(1) by (intro all_heard_change [OF assms(3), where t = t]) (auto split: if_splits)
next
  case (Wake_up t)
  show ?thesis
  proof (cases "notifies (spots m ! t)")
    case True
    then have "wake_spot (spots m ! t) = spots m ! t" by (cases "spots m ! t") auto
    then show ?thesis using Wake_up assms(1,3) by (auto split: if_splits)
  next
    case False
    have "spots m ! t = Parks w \<Longrightarrow> t < length (spots m) \<Longrightarrow> \<not> wait_over w (block m)" for w
      using assms(3) by (auto simp: all_heard_def)
    then show ?thesis
      using Wake_up assms(1) False by (intro all_heard_change [OF assms(3), where t = t]) (auto split: if_splits)
  qed
next
  case Listen_store
  then have "m' = m\<lparr>block := (block m)\<lparr>current_state := LISTEN\<rparr>\<rparr>" using assms(1) by simp
  then show ?thesis using assms(3) wait_over_mono(1) [of _ "block m"] by (auto simp: all_heard_def)
qed

lemma queue_kept_act:
  assumes "state_act a m = Some m'" and "queue_kept b m"
  shows "queue_kept b m'"
proof (cases a)
  case (Go t)
  then have "go t (spots m ! t) m = Some m'" using assms(1) by (simp split: if_splits)
  then show ?thesis
  proof (cases rule: goE)
    case (updates u)
    then show ?thesis using assms(2) by (cases u) (auto simp: queue_kept_def TCB_set_state_def)
  qed (use assms(2) in \<open>auto simp: queue_kept_def\<close>)
qed (use assms in \<open>auto simp: queue_kept_def split: if_splits\<close>)

lemma state_acts_invariant:
  assumes "state_acts as m = Some m'" and "P m" and "\<And>a m m'. a \<in> set as \<Longrightarrow> state_act a m = Some m' \<Longrightarrow> P m \<Longrightarrow> P m'"
  shows "P m'"
  using assms
proof (induction as arbitrary: m)
  case (Cons a as)
  then obtain m1 where m1: "state_act a m = Some m1" "state_acts as m1 = Some m'" by (auto split: option.splits)
  then show ?case using Cons.IH [of m1] Cons.prems(2,3) by (metis list.set_intros)
qed simp

lemma state_acts_ok:
  assumes "state_acts as (state_monitor_new n b) = Some m"
  shows "one_owner m \<and> all_heard m \<and> length (spots m) = n \<and> queue_kept b m"
proof (rule state_acts_invariant [OF assms])
  show "one_owner (state_monitor_new n b) \<and> all_heard (state_monitor_new n b) \<and> length (spots (state_monitor_new n b)) = n
      \<and> queue_kept b (state_monitor_new n b)"
    by (simp add: state_monitor_new_def one_owner_def all_heard_def queue_kept_def)
qed (use one_owner_act all_heard_act state_act_length queue_kept_act in metis)

text \<open>C30. No notification of \<^verbatim>\<open>state_cv\<close> is lost. In every schedule of threads that connect, accept, change the state, push connections and
  note acknowledgements, with spurious wake-ups: when a thread sleeps in \<^verbatim>\<open>connect\<close> or \<^verbatim>\<open>accept\<close> and its condition holds, then
  another thread is just about to notify, and this wakes the sleeper. A woken thread that gets the mutex while its condition holds
  returns. \<^verbatim>\<open>accept\<close> hands out the connections of the queue one by one, each of them once, in the order in which they were pushed.\<close>

theorem state_wait_not_lost:
  assumes "state_acts as (state_monitor_new n b) = Some m"
  shows "(\<forall>t < n. \<forall>w. spots m ! t = Asleep w \<and> wait_over w (block m) \<longrightarrow>
      (\<exists>u < n. \<exists>m'. notifies (spots m ! u) \<and> state_act (Go u) m = Some m' \<and> spots m' ! t = Woken w))
    \<and> (\<forall>t < n. \<forall>w. spots m ! t = Woken w \<and> wait_over w (block m) \<and> state_owner m = None \<longrightarrow>
      (\<exists>m'. state_acts [Take t, Go t] m = Some m' \<and> spots m' ! t = Idle))
    \<and> accept_queue b @ pushed m = taken m @ accept_queue (block m)"
proof (intro conjI allI impI)
  have ok: "all_heard m" "length (spots m) = n" "queue_kept b m" using state_acts_ok [OF assms] by blast+
  show "accept_queue b @ pushed m = taken m @ accept_queue (block m)" using ok(3) by (simp add: queue_kept_def)
  fix t w
  assume t: "t < n"
  {
    assume sleeps: "spots m ! t = Asleep w \<and> wait_over w (block m)"
    then have "list_ex notifies (spots m)" using ok t by (auto simp: all_heard_def)
    then obtain u where u: "u < n" "notifies (spots m ! u)" using ok(2) by (auto simp: list_ex_length)
    then obtain v where v: "spots m ! u = Notifies v" by (cases "spots m ! u") auto
    with sleeps have "t \<noteq> u" by auto
    then show "\<exists>u < n. \<exists>m'. notifies (spots m ! u) \<and> state_act (Go u) m = Some m' \<and> spots m' ! t = Woken w"
      using u v t sleeps ok(2) by (intro exI [of _ u]) simp
  next
    assume woken: "spots m ! t = Woken w \<and> wait_over w (block m) \<and> state_owner m = None"
    then show "\<exists>m'. state_acts [Take t, Go t] m = Some m' \<and> spots m' ! t = Idle"
      using t ok(2) by (cases w) simp_all
  }
qed

text \<open>A connection is pushed while a thread sleeps in \<^verbatim>\<open>accept\<close>.\<close>

theorem state_wait_not_lost_witness:
  "\<exists>m. state_acts [Begin_wait 0 Acceptor, Take 0, Go 0, Go 0, Begin_update 1 (Push_accepted 7), Take 1, Go 1]
        (state_monitor_new 2 (TCB_new LISTEN IPv4Address_default IPv4Address_default)) = Some m
     \<and> spots m ! 0 = Asleep Acceptor \<and> wait_over Acceptor (block m)
     \<and> (\<exists>u < 2. \<exists>m'. notifies (spots m ! u) \<and> state_act (Go u) m = Some m' \<and> spots m' ! 0 = Woken Acceptor)"
proof -
  obtain m where m: "state_acts [Begin_wait 0 Acceptor, Take 0, Go 0, Go 0, Begin_update 1 (Push_accepted 7), Take 1, Go 1]
      (state_monitor_new 2 (TCB_new LISTEN IPv4Address_default IPv4Address_default)) = Some m"
    and s: "spots m ! 0 = Asleep Acceptor \<and> wait_over Acceptor (block m)"
    by (simp add: state_monitor_new_def TCB_new_def numeral_2_eq_2)
  have "\<exists>u < 2. \<exists>m'. notifies (spots m ! u) \<and> state_act (Go u) m = Some m' \<and> spots m' ! 0 = Woken Acceptor"
    using state_wait_not_lost [OF m] s by (metis zero_less_numeral)
  with m s show ?thesis by blast
qed

subsection \<open>A missed connection\<close>

text \<open>The actions of a call of \<^verbatim>\<open>set_state\<close>, and the updates that end a wait of \<^verbatim>\<open>connect\<close>.\<close>

definition set_state_actions :: "nat \<Rightarrow> TcpState \<Rightarrow> state_action list" where
  "set_state_actions u st = [Begin_update u (Set_to st), Take u, Go u, Go u]"

fun ends_connect :: "block_update \<Rightarrow> bool" where
  "ends_connect (Set_to st) \<longleftrightarrow> st = ESTABLISHED \<or> st = CLOSED"
| "ends_connect u \<longleftrightarrow> False"

fun begins_end :: "state_action \<Rightarrow> bool" where
  "begins_end (Begin_update t u) = ends_connect u"
| "begins_end a = False"

fun in_connect :: "spot \<Rightarrow> bool" where
  "in_connect (Wants w) = (w = Connector)"
| "in_connect (Evaluates w) = (w = Connector)"
| "in_connect (Parks w) = (w = Connector)"
| "in_connect (Asleep w) = (w = Connector)"
| "in_connect (Woken w) = (w = Connector)"
| "in_connect p = False"

fun leaves_connect :: "spot \<Rightarrow> bool" where
  "leaves_connect (Wants_update u) = ends_connect u"
| "leaves_connect (Updates u) = ends_connect u"
| "leaves_connect p = False"

definition connect_held :: "nat \<Rightarrow> state_monitor \<Rightarrow> bool" where
  "connect_held t m \<longleftrightarrow> \<not> wait_over Connector (block m) \<and> t < length (spots m) \<and> in_connect (spots m ! t)
     \<and> (\<forall>p \<in> set (spots m). \<not> leaves_connect p)"

lemma connect_spots_wake [simp]: "in_connect (wake_spot p) = in_connect p" "leaves_connect (wake_spot p) = leaves_connect p"
  by (cases p; simp)+

lemma connect_held_spot:
  assumes "connect_held t m" and "\<not> wait_over Connector (block m')" and "spots m' = (spots m)[u := p]"
    and "\<not> leaves_connect p" and "u = t \<Longrightarrow> in_connect p"
  shows "connect_held t m'"
proof -
  have "\<forall>q \<in> set (spots m'). \<not> leaves_connect q"
    using assms(1,3,4) set_update_subset_insert [of "spots m" u p] by (auto simp: connect_held_def)
  then show ?thesis using assms by (cases "u = t") (auto simp: connect_held_def)
qed

lemma connect_held_go:
  assumes "go u (spots m ! u) m = Some m'" and "u < length (spots m)" and "connect_held t m"
  shows "connect_held t m'"
proof -
  have still: "\<not> wait_over Connector (block m)" using assms(3) by (simp add: connect_held_def)
  have t: "in_connect (spots m ! t)" using assms(3) by (simp add: connect_held_def)
  from assms(1) show ?thesis
  proof (cases rule: goE)
    case (returns w)
    then have "w = Acceptor" using still by (cases w) auto
    then show ?thesis using returns t still by (intro connect_held_spot [OF assms(3), where u = u and p = Idle]) auto
  next
    case (fails w)
    then show ?thesis using still t by (intro connect_held_spot [OF assms(3), where u = u]) auto
  next
    case (sleeps w)
    then show ?thesis using still t by (intro connect_held_spot [OF assms(3), where u = u]) auto
  next
    case (updates v)
    have "\<not> leaves_connect (spots m ! u)" using assms(2,3) by (simp add: connect_held_def)
    then have "\<not> wait_over Connector (block m')" using updates(1,2) still by (cases v) (auto simp: TCB_set_state_def)
    then show ?thesis using updates t by (intro connect_held_spot [OF assms(3), where u = u]) auto
  next
    case (notifies v)
    have "connect_held t (m\<lparr>spots := (spots m)[u := Idle]\<rparr>)"
      using notifies(1) t still by (intro connect_held_spot [OF assms(3), where u = u]) auto
    then show ?thesis using notifies(2) by (auto simp: connect_held_def)
  qed
qed

lemma connect_held_act:
  assumes "state_act a m = Some m'" and "\<not> begins_end a" and "connect_held t m"
  shows "connect_held t m'"
proof -
  have still: "\<not> wait_over Connector (block m)" using assms(3) by (simp add: connect_held_def)
  have t: "in_connect (spots m ! t)" using assms(3) by (simp add: connect_held_def)
  have calm: "u < length (spots m) \<Longrightarrow> \<not> leaves_connect (spots m ! u)" for u using assms(3) by (simp add: connect_held_def)
  show ?thesis
  proof (cases a)
    case (Take u)
    then obtain p where p: "with_mutex (spots m ! u) = Some p" "u < length (spots m)"
      "m' = m\<lparr>state_owner := Some u, spots := (spots m)[u := p]\<rparr>" using assms(1) by (auto split: if_splits)
    have "\<not> leaves_connect p \<and> (u = t \<longrightarrow> in_connect p)" using p(1) calm [OF p(2)] t by (cases rule: with_mutexE) auto
    then show ?thesis using p still by (intro connect_held_spot [OF assms(3), where u = u]) auto
  next
    case (Go u)
    then show ?thesis using assms connect_held_go by (auto split: if_splits)
  next
    case (Begin_wait u w)
    then show ?thesis
      using assms(1) still t by (intro connect_held_spot [OF assms(3), where u = u and p = "Wants w"]) (auto split: if_splits)
  next
    case (Begin_update u v)
    then show ?thesis
      using assms(1,2) still t by (intro connect_held_spot [OF assms(3), where u = u and p = "Wants_update v"]) (auto split: if_splits)
  next
    case (Wake_up u)
    then show ?thesis
      using assms(1) still t calm [of u]
      by (intro connect_held_spot [OF assms(3), where u = u and p = "wake_spot (spots m ! u)"]) (auto split: if_splits)
  next
    case Listen_store
    then have "m' = m\<lparr>block := (block m)\<lparr>current_state := LISTEN\<rparr>\<rparr>" using assms(1) by simp
    then show ?thesis using assms(3) by (simp add: connect_held_def)
  qed
qed

lemma set_state_run:
  assumes "u < length (spots m)" and "spots m ! u = Idle" and "state_owner m = None"
  shows "state_acts (set_state_actions u st) m =
    Some (m\<lparr>block := TCB_set_state st (block m), spots := map wake_spot (spots m)\<rparr>)"
proof -
  have "(spots m)[u := Idle] = spots m" using assms(2) list_update_id [of "spots m" u] by simp
  then show ?thesis using assms by (simp add: set_state_actions_def)
qed

lemma state_acts_append:
  "state_acts (as @ bs) m = (case state_acts as m of None \<Rightarrow> None | Some m \<Rightarrow> state_acts bs m)"
  by (induction as arbitrary: m) (auto split: option.splits)

text \<open>C37. \<^verbatim>\<open>connect\<close> can miss the connection it waits for. A thread sleeps in \<^verbatim>\<open>connect\<close>; the daemon completes the handshake and, before the
  woken thread has the mutex, processes the peer's FIN. The thread then finds \<^verbatim>\<open>CLOSE_WAIT\<close>, which its predicate does not count as
  the end of the wait, and sleeps again; and it stays in \<^verbatim>\<open>connect\<close> as long as nobody sets the state to \<^verbatim>\<open>ESTABLISHED\<close> or
  \<^verbatim>\<open>CLOSED\<close>, which in \<^verbatim>\<open>CLOSE_WAIT\<close> no segment does (\<open>close_wait_kept\<close>).\<close>

theorem connect_misses_established:
  assumes "t < length (spots m)" and "u < length (spots m)" and "spots m ! t = Asleep Connector" and "spots m ! u = Idle"
    and "state_owner m = None" and "\<forall>p \<in> set (spots m). \<not> leaves_connect p"
  shows "\<exists>m'. state_acts (set_state_actions u ESTABLISHED @ set_state_actions u CLOSE_WAIT @ [Take t, Go t, Go t]) m = Some m'
    \<and> spots m' ! t = Asleep Connector \<and> current_state (block m') = CLOSE_WAIT
    \<and> (\<forall>as m''. state_acts as m' = Some m'' \<and> list_all (\<lambda>a. \<not> begins_end a) as \<longrightarrow> in_connect (spots m'' ! t))"
proof -
  define m1 where "m1 = m\<lparr>block := TCB_set_state ESTABLISHED (block m), spots := map wake_spot (spots m)\<rparr>"
  define m2 where "m2 = m1\<lparr>block := TCB_set_state CLOSE_WAIT (block m1), spots := map wake_spot (spots m1)\<rparr>"
  define m' where "m' = m2\<lparr>state_owner := None, spots := (spots m2)[t := Asleep Connector]\<rparr>"
  have "state_acts (set_state_actions u ESTABLISHED) m = Some m1"
    using set_state_run [OF assms(2,4,5)] by (simp add: m1_def)
  moreover have "state_acts (set_state_actions u CLOSE_WAIT) m1 = Some m2"
    using set_state_run [of u m1] assms(2,4,5) by (simp add: m1_def m2_def)
  moreover have "state_acts [Take t, Go t, Go t] m2 = Some m'"
    using assms(1,3,5) by (simp add: m1_def m2_def m'_def TCB_set_state_def)
  moreover have m': "spots m' ! t = Asleep Connector" "current_state (block m') = CLOSE_WAIT"
    using assms(1) by (simp_all add: m'_def m2_def m1_def TCB_set_state_def)
  moreover have "connect_held t m'"
  proof (rule connect_held_spot [where u = t and p = "Asleep Connector"])
    show "connect_held t m2"
      using assms(1,3,6) by (auto simp: connect_held_def m2_def m1_def TCB_set_state_def)
  qed (simp_all add: m'_def m2_def TCB_set_state_def)
  then have "in_connect (spots m'' ! t)" if "state_acts as m' = Some m''" "list_all (\<lambda>a. \<not> begins_end a) as" for as m''
    using state_acts_invariant [OF that(1), of "connect_held t"] connect_held_act that(2)
    by (fastforce simp: connect_held_def list_all_iff)
  ultimately show ?thesis
    using m' by (intro exI [of _ m']) (auto simp: state_acts_append simp del: state_acts.simps)
qed

text \<open>A peer that closes at once, with the schedule from the start.\<close>

theorem connect_misses_established_witness:
  "\<exists>m m'. state_acts [Begin_wait 0 Connector, Take 0, Go 0, Go 0]
        (state_monitor_new 2 (TCB_new SYN_SENT IPv4Address_default IPv4Address_default)) = Some m
     \<and> state_acts (set_state_actions 1 ESTABLISHED @ set_state_actions 1 CLOSE_WAIT @ [Take 0, Go 0, Go 0]) m = Some m'
     \<and> spots m' ! 0 = Asleep Connector \<and> current_state (block m') = CLOSE_WAIT"
proof -
  let ?m = "\<lparr>block = TCB_new SYN_SENT IPv4Address_default IPv4Address_default, state_owner = None,
    spots = [Asleep Connector, Idle], pushed = [], taken = []\<rparr>"
  have "state_acts [Begin_wait 0 Connector, Take 0, Go 0, Go 0]
      (state_monitor_new 2 (TCB_new SYN_SENT IPv4Address_default IPv4Address_default)) = Some ?m"
    by (simp add: state_monitor_new_def TCB_new_def numeral_2_eq_2)
  moreover have "\<exists>m'. state_acts (set_state_actions 1 ESTABLISHED @ set_state_actions 1 CLOSE_WAIT @ [Take 0, Go 0, Go 0]) ?m = Some m'
      \<and> spots m' ! 0 = Asleep Connector \<and> current_state (block m') = CLOSE_WAIT"
    using connect_misses_established [of 0 ?m 1] by auto
  ultimately show ?thesis by blast
qed

text \<open>Whatever arrives, a block in \<^verbatim>\<open>CLOSE_WAIT\<close> stays there, and the condition of \<^verbatim>\<open>connect\<close> does not hold.\<close>

lemma close_wait_kept:
  assumes "get_tcb s (next_id (socket_table s)) = None" and "s' \<in> set (outcome_states (process_incoming_packet e raw s))"
    and "get_tcb s (sock_id k) = Some t" and "current_state t = CLOSE_WAIT"
  shows "\<not> TcpSocket_connect_ready k s'"
proof (cases "get_tcb s' (sock_id k)")
  case (Some t')
  have "moves_only (find_connections_tcb s (incoming_src raw) (incoming_dst raw)) s s'"
    using receives_process_incoming [OF assms(1), of raw e] assms(2) by (auto simp: receives_def list_all_iff)
  then have "current_state t' = CLOSE_WAIT"
    using assms(3,4) Some unfolding moves_only_def receive_move_def by (metis rfc793_from(8))
  then show ?thesis using Some by (simp add: TcpSocket_connect_ready_def)
qed (simp add: TcpSocket_connect_ready_def)

text \<open>The predicates of the waits are those of the socket calls.\<close>

lemma wait_over_calls:
  assumes "get_tcb s (sock_id k) = Some t"
  shows "wait_over Connector t \<longleftrightarrow> TcpSocket_connect_ready k s"
    and "current_state t = LISTEN \<Longrightarrow> wait_over Acceptor t \<longleftrightarrow> TcpSocket_accept k s \<noteq> Blocks s"
  using assms by (auto simp: TcpSocket_connect_ready_def TcpSocket_accept_def split: list.splits)

end
