(* ===== verification/Header_Dump.thy ===== *)
theory Header_Dump
  imports Output_Streams IPv4_Packet Tcp_Packet
begin

text \<open>
  The dump format of the packet headers: \<^verbatim>\<open>PrintIPv4Header\<close> in \<^verbatim>\<open>IPv4Packet.cpp\<close> and \<^verbatim>\<open>PrintTcpHeader\<close>
  in \<^verbatim>\<open>TcpPacket.cpp\<close>. Both are templates over the getters of a header, instantiated for the packed
  struct and for the view: a record of getter results stands for the template argument. The dumps are
  chains of insertions on a stream, with the manipulators in the order of the source.

  The lemmas show that a dump appends a text that depends on the getters only and restores the format of
  the stream, and that the text determines the header: the IPv4 header completely, the TCP header
  up to the reserved bits, which are not printed.
\<close>

subsection \<open>IPv4\<close>

record ipv4_getters =
  g_version :: u8
  g_ihl :: u8
  g_ip_header_length :: u8
  g_type_of_service :: u8
  g_total_length :: u16
  g_identification :: u16
  g_ip_flags :: u8
  g_fragment_offset :: u16
  g_ttl :: u8
  g_protocol :: u8
  g_ip_checksum :: u16
  g_source_address :: u32
  g_destination_address :: u32

definition IPv4Header_getters :: "IPv4Header \<Rightarrow> ipv4_getters" where
  "IPv4Header_getters h =
     \<lparr>g_version = IPv4Header_version h, g_ihl = IPv4Header_IHL h,
      g_ip_header_length = IPv4Header_header_length h, g_type_of_service = IPv4Header_type_of_service h,
      g_total_length = IPv4Header_total_length_ntoh h,
      g_identification = IPv4Header_identification_ntoh h, g_ip_flags = IPv4Header_flags h,
      g_fragment_offset = IPv4Header_fragment_offset h, g_ttl = IPv4Header_ttl h, g_protocol = IPv4Header_protocol h,
      g_ip_checksum = IPv4Header_checksum_ntoh h, g_source_address = IPv4Header_source_address h,
      g_destination_address = IPv4Header_destination_address h\<rparr>"

definition IPv4PacketView_getters :: "bytes \<Rightarrow> ipv4_getters" where
  "IPv4PacketView_getters bs =
     \<lparr>g_version = IPv4PacketView_version bs, g_ihl = IPv4PacketView_IHL bs,
      g_ip_header_length = IPv4PacketView_header_length bs,
      g_type_of_service = IPv4PacketView_type_of_service bs,
      g_total_length = IPv4PacketView_total_length_ntoh bs,
      g_identification = IPv4PacketView_identification_ntoh bs, g_ip_flags = IPv4PacketView_flags bs,
      g_fragment_offset = IPv4PacketView_fragment_offset bs, g_ttl = IPv4PacketView_ttl bs,
      g_protocol = IPv4PacketView_protocol bs, g_ip_checksum = IPv4PacketView_checksum_ntoh bs,
      g_source_address = IPv4PacketView_source_address bs,
      g_destination_address = IPv4PacketView_destination_address bs\<rparr>"

text \<open>The lambda \<^verbatim>\<open>print_ip\<close>: its argument is in network byte order.\<close>

definition insert_ip :: "u32 \<Rightarrow> (ostream \<Rightarrow> ostream) list" where
  "insert_ip addr =
     (let addr = ntohl addr
      in [put_nat (unat (drop_bit 24 addr AND 0xFF)), put_text ''.'',
          put_nat (unat (drop_bit 16 addr AND 0xFF)), put_text ''.'',
          put_nat (unat (drop_bit 8 addr AND 0xFF)), put_text ''.'',
          put_nat (unat (addr AND 0xFF))])"

definition PrintIPv4Header :: "ipv4_getters \<Rightarrow> ostream \<Rightarrow> ostream" where
  "PrintIPv4Header header = emit (
     [put_text (''IPv4 Header {'' @ [newline]),
      put_text ''  Version:            '', put_nat (unat (g_version header)), put_text [newline],
      put_text ''  IHL:                '', put_nat (unat (g_ihl header)),
      put_text '' ('', put_nat (unat (g_ip_header_length header)), put_text ('' bytes)'' @ [newline]),
      put_text ''  Type of Service:    0x'',
      set_base Hexadecimal, set_width 2, set_fill (CHR ''0''),
      put_nat (unat (g_type_of_service header)), set_base Decimal, set_fill (CHR '' ''),
      put_text [newline],
      put_text ''  Total Length:       '', put_nat (unat (g_total_length header)), put_text [newline],
      put_text ''  Identification:     0x'',
      set_base Hexadecimal, set_width 4, set_fill (CHR ''0''),
      put_nat (unat (g_identification header)), set_base Decimal, set_fill (CHR '' ''),
      put_text [newline],
      put_text ''  Flags:              0b'',
      put_nat (unat (drop_bit 2 (g_ip_flags header) AND 1)),
      put_nat (unat (drop_bit 1 (g_ip_flags header) AND 1)),
      put_nat (unat (g_ip_flags header AND 1)), put_text [newline],
      put_text ''  Fragment Offset:    '', put_nat (unat (g_fragment_offset header)), put_text [newline],
      put_text ''  TTL:                '', put_nat (unat (g_ttl header)), put_text [newline],
      put_text ''  Protocol:           '', put_nat (unat (g_protocol header)), put_text [newline],
      put_text ''  Checksum:           0x'',
      set_base Hexadecimal, set_width 4, set_fill (CHR ''0''),
      put_nat (unat (g_ip_checksum header)), set_base Decimal, set_fill (CHR '' ''),
      put_text [newline],
      put_text ''  Source:             '']
     @ insert_ip (g_source_address header)
     @ [put_text [newline], put_text ''  Destination:        '']
     @ insert_ip (g_destination_address header)
     @ [put_text ([newline] @ ''}'')])"

definition IPv4Header_print :: "IPv4Header \<Rightarrow> ostream \<Rightarrow> ostream" where
  "IPv4Header_print h = PrintIPv4Header (IPv4Header_getters h)"

definition IPv4PacketView_print :: "bytes \<Rightarrow> ostream \<Rightarrow> ostream" where
  "IPv4PacketView_print bs = PrintIPv4Header (IPv4PacketView_getters bs)"

subsection \<open>TCP\<close>

record tcp_getters =
  g_source_port :: u16
  g_dest_port :: u16
  g_seq_num :: u32
  g_ack_num :: u32
  g_data_offset :: u8
  g_tcp_header_length :: u8
  g_urg :: bool
  g_ack :: bool
  g_psh :: bool
  g_rst :: bool
  g_syn :: bool
  g_fin :: bool
  g_window :: u16
  g_tcp_checksum :: u16
  g_urgent_pointer :: u16

definition TcpHeader_getters :: "TcpHeader \<Rightarrow> tcp_getters" where
  "TcpHeader_getters h =
     \<lparr>g_source_port = TcpHeader_source_port_ntoh h, g_dest_port = TcpHeader_dest_port_ntoh h,
      g_seq_num = TcpHeader_seq_num_ntoh h, g_ack_num = TcpHeader_ack_num_ntoh h,
      g_data_offset = TcpHeader_data_offset h, g_tcp_header_length = TcpHeader_header_length h,
      g_urg = TcpHeader_urg h, g_ack = TcpHeader_ack h, g_psh = TcpHeader_psh h,
      g_rst = TcpHeader_rst h, g_syn = TcpHeader_syn h, g_fin = TcpHeader_fin h,
      g_window = TcpHeader_window_ntoh h, g_tcp_checksum = TcpHeader_checksum_ntoh h,
      g_urgent_pointer = TcpHeader_urgent_pointer_ntoh h\<rparr>"

definition TcpPacketView_getters :: "bytes \<Rightarrow> tcp_getters" where
  "TcpPacketView_getters bs =
     \<lparr>g_source_port = TcpPacketView_source_port_ntoh bs, g_dest_port = TcpPacketView_dest_port_ntoh bs,
      g_seq_num = TcpPacketView_seq_num_ntoh bs, g_ack_num = TcpPacketView_ack_num_ntoh bs,
      g_data_offset = TcpPacketView_data_offset bs,
      g_tcp_header_length = TcpPacketView_header_length bs,
      g_urg = TcpPacketView_urg bs, g_ack = TcpPacketView_ack bs, g_psh = TcpPacketView_psh bs,
      g_rst = TcpPacketView_rst bs, g_syn = TcpPacketView_syn bs, g_fin = TcpPacketView_fin bs,
      g_window = TcpPacketView_window_ntoh bs, g_tcp_checksum = TcpPacketView_checksum_ntoh bs,
      g_urgent_pointer = TcpPacketView_urgent_pointer_ntoh bs\<rparr>"

text \<open>The lambda \<^verbatim>\<open>print_flag\<close> with the variable \<^verbatim>\<open>printed\<close> that it captures.\<close>

definition print_flag :: "bool \<Rightarrow> string \<Rightarrow> ostream \<times> bool \<Rightarrow> ostream \<times> bool" where
  "print_flag is_set name st =
     (let (os, printed) = st
      in if \<not> is_set then (os, printed)
         else let os = (if printed then put_text '' '' os else os)
              in (put_text name os, True))"

definition print_flags :: "tcp_getters \<Rightarrow> ostream \<Rightarrow> ostream" where
  "print_flags header os =
     (let st = (os, False);
          st = print_flag (g_urg header) ''URG'' st;
          st = print_flag (g_ack header) ''ACK'' st;
          st = print_flag (g_psh header) ''PSH'' st;
          st = print_flag (g_rst header) ''RST'' st;
          st = print_flag (g_syn header) ''SYN'' st;
          st = print_flag (g_fin header) ''FIN'' st;
          (os, printed) = st
      in if \<not> printed then put_text ''None'' os else os)"

definition PrintTcpHeader :: "tcp_getters \<Rightarrow> ostream \<Rightarrow> ostream" where
  "PrintTcpHeader header = emit
     [put_text (''TCP Header {'' @ [newline]),
      put_text ''  Source Port:        '', put_nat (unat (g_source_port header)), put_text [newline],
      put_text ''  Destination Port:   '', put_nat (unat (g_dest_port header)), put_text [newline],
      put_text ''  Sequence Number:    0x'',
      set_base Hexadecimal, set_width 8, set_fill (CHR ''0''),
      put_nat (unat (g_seq_num header)), set_base Decimal, set_fill (CHR '' ''),
      put_text [newline],
      put_text ''  Ack Number:         0x'',
      set_base Hexadecimal, set_width 8, set_fill (CHR ''0''),
      put_nat (unat (g_ack_num header)), set_base Decimal, set_fill (CHR '' ''),
      put_text [newline],
      put_text ''  Data Offset:        '', put_nat (unat (g_data_offset header)),
      put_text '' ('', put_nat (unat (g_tcp_header_length header)), put_text ('' bytes)'' @ [newline]),
      put_text ''  Flags:              '',
      print_flags header,
      put_text [newline],
      put_text ''  Window:             0x'',
      set_base Hexadecimal, set_width 4, set_fill (CHR ''0''),
      put_nat (unat (g_window header)), set_base Decimal, set_fill (CHR '' ''),
      put_text [newline],
      put_text ''  Checksum:           0x'',
      set_base Hexadecimal, set_width 4, set_fill (CHR ''0''),
      put_nat (unat (g_tcp_checksum header)), set_base Decimal, set_fill (CHR '' ''),
      put_text [newline],
      put_text ''  Urgent Pointer:     0x'',
      set_base Hexadecimal, set_width 4, set_fill (CHR ''0''),
      put_nat (unat (g_urgent_pointer header)), set_base Decimal, set_fill (CHR '' ''),
      put_text ([newline] @ ''}'')]"

definition TcpHeader_print :: "TcpHeader \<Rightarrow> ostream \<Rightarrow> ostream" where
  "TcpHeader_print h = PrintTcpHeader (TcpHeader_getters h)"

definition TcpPacketView_print :: "bytes \<Rightarrow> ostream \<Rightarrow> ostream" where
  "TcpPacketView_print bs = PrintTcpHeader (TcpPacketView_getters bs)"

subsection \<open>What is printed\<close>

definition ipv4_text :: "ipv4_getters \<Rightarrow> string" where
  "ipv4_text g =
     ''IPv4 Header {'' @ [newline]
     @ ''  Version:            '' @ show_nat (unat (g_version g)) @ [newline]
     @ ''  IHL:                '' @ show_nat (unat (g_ihl g))
     @ '' ('' @ show_nat (unat (g_ip_header_length g)) @ '' bytes)'' @ [newline]
     @ ''  Type of Service:    0x'' @ show_hex_padded 2 (unat (g_type_of_service g)) @ [newline]
     @ ''  Total Length:       '' @ show_nat (unat (g_total_length g)) @ [newline]
     @ ''  Identification:     0x'' @ show_hex_padded 4 (unat (g_identification g)) @ [newline]
     @ ''  Flags:              0b'' @ show_nat (unat (drop_bit 2 (g_ip_flags g) AND 1))
     @ show_nat (unat (drop_bit 1 (g_ip_flags g) AND 1)) @ show_nat (unat (g_ip_flags g AND 1)) @ [newline]
     @ ''  Fragment Offset:    '' @ show_nat (unat (g_fragment_offset g)) @ [newline]
     @ ''  TTL:                '' @ show_nat (unat (g_ttl g)) @ [newline]
     @ ''  Protocol:           '' @ show_nat (unat (g_protocol g)) @ [newline]
     @ ''  Checksum:           0x'' @ show_hex_padded 4 (unat (g_ip_checksum g)) @ [newline]
     @ ''  Source:             '' @ print_ip (ntohl (g_source_address g)) @ [newline]
     @ ''  Destination:        '' @ print_ip (ntohl (g_destination_address g)) @ [newline] @ ''}''"

lemma PrintIPv4Header_text:
  "plain_format os \<Longrightarrow> PrintIPv4Header g os = write_text (ipv4_text g) os"
  by (simp add: PrintIPv4Header_def insert_ip_def print_ip_def ipv4_text_def Let_def)

lemma show_nat_append_iff:
  "no_digit_first r \<Longrightarrow> no_digit_first q \<Longrightarrow> show_nat m @ r = show_nat n @ q \<longleftrightarrow> m = n \<and> r = q"
  using show_nat_append_eq by blast

lemma show_hex_append_iff:
  "m < 16 ^ w \<Longrightarrow> n < 16 ^ w \<Longrightarrow> 0 < w \<Longrightarrow>
     show_hex_padded w m @ r = show_hex_padded w n @ q \<longleftrightarrow> m = n \<and> r = q"
  using show_hex_padded_append_eq by blast

lemma no_digit_first_more [simp]:
  "no_digit_first (newline # s)" "no_digit_first (CHR '' '' # s)"
  by (simp_all add: no_digit_first_def is_digit_def)

definition bit_char :: "bool \<Rightarrow> char" where
  "bit_char b = (if b then CHR ''1'' else CHR ''0'')"

lemma bit_char_inject [simp]: "bit_char b = bit_char c \<longleftrightarrow> b = c"
  by (simp add: bit_char_def)

lemma show_bit [simp]: "show_nat (unat (x AND 1 :: u8)) = [bit_char (bit x 0)]"
  by (simp add: show_nat.simps digit_char_def and_one_eq mod_2_eq_odd bit_0 bit_char_def char_of_def)

lemma show_hex_padded_inject [simp]: "show_hex_padded w m = show_hex_padded w n \<longleftrightarrow> m = n"
  by (metis read_hex_padded)

lemma print_ip_append_iff:
  "no_digit_first r \<Longrightarrow> no_digit_first q \<Longrightarrow> print_ip v @ r = print_ip w @ q \<longleftrightarrow> v = w \<and> r = q"
proof
  assume *: "no_digit_first r" "no_digit_first q" "print_ip v @ r = print_ip w @ q"
  from *(3) have "drop_bit 24 v AND 0xFF = drop_bit 24 w AND 0xFF" "drop_bit 16 v AND 0xFF = drop_bit 16 w AND 0xFF"
    "drop_bit 8 v AND 0xFF = drop_bit 8 w AND 0xFF" "v AND 0xFF = w AND 0xFF" "r = q"
    by (simp_all add: print_ip_def show_nat_append_iff *(1,2) flip: word_unat_eq_iff)
  then show "v = w \<and> r = q" using quad_collapse [of v] quad_collapse [of w] by simp
qed simp

lemma print_ip_inject [simp]: "print_ip v = print_ip w \<longleftrightarrow> v = w"
  using print_ip_append_iff [of "[]" "[]" v w] by simp

lemma hex_append_iffs [simp]:
  "show_hex_padded 2 (unat (a :: u8)) @ r = show_hex_padded 2 (unat b) @ q \<longleftrightarrow> a = b \<and> r = q"
  "show_hex_padded 4 (unat (c :: u16)) @ r = show_hex_padded 4 (unat d) @ q \<longleftrightarrow> c = d \<and> r = q"
  "show_hex_padded 8 (unat (x :: u32)) @ r = show_hex_padded 8 (unat y) @ q \<longleftrightarrow> x = y \<and> r = q"
  by (simp_all add: show_hex_append_iff flip: word_unat_eq_iff)

lemma ipv4_text_inject:
  "ipv4_text g = ipv4_text g' \<longleftrightarrow>
     g_version g = g_version g' \<and> g_ihl g = g_ihl g' \<and> g_ip_header_length g = g_ip_header_length g'
   \<and> g_type_of_service g = g_type_of_service g' \<and> g_total_length g = g_total_length g'
   \<and> g_identification g = g_identification g'
   \<and> bit (g_ip_flags g) 2 = bit (g_ip_flags g') 2 \<and> bit (g_ip_flags g) 1 = bit (g_ip_flags g') 1
   \<and> bit (g_ip_flags g) 0 = bit (g_ip_flags g') 0
   \<and> g_fragment_offset g = g_fragment_offset g' \<and> g_ttl g = g_ttl g' \<and> g_protocol g = g_protocol g'
   \<and> g_ip_checksum g = g_ip_checksum g' \<and> ntohl (g_source_address g) = ntohl (g_source_address g')
   \<and> ntohl (g_destination_address g) = ntohl (g_destination_address g')"
  unfolding ipv4_text_def
  by (simp add: show_nat_append_iff print_ip_append_iff bit_drop_bit_eq flip: word_unat_eq_iff)

lemma htons_inject [simp]: "htons v = htons w \<longleftrightarrow> v = w" and htonl_inject [simp]: "htonl x = htonl y \<longleftrightarrow> x = y"
  by (metis htons_htons, metis htonl_htonl)

lemma split_word_inject: "drop_bit n v = drop_bit n w \<Longrightarrow> take_bit n v = take_bit n w \<Longrightarrow> v = (w :: 'a :: len word)"
  by (metis bits_ident)

lemma IPv4Header_getters_inject:
  assumes "IPv4Header_version h = IPv4Header_version h'" and "IPv4Header_IHL h = IPv4Header_IHL h'"
    and "bit (IPv4Header_flags h) 2 = bit (IPv4Header_flags h') 2"
    and "bit (IPv4Header_flags h) 1 = bit (IPv4Header_flags h') 1"
    and "bit (IPv4Header_flags h) 0 = bit (IPv4Header_flags h') 0"
    and "IPv4Header_fragment_offset h = IPv4Header_fragment_offset h'"
  shows "ip_version_ihl h = ip_version_ihl h'" and "ip_flags_fragment_offset h = ip_flags_fragment_offset h'"
proof -
  have m: "v AND 0x0F = take_bit 4 v" "w AND 0x1FFF = take_bit 13 w" for v :: u8 and w :: u16
    by (simp_all add: take_bit_eq_mask mask_eq_exp_minus_1)
  show "ip_version_ihl h = ip_version_ihl h'"
    using assms(1,2) unfolding IPv4Header_version_def IPv4Header_IHL_def m by (rule split_word_inject)
  let ?w = "ntohs (ip_flags_fragment_offset h)" and ?w' = "ntohs (ip_flags_fragment_offset h')"
  have eq: "bit ?w 13 = bit ?w' 13" "bit ?w 14 = bit ?w' 14" "bit ?w 15 = bit ?w' 15"
    using assms(3-5) by (simp_all add: IPv4Header_flags_def bit_ucast_iff bit_drop_bit_eq)
  have "drop_bit 13 ?w = drop_bit 13 ?w'"
  proof (rule bit_word_eqI)
    fix n :: nat
    consider "n = 0" | "n = 1" | "n = 2" | "3 \<le> n" by linarith
    then show "bit (drop_bit 13 ?w) n = bit (drop_bit 13 ?w') n"
      using eq by cases (auto simp: bit_drop_bit_eq dest: bit_imp_le_length)
  qed
  moreover have "take_bit 13 ?w = take_bit 13 ?w'"
    using assms(6) unfolding IPv4Header_fragment_offset_def m .
  ultimately have "?w = ?w'" by (rule split_word_inject)
  then show "ip_flags_fragment_offset h = ip_flags_fragment_offset h'" by simp
qed

lemma IPv4_getters_mirror: "IPv4PacketView_getters (IPv4Header_wire h @ rest) = IPv4Header_getters h"
  by (simp add: IPv4PacketView_getters_def IPv4Header_getters_def IPv4PacketView_getter_defs
      IPv4Header_getter_defs IPv4Header_wire_nth)

lemma IPv4_text_determines: "ipv4_text (IPv4Header_getters h) = ipv4_text (IPv4Header_getters h') \<longleftrightarrow> h = h'"
proof
  assume "ipv4_text (IPv4Header_getters h) = ipv4_text (IPv4Header_getters h')"
  then show "h = h'"
    using IPv4Header_getters_inject [of h h']
    by (cases h; cases h') (simp add: ipv4_text_inject IPv4Header_getters_def IPv4Header_total_length_ntoh_def
        IPv4Header_identification_ntoh_def IPv4Header_checksum_ntoh_def)
qed simp

text \<open>The dump of an IPv4 header. On a stream in its initial format the dump appends a text and
  leaves the format as it was; the struct and the view over the serialised struct print the
  same text; and the text determines the header: two headers with the same dump are equal.\<close>

theorem IPv4_dump_faithful:
  assumes "plain_format os"
  shows "(\<exists>text. IPv4Header_print h os = os\<lparr>os_text := os_text os @ text\<rparr>)
    \<and> IPv4PacketView_print (IPv4Header_wire h @ rest) os = IPv4Header_print h os
    \<and> (IPv4Header_print h os = IPv4Header_print h' os \<longleftrightarrow> h = h')"
  using assms IPv4_text_determines [of h h']
  by (simp add: IPv4Header_print_def IPv4PacketView_print_def IPv4_getters_mirror PrintIPv4Header_text)
    (auto simp: write_text_def)

theorem IPv4_dump_faithful_witness:
  "IPv4Header_print IPv4Header_zero os_new \<noteq> IPv4Header_print (IPv4Header_set_ttl 7 IPv4Header_zero) os_new"
  using IPv4_dump_faithful [of os_new IPv4Header_zero "[]" "IPv4Header_set_ttl 7 IPv4Header_zero"]
  by (simp add: IPv4Header_set_ttl_def IPv4Header_zero_def)

text \<open>The TCP dump.\<close>

definition flags_text :: "tcp_getters \<Rightarrow> string" where
  "flags_text g = (let names = map snd (filter fst
       [(g_urg g, ''URG''), (g_ack g, ''ACK''), (g_psh g, ''PSH''), (g_rst g, ''RST''), (g_syn g, ''SYN''),
        (g_fin g, ''FIN'')])
     in if names = [] then ''None'' else concat (hd names # map (\<lambda>n. '' '' @ n) (tl names)))"

lemma print_flags_text: "plain_format os \<Longrightarrow> print_flags g os = write_text (flags_text g) os"
proof -
  assume os: "plain_format os"
  then have put: "put_text s (write_text t os) = write_text (t @ s) os" "put_text s os = write_text s os" for s t
    using emit_step(1) [of "write_text t os" s "[]"] emit_step(1) [of os s "[]"] by (simp_all add: emit_def)
  show ?thesis
    by (cases "g_urg g"; cases "g_ack g"; cases "g_psh g"; cases "g_rst g"; cases "g_syn g"; cases "g_fin g";
        simp add: print_flags_def print_flag_def flags_text_def put)
qed

lemma emit_flags [simp]:
  "plain_format os \<Longrightarrow> emit (print_flags g # ops) os = emit ops (write_text (flags_text g) os)"
  by (simp add: emit_def print_flags_text)

text \<open>Every flag name has a letter of its own.\<close>

lemma flags_text_letters:
  "CHR ''U'' \<in> set (flags_text g) \<longleftrightarrow> g_urg g" "CHR ''A'' \<in> set (flags_text g) \<longleftrightarrow> g_ack g"
  "CHR ''P'' \<in> set (flags_text g) \<longleftrightarrow> g_psh g" "CHR ''T'' \<in> set (flags_text g) \<longleftrightarrow> g_rst g"
  "CHR ''Y'' \<in> set (flags_text g) \<longleftrightarrow> g_syn g" "CHR ''F'' \<in> set (flags_text g) \<longleftrightarrow> g_fin g"
  "newline \<notin> set (flags_text g)"
  by (cases "g_urg g"; cases "g_ack g"; cases "g_psh g"; cases "g_rst g"; cases "g_syn g"; cases "g_fin g";
      simp add: flags_text_def)+

definition same_control :: "tcp_getters \<Rightarrow> tcp_getters \<Rightarrow> bool" where
  "same_control g g' \<longleftrightarrow> g_urg g = g_urg g' \<and> g_ack g = g_ack g' \<and> g_psh g = g_psh g'
     \<and> g_rst g = g_rst g' \<and> g_syn g = g_syn g' \<and> g_fin g = g_fin g'"

lemma flags_text_append_iff:
  "flags_text g @ newline # r = flags_text g' @ newline # q \<longleftrightarrow> same_control g g' \<and> r = q"
proof
  assume *: "flags_text g @ newline # r = flags_text g' @ newline # q"
  have "takeWhile (\<lambda>c. c \<noteq> newline) (flags_text h @ newline # s) = flags_text h" for h s
    using flags_text_letters(7) [of h] by (subst takeWhile_append2) auto
  then have "flags_text g = flags_text g'" by (metis *)
  with * show "same_control g g' \<and> r = q"
    using flags_text_letters [of g] flags_text_letters [of g'] by (simp add: same_control_def)
qed (simp add: same_control_def flags_text_def)

definition tcp_text :: "tcp_getters \<Rightarrow> string" where
  "tcp_text g =
     ''TCP Header {'' @ [newline]
     @ ''  Source Port:        '' @ show_nat (unat (g_source_port g)) @ [newline]
     @ ''  Destination Port:   '' @ show_nat (unat (g_dest_port g)) @ [newline]
     @ ''  Sequence Number:    0x'' @ show_hex_padded 8 (unat (g_seq_num g)) @ [newline]
     @ ''  Ack Number:         0x'' @ show_hex_padded 8 (unat (g_ack_num g)) @ [newline]
     @ ''  Data Offset:        '' @ show_nat (unat (g_data_offset g))
     @ '' ('' @ show_nat (unat (g_tcp_header_length g)) @ '' bytes)'' @ [newline]
     @ ''  Flags:              '' @ flags_text g @ [newline]
     @ ''  Window:             0x'' @ show_hex_padded 4 (unat (g_window g)) @ [newline]
     @ ''  Checksum:           0x'' @ show_hex_padded 4 (unat (g_tcp_checksum g)) @ [newline]
     @ ''  Urgent Pointer:     0x'' @ show_hex_padded 4 (unat (g_urgent_pointer g)) @ [newline] @ ''}''"

lemma PrintTcpHeader_text: "plain_format os \<Longrightarrow> PrintTcpHeader g os = write_text (tcp_text g) os"
  by (simp add: PrintTcpHeader_def tcp_text_def)

lemma tcp_text_inject:
  "tcp_text g = tcp_text g' \<longleftrightarrow>
     g_source_port g = g_source_port g' \<and> g_dest_port g = g_dest_port g' \<and> g_seq_num g = g_seq_num g'
   \<and> g_ack_num g = g_ack_num g' \<and> g_data_offset g = g_data_offset g'
   \<and> g_tcp_header_length g = g_tcp_header_length g' \<and> same_control g g' \<and> g_window g = g_window g'
   \<and> g_tcp_checksum g = g_tcp_checksum g' \<and> g_urgent_pointer g = g_urgent_pointer g'"
  unfolding tcp_text_def
  by (simp add: show_nat_append_iff flags_text_append_iff flip: word_unat_eq_iff)

lemma tcp_getters_mirror: "TcpPacketView_getters (TcpHeader_wire h @ rest) = TcpHeader_getters h"
  by (simp add: TcpPacketView_getters_def TcpHeader_getters_def TcpPacketView_getter_defs
      TcpHeader_getter_defs TcpHeader_wire_nth)

text \<open>The dump of a TCP header appends a text and restores the stream's format; struct and view
  print the same text; two headers have the same dump exactly when they agree on every field,
  the data offset and the six control bits. The reserved bits are the only ones that do not show.\<close>

theorem TCP_dump_faithful:
  assumes "plain_format os"
  shows "(\<exists>text. TcpHeader_print h os = os\<lparr>os_text := os_text os @ text\<rparr>)
    \<and> TcpPacketView_print (TcpHeader_wire h @ rest) os = TcpHeader_print h os
    \<and> (TcpHeader_print h os = TcpHeader_print h' os \<longleftrightarrow>
        th_source_port h = th_source_port h' \<and> th_dest_port h = th_dest_port h'
        \<and> th_seq_num h = th_seq_num h' \<and> th_ack_num h = th_ack_num h'
        \<and> TcpHeader_data_offset h = TcpHeader_data_offset h' \<and> TcpHeader_control h = TcpHeader_control h'
        \<and> th_window h = th_window h' \<and> th_checksum h = th_checksum h'
        \<and> th_urgent_pointer h = th_urgent_pointer h')"
proof -
  have "tcp_text (TcpHeader_getters h) = tcp_text (TcpHeader_getters h') \<longleftrightarrow>
        th_source_port h = th_source_port h' \<and> th_dest_port h = th_dest_port h'
        \<and> th_seq_num h = th_seq_num h' \<and> th_ack_num h = th_ack_num h'
        \<and> TcpHeader_data_offset h = TcpHeader_data_offset h' \<and> TcpHeader_control h = TcpHeader_control h'
        \<and> th_window h = th_window h' \<and> th_checksum h = th_checksum h'
        \<and> th_urgent_pointer h = th_urgent_pointer h'"
    by (auto simp: tcp_text_inject TcpHeader_getters_def same_control_def TcpHeader_control_def
        TcpHeader_source_port_ntoh_def TcpHeader_dest_port_ntoh_def TcpHeader_seq_num_ntoh_def
        TcpHeader_ack_num_ntoh_def TcpHeader_header_length_def TcpHeader_window_ntoh_def
        TcpHeader_checksum_ntoh_def TcpHeader_urgent_pointer_ntoh_def)
  then show ?thesis
    using assms
    by (simp add: TcpHeader_print_def TcpPacketView_print_def tcp_getters_mirror PrintTcpHeader_text)
      (auto simp: write_text_def)
qed

theorem TCP_dump_faithful_witness:
  "TcpHeader_print TcpHeader_zero os_new \<noteq> TcpHeader_print (TcpHeader_zero\<lparr>th_window := 7\<rparr>) os_new"
  using TCP_dump_faithful [of os_new TcpHeader_zero "[]" "TcpHeader_zero\<lparr>th_window := 7\<rparr>"]
  by (simp add: TcpHeader_zero_def)

end
