(* ===== verification/Packet_Dump.thy ===== *)
theory Packet_Dump
  imports Header_Dump Tun_Device
begin

text \<open>
  \<^verbatim>\<open>PacketDump.cpp\<close>: the program that prints captured packets. The loop over a capture file advances by the total length of
  each packet; as the view accepts a packet whose total length is zero, the loop need not end, so it is
  a partial function and \<open>None\<close> is the value of a run that goes on for ever. The loop over the TUN
  device never ends by itself; it is a recursion over the events that the device delivers.

  The lemmas give the text of a hex dump by rows, the exact condition under which the dump of a file
  ends, and the complete replay of a file that consists of written datagrams.
\<close>

definition kBufferSize :: nat where
  "kBufferSize = 65536"

text \<open>One iteration of the loop of \<^verbatim>\<open>PrintPayload\<close>.\<close>

definition print_byte :: "bytes \<Rightarrow> nat \<Rightarrow> nat \<Rightarrow> ostream \<Rightarrow> ostream" where
  "print_byte payload shown i os =
     (let os = (if i mod 16 = 0 then put_text ''    '' os else os);
          os = emit [set_base Hexadecimal, set_width 2, set_fill (CHR ''0''), put_nat (unat (payload ! i)),
                     put_text '' ''] os
      in if i mod 16 = 15 \<or> i = shown - 1 then put_text [newline] os else os)"

definition PrintPayload :: "bytes \<Rightarrow> ostream \<Rightarrow> ostream" where
  "PrintPayload payload os =
     (let kMaxBytes = 64;
          shown = min (length payload) kMaxBytes;
          os = emit [put_text ''  Payload:         '', put_nat (length payload), put_text '' bytes'',
                     put_text (if shown < length payload then '' (showing first 64)'' else []),
                     put_text [newline]] os;
          os = fold (print_byte payload shown) [0..<shown] os
      in emit [set_base Decimal, set_fill (CHR '' '')] os)"

definition DumpPacket :: "bytes \<Rightarrow> ostream \<Rightarrow> ostream" where
  "DumpPacket packet = emit [IPv4PacketView_print packet, put_text [newline],
     PrintPayload (IPv4PacketView_payload packet), put_text [newline]]"

text \<open>The loop of \<^verbatim>\<open>DumpFromFile\<close>: the data, the offset and the number of packets so far.\<close>

partial_function (option) dump_file_loop ::
  "bytes \<Rightarrow> nat \<Rightarrow> nat \<Rightarrow> console \<Rightarrow> (nat \<times> console) option" where
  "dump_file_loop data offset packet_count c =
     (if offset < length data then
        (case IPv4PacketView_Parse (drop offset data) of
           None \<Rightarrow> Some (packet_count, to_cerr [put_text ''Skipping '', put_nat (length data - offset),
             put_text ('' trailing bytes: not a valid IPv4 packet'' @ [newline])] c)
         | Some packet \<Rightarrow>
             dump_file_loop data (offset + unat (IPv4PacketView_total_length_ntoh packet)) (packet_count + 1)
               (to_cout [DumpPacket packet] c))
      else Some (packet_count, c))"

text \<open>The file system is a parameter; the result is the exit code, 1 when the file cannot be opened.\<close>

definition DumpFromFile :: "(string \<Rightarrow> bytes option) \<Rightarrow> string \<Rightarrow> console \<Rightarrow> (nat \<times> console) option" where
  "DumpFromFile files path c =
     (case files path of
        None \<Rightarrow> Some (1, to_cerr [put_text ''Cannot open file: '', put_text path, put_text [newline]] c)
      | Some data \<Rightarrow> do {
          (packet_count, c) \<leftarrow> dump_file_loop data 0 0 c;
          Some (0, to_cout [put_text ''Read '', put_nat packet_count, put_text ('' packet(s)'' @ [newline])] c)
        })"

text \<open>The loop of \<^verbatim>\<open>DumpFromTun\<close>. A failed read yields a length beyond the buffer, and the span over it
  is undefined behaviour: \<open>None\<close>.\<close>

fun dump_tun_loop :: "TunDevice \<Rightarrow> tun_event list \<Rightarrow> console \<Rightarrow> console option" where
  "dump_tun_loop tun [] c = Some c"
| "dump_tun_loop tun (ev # evs) c =
     (let (buf, bytes_read) = TunDevice_tun_read tun ev kBufferSize
      in if bytes_read = 0 then dump_tun_loop tun evs c
         else
           let c = to_cout [put_text ''Read '', put_nat (unat bytes_read), put_text ('' bytes'' @ [newline])] c
           in if kBufferSize < unat bytes_read then None
              else
                case IPv4PacketView_Parse (take (unat bytes_read) buf) of
                  None \<Rightarrow> dump_tun_loop tun evs
                    (to_cerr [put_text (''Not a valid IPv4 packet, skipping'' @ [newline])] c)
                | Some packet \<Rightarrow> dump_tun_loop tun evs (to_cout [DumpPacket packet] c))"

text \<open>The exit code is 1 when the device cannot be opened. The socket and the daemon of the stack that the program
  also creates have no part in the output.\<close>

definition DumpFromTun :: "tun_driver \<Rightarrow> string \<Rightarrow> tun_event list \<Rightarrow> console \<Rightarrow> (nat \<times> console) option" where
  "DumpFromTun d interface evs c =
     (case TunDevice_new d (Some interface) of
        None \<Rightarrow> Some (1, c)
      | Some tun \<Rightarrow> map_option (Pair 0) (dump_tun_loop tun evs
          (to_cout [put_text ''Listening on '', put_text interface, put_text (''...'' @ [newline])] c)))"

definition PacketDump_PrintUsage :: "string \<Rightarrow> ostream \<Rightarrow> ostream" where
  "PacketDump_PrintUsage program = emit
     [put_text (''Usage:'' @ [newline]),
      put_text ''  '', put_text program, put_text ''                    '',
      put_text (''read packets from TUN device (tun0)'' @ [newline]),
      put_text ''  '', put_text program, put_text '' --tun <name>       '',
      put_text (''read packets from the given TUN device'' @ [newline]),
      put_text ''  '', put_text program, put_text '' --file <path>      '',
      put_text (''replay packets from a binary capture file'' @ [newline])]"

text \<open>\<^verbatim>\<open>main\<close>: \<open>argv\<close> is the list of arguments with the program name first.\<close>

definition PacketDump_main ::
  "(string \<Rightarrow> bytes option) \<Rightarrow> tun_driver \<Rightarrow> tun_event list \<Rightarrow> string list \<Rightarrow> console
     \<Rightarrow> (nat \<times> console) option" where
  "PacketDump_main files d evs argv c =
     (if length argv = 1 then DumpFromTun d ''tun0'' evs c
      else if length argv = 3 \<and> argv ! 1 = ''--file'' then DumpFromFile files (argv ! 2) c
      else if length argv = 3 \<and> argv ! 1 = ''--tun''
      then DumpFromTun d (argv ! 2) evs c
      else Some (1, to_cout [PacketDump_PrintUsage (hd argv)] c))"

subsection \<open>The hex dump\<close>

text \<open>The rows of the dump: sixteen bytes each, the last one shorter.\<close>

definition hex_byte :: "u8 \<Rightarrow> string" where
  "hex_byte b = show_hex_padded 2 (unat b) @ '' ''"

function hex_rows :: "bytes \<Rightarrow> string" where
  "hex_rows xs =
     (if xs = [] then [] else ''    '' @ concat (map hex_byte (take 16 xs)) @ [newline] @ hex_rows (drop 16 xs))"
  by auto
termination by (relation "measure length") auto

declare hex_rows.simps [simp del]

definition payload_text :: "bytes \<Rightarrow> string" where
  "payload_text payload = ''  Payload:         '' @ show_nat (length payload) @ '' bytes''
     @ (if 64 < length payload then '' (showing first 64)'' else []) @ [newline] @ hex_rows (take 64 payload)"

definition byte_text :: "bytes \<Rightarrow> nat \<Rightarrow> string" where
  "byte_text xs i = (if i mod 16 = 0 then ''    '' else []) @ hex_byte (xs ! i)
     @ (if i mod 16 = 15 \<or> i = length xs - 1 then [newline] else [])"

lemma row_prefix:
  "m \<le> 15 \<Longrightarrow> m < length xs \<Longrightarrow> concat (map (byte_text xs) [0..<m]) =
     (if m = 0 then [] else ''    '') @ concat (map hex_byte (take m xs))"
  by (induction m) (auto simp: byte_text_def take_Suc_conv_app_nth)

lemma row_text:
  assumes "0 < length xs" and "n = min 16 (length xs)"
  shows "concat (map (byte_text xs) [0..<n]) = ''    '' @ concat (map hex_byte (take 16 xs)) @ [newline]"
proof -
  define m where "m = n - 1"
  have n: "n = Suc m" "m \<le> 15" "m < length xs"
    using assms unfolding m_def by linarith+
  have "m mod 16 = 15 \<or> m = length xs - 1" using assms n by (auto simp: min_def split: if_splits)
  then have last: "byte_text xs m = (if m = 0 then ''    '' else []) @ hex_byte (xs ! m) @ [newline]"
    using n(2) by (simp add: byte_text_def)
  have "take 16 xs = take m xs @ [xs ! m]"
    using assms(2) n(1,3) by (simp flip: take_Suc_conv_app_nth) (simp add: min_def)
  then show ?thesis
    unfolding n(1) by (simp add: row_prefix [OF n(2,3)] last)
qed

lemma rows_text: "concat (map (byte_text xs) [0..<length xs]) = hex_rows xs"
proof (induction xs rule: hex_rows.induct)
  case (1 xs)
  show ?case
  proof (cases "length xs \<le> 16")
    case True
    then show ?thesis
      using row_text [of xs "length xs"] by (cases "xs = []") (simp_all add: hex_rows.simps)
  next
    case False
    let ?ys = "drop 16 xs"
    have shift: "map (byte_text xs) [16..<length xs] = map (byte_text ?ys) [0..<length ?ys]"
    proof (rule nth_equalityI)
      fix i assume "i < length (map (byte_text xs) [16..<length xs])"
      then have "i < length xs - 16" by simp
      moreover have "16 + i = length xs - 1 \<longleftrightarrow> i = length xs - 16 - 1" using False by linarith
      ultimately show "map (byte_text xs) [16..<length xs] ! i = map (byte_text ?ys) [0..<length ?ys] ! i"
        by (simp add: byte_text_def)
    qed simp
    have "[0..<length xs] = [0..<16] @ [16..<length xs]" using False upt_add_eq_append [of 0 16 "length xs - 16"] by simp
    moreover have "concat (map (byte_text xs) [0..<16]) = ''    '' @ concat (map hex_byte (take 16 xs)) @ [newline]"
      using row_text [of xs 16] False by (cases xs) simp_all
    moreover have "xs \<noteq> []" using False by auto
    moreover from this have "concat (map (byte_text ?ys) [0..<length ?ys]) = hex_rows ?ys" by (rule 1)
    ultimately show ?thesis
      using shift hex_rows.simps [of xs] by (simp only: map_append concat_append if_False append_assoc)
  qed
qed

text \<open>Within the loop the stream is in hexadecimal with zeros as fill, after the first byte.\<close>

definition loop_format :: "nat \<Rightarrow> ostream \<Rightarrow> string \<Rightarrow> ostream" where
  "loop_format i os text = (if i = 0 then write_text text os
     else write_text text os\<lparr>os_base := Hexadecimal, os_fill := CHR ''0''\<rparr>)"

lemma print_byte_step:
  assumes "plain_format os" and "shown = length (take shown payload)" and "i < shown"
  shows "print_byte payload shown i (loop_format i os text) =
    loop_format (Suc i) os (text @ byte_text (take shown payload) i)"
  using assms
  by (cases os) (simp add: print_byte_def loop_format_def byte_text_def hex_byte_def write_text_def emit_def
      plain_format_def put_text_def put_nat_def set_base_def set_fill_def set_width_def show_hex_padded_def
      Let_def)

lemma print_bytes:
  assumes "plain_format os" and "shown = length (take shown payload)" and "n \<le> shown"
  shows "fold (print_byte payload shown) [0..<n] os =
    loop_format n os (concat (map (byte_text (take shown payload)) [0..<n]))"
  using assms(3)
proof (induction n)
  case (Suc n)
  then show ?case using print_byte_step [OF assms(1,2), of n] by simp
qed (simp add: loop_format_def)

lemma PrintPayload_text:
  assumes "plain_format os"
  shows "PrintPayload payload os = write_text (payload_text payload) os"
proof -
  let ?n = "min (length payload) 64"
  define os1 where "os1 = write_text (''  Payload:         '' @ show_nat (length payload) @ '' bytes''
     @ (if 64 < length payload then '' (showing first 64)'' else []) @ [newline]) os"
  have p: "plain_format os1" using assms by (simp add: os1_def)
  have t: "take ?n payload = take 64 payload" "?n = length (take ?n payload)" by (simp_all add: min_def)
  have "fold (print_byte payload ?n) [0..<?n] os1 = loop_format ?n os1 (hex_rows (take 64 payload))"
    using print_bytes [OF p t(2), of ?n] rows_text [of "take ?n payload"] t by simp
  moreover have "emit [set_base Decimal, set_fill (CHR '' '')] (loop_format k os1 s) = write_text s os1" for k s
    using p by (cases os1) (simp add: loop_format_def emit_def set_base_def set_fill_def write_text_def
        plain_format_def)
  moreover have "PrintPayload payload os =
      emit [set_base Decimal, set_fill (CHR '' '')] (fold (print_byte payload ?n) [0..<?n] os1)"
    using assms by (simp add: PrintPayload_def os1_def Let_def min_def)
  ultimately show ?thesis by (simp add: os1_def payload_text_def)
qed

definition packet_text :: "bytes \<Rightarrow> string" where
  "packet_text packet = ipv4_text (IPv4PacketView_getters packet) @ [newline]
     @ payload_text (IPv4PacketView_payload packet) @ [newline]"

lemma DumpPacket_text: "plain_format os \<Longrightarrow> DumpPacket packet os = write_text (packet_text packet) os"
proof -
  assume "plain_format os"
  moreover from this have "emit (IPv4PacketView_print packet # ops) os =
      emit ops (write_text (ipv4_text (IPv4PacketView_getters packet)) os)" for ops
    by (simp add: emit_def IPv4PacketView_print_def PrintIPv4Header_text)
  moreover have "emit (PrintPayload p # ops) os' = emit ops (write_text (payload_text p) os')"
    if "plain_format os'" for p ops os'
    using that by (simp add: emit_def PrintPayload_text)
  ultimately show ?thesis by (simp add: DumpPacket_def packet_text_def)
qed

subsection \<open>The dump of a file\<close>

text \<open>The walk over the file reaches a packet that the view accepts although its total length is zero.\<close>

inductive stalls :: "bytes \<Rightarrow> nat \<Rightarrow> bool" for data :: bytes where
  Zero: "i < length data \<Longrightarrow> IPv4PacketView_Parse (drop i data) = Some packet \<Longrightarrow>
    IPv4PacketView_total_length_ntoh packet = 0 \<Longrightarrow> stalls data i"
| Next: "i < length data \<Longrightarrow> IPv4PacketView_Parse (drop i data) = Some packet \<Longrightarrow>
    stalls data (i + unat (IPv4PacketView_total_length_ntoh packet)) \<Longrightarrow> stalls data i"

lemma stalls_step:
  assumes "i < length data" and "IPv4PacketView_Parse (drop i data) = Some packet"
  shows "stalls data i \<longleftrightarrow> IPv4PacketView_total_length_ntoh packet = 0
    \<or> stalls data (i + unat (IPv4PacketView_total_length_ntoh packet))"
  using assms by (auto elim: stalls.cases intro: stalls.intros)

lemma stalls_inside: "stalls data i \<Longrightarrow> i < length data \<and> IPv4PacketView_Parse (drop i data) \<noteq> None"
  by (auto elim: stalls.cases)

lemma dump_file_loop_diverges: "dump_file_loop data i n c = Some r \<Longrightarrow> \<not> stalls data i"
proof (induction data i n c r rule: dump_file_loop.raw_induct [rotated, consumes 1])
  case (1 loop data i n c r)
  show ?case
  proof (cases "i < length data \<and> IPv4PacketView_Parse (drop i data) \<noteq> None")
    case True
    then obtain packet where p: "i < length data" "IPv4PacketView_Parse (drop i data) = Some packet" by auto
    let ?len = "IPv4PacketView_total_length_ntoh packet"
    have "loop data (i + unat ?len) (n + 1) (to_cout [DumpPacket packet] c) = Some r"
      using 1(2) p by simp
    then have "\<not> stalls data (i + unat ?len)" by (rule 1(1))
    then show ?thesis using stalls_step [OF p] by auto
  qed (auto dest: stalls_inside)
qed

lemma dump_file_loop_returns: "\<not> stalls data i \<Longrightarrow> \<exists>r. dump_file_loop data i n c = Some r"
proof (induction "length data - i" arbitrary: i n c rule: less_induct)
  case less
  show ?case
  proof (cases "i < length data \<and> IPv4PacketView_Parse (drop i data) \<noteq> None")
    case True
    then obtain packet where p: "i < length data" "IPv4PacketView_Parse (drop i data) = Some packet" by auto
    let ?len = "unat (IPv4PacketView_total_length_ntoh packet)"
    have "\<not> stalls data (i + ?len)" "0 < ?len"
      using less.prems stalls_step [OF p] by (auto simp: unat_gt_0)
    then show ?thesis
      using less.hyps [of "i + ?len"] p by (simp add: dump_file_loop.simps [of data i])
  qed (auto simp: dump_file_loop.simps [of data i])
qed

text \<open>C21. The dump of a capture file ends exactly when the walk over the file meets no packet of total
  length zero. The view accepts such a packet (version 4, header length zero), the offset does not
  advance, and the program prints the packet for ever: twenty bytes are enough to hang it.\<close>

theorem dump_file_ends_iff:
  "((\<exists>r. DumpFromFile files path c = Some r) \<longleftrightarrow>
      (\<forall>data. files path = Some data \<longrightarrow> \<not> stalls data 0))
   \<and> stalls (0x40 # replicate 19 0) 0"
proof
  show "(\<exists>r. DumpFromFile files path c = Some r) \<longleftrightarrow>
      (\<forall>data. files path = Some data \<longrightarrow> \<not> stalls data 0)"
    using dump_file_loop_returns [of _ 0 0 c] dump_file_loop_diverges [of _ 0 0 c]
    by (fastforce simp: DumpFromFile_def split: option.splits bind_splits)
  let ?bs = "0x40 # replicate 19 0 :: bytes"
  have "BE16 ?bs 2 = 0" by (simp add: BE16_def word_of_bytes_def)
  then have "IPv4PacketView_valid ?bs" "IPv4PacketView_total_length_ntoh ?bs = 0"
    by (simp_all add: IPv4PacketView_valid_def IPv4PacketView_getter_defs)
  then show "stalls ?bs 0" by (intro Zero [of _ _ ?bs]) (simp_all add: IPv4PacketView_Parse_def)
qed

theorem dump_file_ends_iff_witness:
  "DumpFromFile (\<lambda>_. Some (0x40 # replicate 19 0)) ''capture'' console_new = None
   \<and> (\<exists>r. DumpFromFile (\<lambda>_. None) ''capture'' console_new = Some r)"
  using dump_file_ends_iff [of "\<lambda>_. Some (0x40 # replicate 19 0)" "''capture''" console_new]
    dump_file_ends_iff [of "\<lambda>_. None" "''capture''" console_new]
  by (cases "DumpFromFile (\<lambda>_. Some (0x40 # replicate 19 0)) ''capture'' console_new") auto

text \<open>The getters and the payload of a written datagram do not depend on what follows it.\<close>

lemma encode_followed:
  assumes "IPv4Header_version (ip_header p) = 4" and "IPv4Header_IHL (ip_header p) = 5"
    and "20 + length (ip_payload p) \<le> 65535"
  shows "IPv4PacketView_Parse (IPv4Packet_encode p @ rest) = Some (IPv4Packet_encode p @ rest)"
    and "unat (IPv4PacketView_total_length_ntoh (IPv4Packet_encode p @ rest)) = length (IPv4Packet_encode p)"
    and "packet_text (IPv4Packet_encode p @ rest) = packet_text (IPv4Packet_encode p)"
proof -
  let ?h = "IPv4Packet_final_header p"
  have e: "IPv4Packet_encode p @ rest = IPv4Header_wire ?h @ ip_payload p @ rest"
    by (simp add: IPv4Packet_encode_def)
  have g: "IPv4PacketView_getters (IPv4Packet_encode p @ rest) = IPv4PacketView_getters (IPv4Packet_encode p)"
    unfolding e using IPv4_getters_mirror [of ?h] by (simp add: IPv4Packet_encode_def)
  note fields = g [unfolded IPv4PacketView_getters_def ipv4_getters.simps, simplified]
  have hl: "unat (IPv4PacketView_header_length (IPv4Packet_encode p @ rest)) = 20"
    using assms(2) unfolding e by (simp add: IPv4Header_view_fields unat_header_length)
  have tl: "unat (of_nat (20 + length (ip_payload p)) :: u16) = 20 + length (ip_payload p)"
    using assms(3) by (intro unat_of_nat_small) simp
  show len: "unat (IPv4PacketView_total_length_ntoh (IPv4Packet_encode p @ rest)) = length (IPv4Packet_encode p)"
    unfolding e using tl IPv4Packet_header_len_20 [OF assms(2)]
    by (simp add: IPv4Header_view_fields IPv4Packet_encode_def del: of_nat_add)
  have "IPv4PacketView_valid (IPv4Packet_encode p @ rest)"
    using IPv4Packet_encode_view(1) [OF assms] fields by (simp add: IPv4PacketView_valid_def)
  then show "IPv4PacketView_Parse (IPv4Packet_encode p @ rest) = Some (IPv4Packet_encode p @ rest)"
    by (simp add: IPv4PacketView_Parse_def)
  have "IPv4PacketView_payload (IPv4Packet_encode p @ rest) = ip_payload p"
    unfolding IPv4PacketView_payload_def hl len by (simp add: IPv4Packet_encode_def)
  then show "packet_text (IPv4Packet_encode p @ rest) = packet_text (IPv4Packet_encode p)"
    using g IPv4Packet_encode_view(2) [OF assms] by (simp add: packet_text_def)
qed

definition written_datagram :: "IPv4Packet \<Rightarrow> bool" where
  "written_datagram p \<longleftrightarrow> IPv4Header_version (ip_header p) = 4 \<and> IPv4Header_IHL (ip_header p) = 5
     \<and> 20 + length (ip_payload p) \<le> 65535"

lemma dump_datagrams:
  assumes "list_all written_datagram ps" and "plain_format (cout c)"
  shows "dump_file_loop (done_bytes @ concat (map IPv4Packet_encode ps)) (length done_bytes) n c =
    Some (n + length ps, c\<lparr>cout := write_text (concat (map (\<lambda>p. packet_text (IPv4Packet_encode p)) ps)) (cout c)\<rparr>)"
  using assms
proof (induction ps arbitrary: done_bytes n c)
  case (Cons p ps)
  let ?data = "done_bytes @ concat (map IPv4Packet_encode (p # ps))"
  let ?view = "IPv4Packet_encode p @ concat (map IPv4Packet_encode ps)"
  have p: "IPv4Header_version (ip_header p) = 4" "IPv4Header_IHL (ip_header p) = 5"
      "20 + length (ip_payload p) \<le> 65535"
    using Cons.prems(1) by (simp_all add: written_datagram_def)
  have ne: "length done_bytes < length ?data" by (simp add: IPv4Packet_encode_def)
  have d: "drop (length done_bytes) ?data = ?view" by simp
  have "dump_file_loop ?data (length done_bytes) n c =
      dump_file_loop ?data (length done_bytes + length (IPv4Packet_encode p)) (n + 1) (to_cout [DumpPacket ?view] c)"
    unfolding dump_file_loop.simps [of ?data "length done_bytes"] d encode_followed [OF p]
    using ne encode_followed(2) [OF p] by simp
  also have "\<dots> = dump_file_loop ((done_bytes @ IPv4Packet_encode p) @ concat (map IPv4Packet_encode ps))
      (length (done_bytes @ IPv4Packet_encode p)) (n + 1)
      (c\<lparr>cout := write_text (packet_text (IPv4Packet_encode p)) (cout c)\<rparr>)"
    using Cons.prems(2) encode_followed(3) [OF p]
    by (simp add: to_cout_def emit_def DumpPacket_text)
  finally show ?case
    using Cons.IH [of "c\<lparr>cout := write_text (packet_text (IPv4Packet_encode p)) (cout c)\<rparr>"
        "done_bytes @ IPv4Packet_encode p" "n + 1"] Cons.prems
    by simp
qed (simp add: dump_file_loop.simps)

text \<open>C20. A capture that consists of datagrams as the stack writes them is replayed completely: every
  packet is found at its place, its header and its payload are printed once and in order, the
  count is right, nothing is skipped, and the program ends with exit code 0.\<close>

theorem dump_file_replays:
  assumes "files path = Some (concat (map IPv4Packet_encode ps))" and "list_all written_datagram ps"
    and "plain_format (cout c)"
  shows "DumpFromFile files path c = Some (0, c\<lparr>cout := write_text
    (concat (map (\<lambda>p. packet_text (IPv4Packet_encode p)) ps) @ ''Read '' @ show_nat (length ps)
      @ '' packet(s)'' @ [newline]) (cout c)\<rparr>)"
  using dump_datagrams [OF assms(2,3), of "[]" 0] assms(1,3)
  by (simp add: DumpFromFile_def to_cout_def)

theorem dump_file_replays_witness:
  "let p = \<lparr>ip_header = IPv4Header_set_ihl 5 (IPv4Header_set_version 4 IPv4Header_zero), ip_payload = [1, 2]\<rparr>
   in DumpFromFile (\<lambda>_. Some (IPv4Packet_encode p)) ''capture'' console_new =
     Some (0, console_new\<lparr>cout := write_text (packet_text (IPv4Packet_encode p) @ ''Read 1 packet(s)''
       @ [newline]) os_new\<rparr>)"
proof -
  let ?p = "\<lparr>ip_header = IPv4Header_set_ihl 5 (IPv4Header_set_version 4 IPv4Header_zero), ip_payload = [1, 2]\<rparr>"
  have "written_datagram ?p"
    by (simp add: written_datagram_def IPv4Header_version_def IPv4Header_IHL_def IPv4Header_set_ihl_def
        IPv4Header_set_version_def IPv4Header_zero_def)
  moreover have "show_nat 1 = ''1''" by (simp add: show_nat.simps digit_char_def char_of_def bit_Suc_0_iff)
  ultimately show ?thesis
    using dump_file_replays [of "\<lambda>_. Some (IPv4Packet_encode ?p)" "''capture''" "[?p]" console_new]
    by (simp add: Let_def) (simp add: console_new_def)
qed

end
