(* ===== verification/Application_Calls.thy ===== *)
theory Application_Calls
  imports Stream_Transfer Output_Streams
begin

text \<open>
  What the programs of the repository have in common: they convert command line arguments with
  \<^verbatim>\<open>std::stoul\<close> and \<^verbatim>\<open>std::stoi\<close>, and they make blocking calls on sockets while the daemon and other
  threads run.

  The other threads appear as the list of stack states that the calls of the program find, one for
  every attempt: a call that blocks is tried again on the next state. A program that has used up
  the list is still waiting (\<open>None\<close>). What the other threads are allowed to do between two
  attempts is stated where a theorem needs it.
\<close>

subsection \<open>Conversions\<close>

datatype conversion_error = Invalid_argument | Out_of_range

text \<open>The number at the start of a text after white space and an optional sign; text after the number
  is ignored.\<close>

definition leading_number :: "string \<Rightarrow> (bool \<times> nat) option" where
  "leading_number text =
     (let text = dropWhile is_space text;
          neg = (text \<noteq> [] \<and> hd text = CHR ''-'');
          text = (if text \<noteq> [] \<and> hd text \<in> {CHR ''-'', CHR ''+''} then tl text else text)
      in if text = [] \<or> \<not> is_digit (hd text) then None else Some (neg, fst (read_digits 0 text)))"

text \<open>\<^verbatim>\<open>std::stoul\<close> with a 64-bit \<^verbatim>\<open>unsigned long\<close>: a minus sign negates modulo \<open>2\<^sup>6\<^sup>4\<close>.\<close>

definition std_stoul :: "string \<Rightarrow> conversion_error + u64" where
  "std_stoul text =
     (case leading_number text of
        None \<Rightarrow> Inl Invalid_argument
      | Some (neg, n) \<Rightarrow>
          if 2 ^ 64 \<le> n then Inl Out_of_range
          else Inr (if neg then - of_nat n else of_nat n))"

definition std_stoi :: "string \<Rightarrow> conversion_error + int" where
  "std_stoi text =
     (case leading_number text of
        None \<Rightarrow> Inl Invalid_argument
      | Some (neg, n) \<Rightarrow>
          let v = (if neg then - int n else int n)
          in if v < - (2 ^ 31) \<or> 2 ^ 31 \<le> v then Inl Out_of_range else Inr v)"

lemma leading_number_show: "leading_number (show_nat n) = Some (False, n)"
proof -
  obtain d s where ds: "show_nat n = digit_char d # s" "d < 10" using show_nat_Cons by blast
  have "read_digits 0 (show_nat n) = (n, [])"
    using read_digits_show_nat [of 0 n "[]"] by simp
  with ds show ?thesis by (simp add: leading_number_def Let_def)
qed

lemma std_stoul_show: "n < 2 ^ 64 \<Longrightarrow> std_stoul (show_nat n) = Inr (of_nat n)"
  by (simp add: std_stoul_def leading_number_show)

lemma std_stoi_show: "n < 2 ^ 31 \<Longrightarrow> std_stoi (show_nat n) = Inr (int n)"
  by (simp add: std_stoi_def leading_number_show)

text \<open>What a program's loop over its arguments leads to: the usage text, a run with a configuration, or the
  exception of a conversion, which no program catches.\<close>

datatype 'c parsed_args = Show_usage | Run 'c | Throws conversion_error

text \<open>A buffer of characters as bytes, and back.\<close>

definition bytes_of_chars :: "string \<Rightarrow> bytes" where
  "bytes_of_chars = map (\<lambda>c. of_nat (of_char c))"

definition chars_of_bytes :: "bytes \<Rightarrow> string" where
  "chars_of_bytes = map (\<lambda>b. char_of (unat b))"

lemma chars_of_bytes_of_chars [simp]: "chars_of_bytes (bytes_of_chars s) = s"
proof -
  have "unat (of_nat (of_char c) :: u8) = of_char c" for c
    by (simp add: unat_of_nat)
  then show ?thesis by (simp add: chars_of_bytes_def bytes_of_chars_def comp_def)
qed

subsection \<open>Blocking calls\<close>

text \<open>A call that waits inside a buffer holds a pointer to the control block: when the block is destroyed
  meanwhile, going on is undefined behaviour, which is \<open>None\<close> as well.\<close>

definition block_gone :: "TcpSocket \<Rightarrow> TcpStack list \<Rightarrow> bool" where
  "block_gone k found \<longleftrightarrow> found \<noteq> [] \<and> get_tcb (hd found) (sock_id k) = None"

fun await_send :: "TcpSocket \<Rightarrow> bytes \<Rightarrow> TcpStack list \<Rightarrow> (nat \<times> TcpStack \<times> TcpStack list) option" where
  "await_send k data [] = None"
| "await_send k data (s # found) =
     (case TcpSocket_send k data s of
        Returns n s' \<Rightarrow> Some (n, s', found)
      | Blocks _ \<Rightarrow> if block_gone k found then None else await_send k data found
      | Undefined \<Rightarrow> None)"

fun await_recv :: "TcpSocket \<Rightarrow> nat \<Rightarrow> TcpStack list \<Rightarrow> (bytes \<times> TcpStack \<times> TcpStack list) option" where
  "await_recv k m [] = None"
| "await_recv k m (s # found) =
     (case TcpSocket_recv k m s of
        Returns data s' \<Rightarrow> Some (data, s', found)
      | Blocks _ \<Rightarrow> if block_gone k found then None else await_recv k m found
      | Undefined \<Rightarrow> None)"

text \<open>The wait of \<^verbatim>\<open>accept\<close> looks only at the queue; that the socket listens is checked once, before it.\<close>

fun accept_wait :: "TcpSocket \<Rightarrow> TcpStack list \<Rightarrow> (TcpSocket \<times> TcpStack \<times> TcpStack list) option" where
  "accept_wait k [] = None"
| "accept_wait k (s # found) =
     (case get_tcb s (sock_id k) of
        None \<Rightarrow> accept_wait k found
      | Some t \<Rightarrow>
          (case accept_queue t of
             [] \<Rightarrow> accept_wait k found
           | child_id # rest \<Rightarrow>
               Some (\<lparr>sock_id = child_id\<rparr>, modify_tcb (sock_id k) (\<lambda>t. t\<lparr>accept_queue := rest\<rparr>) s, found)))"

fun await_accept :: "TcpSocket \<Rightarrow> TcpStack list \<Rightarrow> (TcpSocket \<times> TcpStack \<times> TcpStack list) option" where
  "await_accept k [] = None"
| "await_accept k (s # found) =
     (case TcpSocket_accept k s of
        Returns child s' \<Rightarrow> Some (child, s', found)
      | Blocks _ \<Rightarrow> accept_wait k found
      | Undefined \<Rightarrow> None)"

text \<open>The wait at the end of \<^verbatim>\<open>connect\<close>.\<close>

fun await_connect :: "TcpSocket \<Rightarrow> TcpStack list \<Rightarrow> (TcpStack \<times> TcpStack list) option" where
  "await_connect k [] = None"
| "await_connect k (s # found) = (if TcpSocket_connect_ready k s then Some (s, found) else await_connect k found)"

text \<open>An operation that does not block acts on the next state that the thread finds.\<close>

definition next_state :: "TcpStack list \<Rightarrow> (TcpStack \<times> TcpStack list) option" where
  "next_state found = (case found of [] \<Rightarrow> None | s # found \<Rightarrow> Some (s, found))"

text \<open>The whole of \<^verbatim>\<open>connect\<close>.\<close>

definition await_connected ::
  "stack_env \<Rightarrow> IPv4Address \<Rightarrow> TcpSocket \<Rightarrow> TcpStack list \<Rightarrow> (TcpSocket \<times> TcpStack list) option" where
  "await_connected e addr k found = do {
     (s, found) \<leftarrow> next_state found;
     let (k, s) = TcpSocket_connect_start e addr k s;
     if get_tcb s (sock_id k) = None then Some (k, found)
     else do {
       (_, found) \<leftarrow> await_connect k found;
       Some (k, found)
     }
   }"

text \<open>\<^verbatim>\<open>close\<close>; the state that it leaves is the result.\<close>

definition await_close :: "stack_env \<Rightarrow> TcpSocket \<Rightarrow> TcpStack list \<Rightarrow> (TcpStack \<times> TcpStack list) option" where
  "await_close e k found = do {
     (s, found) \<leftarrow> next_state found;
     Some (TcpSocket_close e k s, found)
   }"

lemma await_send_Some:
  "await_send k data found = Some (n, s', rest) \<Longrightarrow>
     length rest < length found \<and> (\<exists>s \<in> set found. TcpSocket_send k data s = Returns n s')"
  by (induction k data found rule: await_send.induct) (auto split: outcome.splits if_splits)

lemma await_recv_Some:
  "await_recv k m found = Some (data, s', rest) \<Longrightarrow>
     length rest < length found \<and> (\<exists>s \<in> set found. TcpSocket_recv k m s = Returns data s')"
  by (induction k m found rule: await_recv.induct) (auto split: outcome.splits if_splits)

lemma await_send_suffix: "await_send k data found = Some (n, s', rest) \<Longrightarrow> set rest \<subseteq> set found"
  by (induction k data found rule: await_send.induct) (auto split: outcome.splits if_splits)

lemma await_recv_suffix: "await_recv k m found = Some (data, s', rest) \<Longrightarrow> set rest \<subseteq> set found"
  by (induction k m found rule: await_recv.induct) (auto split: outcome.splits if_splits)

text \<open>The number of bytes that \<^verbatim>\<open>send\<close> and \<^verbatim>\<open>recv\<close> report never exceeds what they were given.\<close>

lemma send_bounded: "TcpSocket_send k data s = Returns n s' \<Longrightarrow> n \<le> length data"
  by (auto simp: TcpSocket_send_def BlockingBuffer_write_def Let_def split: option.splits if_splits prod.splits)

lemma recv_bounded: "TcpSocket_recv k m s = Returns data s' \<Longrightarrow> length data \<le> m"
proof -
  have "length (snd (take_front Size b m)) \<le> m" for Size and b :: byte_buffer
    by (simp add: take_front_def Let_def case_prod_unfold)
  then show "TcpSocket_recv k m s = Returns data s' \<Longrightarrow> length data \<le> m"
    by (auto simp: TcpSocket_recv_def BlockingBuffer_read_def split: option.splits if_splits) (metis snd_conv)+
qed

subsection \<open>Sequences of calls\<close>

text \<open>The calls of a thread in order, with the data that each send offered and the number it
  returned, and with the data that each receive returned.\<close>

inductive send_calls :: "TcpSocket \<Rightarrow> TcpStack list \<Rightarrow> (bytes \<times> nat) list \<Rightarrow> TcpStack list \<Rightarrow> bool"
  for k :: TcpSocket where
  No_send: "send_calls k found [] found"
| One_send: "await_send k data found = Some (n, s, found1) \<Longrightarrow> send_calls k found1 cs rest \<Longrightarrow>
    send_calls k found ((data, n) # cs) rest"

inductive recv_calls :: "TcpSocket \<Rightarrow> TcpStack list \<Rightarrow> bytes list \<Rightarrow> TcpStack list \<Rightarrow> bool"
  for k :: TcpSocket where
  No_recv: "recv_calls k found [] found"
| One_recv: "await_recv k m found = Some (data, s, found1) \<Longrightarrow> recv_calls k found1 ds rest \<Longrightarrow>
    recv_calls k found (data # ds) rest"
| Send_between: "await_send k data found = Some (n, s, found1) \<Longrightarrow> recv_calls k found1 ds rest \<Longrightarrow>
    recv_calls k found ds rest"

definition accepted :: "(bytes \<times> nat) list \<Rightarrow> bytes" where
  "accepted cs = concat (map (\<lambda>(data, n). take n data) cs)"

lemma accepted_simps [simp]:
  "accepted [] = []" "accepted ((data, n) # cs) = take n data @ accepted cs"
  by (simp_all add: accepted_def)

subsection \<open>Examples\<close>

text \<open>A stack whose only socket has received data, and possibly the end of the stream.\<close>

definition example_received :: "bool \<Rightarrow> bytes \<Rightarrow> TcpStack" where
  "example_received ended data = example_stack ((example_block [])\<lparr>recv_buffer :=
     (if ended then force_wake_up (send_buffer (example_block data)) else send_buffer (example_block data))\<rparr>)"

lemma example_received_block:
  assumes "length data \<le> 65535"
  shows "\<exists>t. get_tcb (example_received ended data) 1 = Some t \<and> TCB_inv t \<and> recv_stream t = data
    \<and> send_stream t = [] \<and> is_forcefully_woken_up (recv_buffer t) = ended \<and> current_state t = ESTABLISHED"
proof -
  have "\<not> is_forcefully_woken_up (send_buffer (example_block data))"
    by (simp add: example_block_def BlockingBuffer_write_def BlockingBuffer_new_def MAX_IPV4_PACKET_SIZE_def
        case_prod_unfold Let_def)
  moreover have woken: "is_forcefully_woken_up (force_wake_up b)" for b :: byte_buffer
    by (simp add: force_wake_up_def)
  ultimately show ?thesis
    using example_block_simps [OF assms] example_block_simps [of "[]"]
    by (simp add: example_received_def TCB_inv_def woken)
qed

lemma await_example:
  assumes "length data \<le> 65535"
  shows "data \<noteq> [] \<or> ended \<Longrightarrow>
      \<exists>s. await_recv \<lparr>sock_id = 1\<rparr> m (example_received ended data # found) = Some (take m data, s, found)"
    and "\<exists>s. await_send \<lparr>sock_id = 1\<rparr> xs (example_received ended data # found) = Some (min (length xs) 65535, s, found)"
proof -
  obtain t where t: "get_tcb (example_received ended data) 1 = Some t" "TCB_inv t" "recv_stream t = data"
      "send_stream t = []" "is_forcefully_woken_up (recv_buffer t) = ended"
    using example_received_block [OF assms] by blast
  show "\<exists>s. await_recv \<lparr>sock_id = 1\<rparr> m (example_received ended data # found) = Some (take m data, s, found)"
    if "data \<noteq> [] \<or> ended"
    using recv_returns [of "example_received ended data" "\<lparr>sock_id = 1\<rparr>" t m] t that by auto
  show "\<exists>s. await_send \<lparr>sock_id = 1\<rparr> xs (example_received ended data # found) = Some (min (length xs) 65535, s, found)"
    using send_returns [of "example_received ended data" "\<lparr>sock_id = 1\<rparr>" t xs] t by auto
qed

end
