(* ===== verification/Http_Client.thy ===== *)
theory Http_Client
  imports Application_Calls
begin

text \<open>
  \<^verbatim>\<open>http_client.cpp\<close>: a GET request over one connection. The program is modelled from its arguments
  to its exit code and its output; the elapsed time that it reports is a parameter. A run that has not come to
  its end, because a call still waits or because the name of a state cannot be printed, is \<open>None\<close>.

  The lemmas show that a target given by an address and a port is the endpoint that is connected to, and
  that the printed body is the whole stream of the server up to its end.
\<close>

record http_config =
  ip_str :: string
  http_port :: u16
  http_path :: string
  host_header :: string

definition http_PrintUsage :: "string \<Rightarrow> ostream \<Rightarrow> ostream" where
  "http_PrintUsage prog = emit
     [put_text (''TinyCP HTTP GET Client'' @ [newline]),
      put_text (''Usage:'' @ [newline]),
      put_text ''  '', put_text prog, put_text ('' [IP] [PORT] [PATH] [HOST]'' @ [newline]),
      put_text (''Example:'' @ [newline]),
      put_text ''  '', put_text prog, put_text ('' 172.217.171.174 80 / google.com'' @ [newline]),
      put_text ''  '', put_text prog,
      put_text ('' 10.0.0.1 8080 /index.html 10.0.0.1'' @ [newline, newline])]"

text \<open>The arguments after the program name. The port is converted to \<^verbatim>\<open>int\<close> and then cut to 16 bits.\<close>

definition http_args :: "string list \<Rightarrow> http_config parsed_args" where
  "http_args args =
     (if args \<noteq> [] \<and> (hd args = ''--help'' \<or> hd args = ''-h'') then Show_usage
      else
        let ip = (if 0 < length args then args ! 0 else ''172.217.171.174'')
        in case (if 1 < length args then std_stoi (args ! 1) else Inr 80) of
             Inl e \<Rightarrow> Throws e
           | Inr p \<Rightarrow> Run \<lparr>ip_str = ip, http_port = of_int p,
               http_path = (if 2 < length args then args ! 2 else ''/''),
               host_header = (if 3 < length args then args ! 3
                 else if 0 < length args then ip else ''google.com'')\<rparr>)"

definition http_banner :: "http_config \<Rightarrow> (ostream \<Rightarrow> ostream) list" where
  "http_banner config =
     [put_text (''========================================'' @ [newline]),
      put_text (''       TinyCP HTTP/1.1 GET Client       '' @ [newline]),
      put_text (''========================================'' @ [newline]),
      put_text ''Target IP:   '', put_text (ip_str config), put_text '':'', put_nat (unat (http_port config)),
      put_text [newline],
      put_text ''Path:        '', put_text (http_path config), put_text [newline],
      put_text ''Host Header: '', put_text (host_header config), put_text [newline],
      put_text (''Interface:   tun0'' @ [newline]),
      put_text (''----------------------------------------'' @ [newline])]"

definition http_target_endpoint :: "http_config \<Rightarrow> string" where
  "http_target_endpoint config = ip_str config @ '':'' @ show_nat (unat (http_port config))"

abbreviation crlf :: string where
  "crlf \<equiv> [CHR 0x0D, CHR 0x0A]"

definition http_request :: "http_config \<Rightarrow> string" where
  "http_request config = os_text (emit
     [put_text ''GET '', put_text (http_path config), put_text ('' HTTP/1.1'' @ crlf),
      put_text ''Host: '', put_text (host_header config), put_text crlf,
      put_text (''User-Agent: TinyCP/1.0 (Educational TCP Stack)'' @ crlf),
      put_text (''Accept: */*'' @ crlf),
      put_text (''Connection: close'' @ crlf @ crlf)] os_new)"

text \<open>The receive loop, with a buffer of 4096 bytes.\<close>

function http_receive :: "TcpSocket \<Rightarrow> bytes \<Rightarrow> TcpStack list \<Rightarrow> (bytes \<times> TcpStack list) option" where
  "http_receive k response_data found =
     (case await_recv k 4096 found of
        None \<Rightarrow> None
      | Some (data, _, rest) \<Rightarrow>
          if data = [] then Some (response_data, rest) else http_receive k (response_data @ data) rest)"
  by auto
termination
  by (relation "measure (\<lambda>(_, _, found). length found)") (auto dest: await_recv_Some)

declare http_receive.simps [simp del]

definition http_report :: "bytes \<Rightarrow> nat \<Rightarrow> (ostream \<Rightarrow> ostream) list" where
  "http_report response_data elapsed_ms =
     [put_text ([newline] @ ''========================================'' @ [newline]),
      put_text (''           HTTP Response Body           '' @ [newline]),
      put_text (''========================================'' @ [newline]),
      put_text (chars_of_bytes response_data), put_text [newline],
      put_text (''========================================'' @ [newline]),
      put_text ''Total Bytes Received: '', put_nat (length response_data), put_text ('' bytes'' @ [newline]),
      put_text ''Total Elapsed Time:   '', put_nat elapsed_ms, put_text ('' ms'' @ [newline]),
      put_text (''Connection Status:    CLOSED'' @ [newline]),
      put_text (''========================================'' @ [newline])]"

text \<open>The messages of the steps.\<close>

definition http_connecting :: "http_config \<Rightarrow> (ostream \<Rightarrow> ostream) list" where
  "http_connecting config =
     [put_text ''[1/4] Connecting to '', put_text (http_target_endpoint config), put_text ''...'', put_text [newline]]"

definition http_failed :: "string \<Rightarrow> (ostream \<Rightarrow> ostream) list" where
  "http_failed state_name =
     [put_text ''Failed to establish TCP connection. State: '', put_text state_name, put_text [newline]]"

definition http_sending :: "http_config \<Rightarrow> (ostream \<Rightarrow> ostream) list" where
  "http_sending config =
     [put_text ''[2/4] TCP Handshake ESTABLISHED!'', put_text [newline],
      put_text ''[3/4] Sending HTTP GET Request ('', put_nat (length (http_request config)),
      put_text ('' bytes):'' @ [newline]),
      put_text (''----------------------------------------'' @ [newline]),
      put_text (http_request config),
      put_text (''----------------------------------------'' @ [newline])]"

definition http_partial :: "nat \<Rightarrow> string \<Rightarrow> (ostream \<Rightarrow> ostream) list" where
  "http_partial n request =
     [put_text ''Warning: Only '', put_nat n, put_text '' of '', put_nat (length request),
      put_text '' bytes sent.'', put_text [newline]]"

definition http_receiving :: "(ostream \<Rightarrow> ostream) list" where
  "http_receiving = [put_text ''[4/4] Receiving HTTP Response...'', put_text [newline]]"

text \<open>The program after its arguments; the result is the exit code, the output, and the stack as the last
  operation leaves it.\<close>

definition http_session ::
  "stack_env \<Rightarrow> http_config \<Rightarrow> nat \<Rightarrow> TcpStack list \<Rightarrow> console \<Rightarrow> (nat \<times> console \<times> TcpStack) option" where
  "http_session e config elapsed_ms found c = do {
     let c = to_cout (http_banner config) c;
     let server_addr = IPv4Address_from_string (http_target_endpoint config);
     let c = to_cout (http_connecting config) c;
     (k, found) \<leftarrow> await_connected e server_addr TcpSocket_new found;
     (s, found) \<leftarrow> next_state found;
     if TcpSocket_state k s \<noteq> ESTABLISHED then do {
       (s, found) \<leftarrow> next_state found;
       state_name \<leftarrow> TCP_STATE_TO_STRING (TcpSocket_state k s);
       Some (1, to_cerr (http_failed state_name) c, s)
     } else do {
       let request = http_request config;
       let c = to_cout (http_sending config) c;
       (n, _, found) \<leftarrow> await_send k (bytes_of_chars request) found;
       let c = (if n \<noteq> length request then to_cerr (http_partial n request) c else c);
       let c = to_cout http_receiving c;
       (response_data, found) \<leftarrow> http_receive k [] found;
       (s, _) \<leftarrow> await_close e k found;
       Some (0, to_cout (http_report response_data elapsed_ms) c, s)
     }
   }"

text \<open>\<^verbatim>\<open>main\<close>; an exception of the conversion ends the program (\<open>Inl\<close>).\<close>

definition http_main ::
  "stack_env \<Rightarrow> string \<Rightarrow> string list \<Rightarrow> nat \<Rightarrow> TcpStack list \<Rightarrow> console \<Rightarrow> (conversion_error + nat \<times> console) option" where
  "http_main e prog args elapsed_ms found c =
     (case http_args args of
        Show_usage \<Rightarrow> Some (Inr (0, to_cout [http_PrintUsage prog] c))
      | Throws x \<Rightarrow> Some (Inl x)
      | Run config \<Rightarrow> map_option (\<lambda>(code, c, _). Inr (code, c)) (http_session e config elapsed_ms found c))"

subsection \<open>The target\<close>

text \<open>The endpoint that the client connects to: an address in dotted form and a decimal port from the command line
  give that endpoint; a port beyond 65535 is not refused but taken modulo 65536.\<close>

lemma http_target:
  assumes "n < 2 ^ 31"
  shows "\<exists>config. http_args (print_ip w # show_nat n # args) = Run config
    \<and> IPv4Address_from_string (http_target_endpoint config) = \<lparr>address = w, port = of_nat n\<rparr>"
proof -
  obtain d s where "show_nat (unat (drop_bit 24 w AND 0xFF)) = digit_char d # s" "d < 10"
    using show_nat_Cons by blast
  moreover have "digit_char d \<noteq> CHR ''-''"
  proof
    assume "digit_char d = CHR ''-''"
    then have "(of_char (CHR ''-'') :: nat) = 48 + d" using of_char_digit_char [OF \<open>d < 10\<close>] by simp
    then show False by simp
  qed
  ultimately have "hd (print_ip w) \<noteq> CHR ''-''" by (simp add: print_ip_def)
  then have "print_ip w \<noteq> ''--help''" "print_ip w \<noteq> ''-h''" by auto
  then show ?thesis
    using std_stoi_show [OF assms] from_string_endpoint [of "\<lparr>address = w, port = of_nat n\<rparr>"]
    by (simp add: http_args_def Let_def http_target_endpoint_def print_endpoint_def)
qed

subsection \<open>The response\<close>

text \<open>The states that the attempts of the receive loop find. In between, the other threads may only
  append to what the socket has received and signal the end of the stream, after which nothing more is
  appended. \<open>left\<close> is what the previous attempt left behind, \<open>data\<close> everything appended.\<close>

inductive delivers :: "TcpSocket \<Rightarrow> bytes \<Rightarrow> bool \<Rightarrow> TcpStack list \<Rightarrow> bytes \<Rightarrow> bool" for k :: TcpSocket where
  No_attempt: "delivers k left ended [] []"
| Attempt: "get_tcb s (sock_id k) = Some t \<Longrightarrow> TCB_inv t \<Longrightarrow> recv_stream t = left @ xs \<Longrightarrow>
    (ended \<longrightarrow> xs = [] \<and> is_forcefully_woken_up (recv_buffer t)) \<Longrightarrow>
    delivers k (drop 4096 (left @ xs)) (is_forcefully_woken_up (recv_buffer t)) found ys \<Longrightarrow>
    delivers k left ended (s # found) (xs @ ys)"

definition stream_ended :: "TcpSocket \<Rightarrow> TcpStack \<Rightarrow> bool" where
  "stream_ended k s = (case get_tcb s (sock_id k) of None \<Rightarrow> False | Some t \<Rightarrow> is_forcefully_woken_up (recv_buffer t))"

abbreviation ended_attempts :: "TcpSocket \<Rightarrow> TcpStack list \<Rightarrow> nat" where
  "ended_attempts k found \<equiv> length (filter (stream_ended k) found)"

lemma delivers_ended: "delivers k left True found data \<Longrightarrow> data = []"
  by (induction left True found data rule: delivers.induct) auto

lemma delivers_present: "delivers k left ended found data \<Longrightarrow> \<not> block_gone k found"
  by (cases rule: delivers.cases) (auto simp: block_gone_def)

lemma http_receive_step:
  assumes "get_tcb s (sock_id k) = Some t" and "TCB_inv t" and "\<not> block_gone k found"
  shows "http_receive k response (s # found) =
    (if recv_stream t \<noteq> [] then http_receive k (response @ take 4096 (recv_stream t)) found
     else if is_forcefully_woken_up (recv_buffer t) then Some (response, found)
     else http_receive k response found)"
proof (cases "recv_stream t \<noteq> [] \<or> is_forcefully_woken_up (recv_buffer t)")
  case True
  then obtain s' where "TcpSocket_recv k 4096 s = Returns (take 4096 (recv_stream t)) s'"
    using recv_returns [OF assms(1,2)] by blast
  then show ?thesis using True by (subst http_receive.simps) auto
next
  case False
  then have "TcpSocket_recv k 4096 s = Blocks s"
    using rb.rd_blocks [of MAX_IPV4_PACKET_SIZE "recv_buffer t" 4096] assms
    by (simp add: TcpSocket_recv_def TCB_inv_def)
  then show ?thesis using False assms(3) by (subst (1 2) http_receive.simps) simp
qed

text \<open>Every attempt after the end of the stream either takes a byte or ends the loop.\<close>

lemma http_receive_delivers:
  "delivers k left ended found data \<Longrightarrow> length left + length data < ended_attempts k found \<Longrightarrow>
     \<exists>rest. http_receive k response found = Some (response @ left @ data, rest)
       \<and> ended_attempts k found \<le> ended_attempts k rest + (length left + length data + 1)"
proof (induction left ended found data arbitrary: response rule: delivers.induct)
  case (Attempt s t left xs ended found ys)
  let ?w = "is_forcefully_woken_up (recv_buffer t)"
  have e: "stream_ended k s = ?w" using Attempt(1) by (simp add: stream_ended_def)
  note step = http_receive_step [OF Attempt(1,2) delivers_present [OF Attempt(5)]]
  show ?case
  proof (cases "recv_stream t = []")
    case True
    then have n: "left = []" "xs = []" using Attempt(3) by simp_all
    show ?thesis
    proof (cases ?w)
      case w: True
      have "ys = []" using Attempt(5) delivers_ended by (simp add: w)
      then show ?thesis using step True w n e by simp
    next
      case False
      then show ?thesis
        using step True n e Attempt(6,7) by auto
    qed
  next
    case False
    define r where "r = left @ xs"
    have r: "recv_stream t = r" "r \<noteq> []" using False Attempt(3) by (simp_all add: r_def)
    have l: "length (drop 4096 r) < length r" using r(2) by (cases r) simp_all
    have "length (drop 4096 r) + length ys < ended_attempts k found"
      using Attempt(7) l e by (auto simp: r_def split: if_splits)
    then obtain rest where
      "http_receive k (response @ take 4096 r) found = Some ((response @ take 4096 r) @ drop 4096 r @ ys, rest)"
      and a: "ended_attempts k found \<le> ended_attempts k rest + (length (drop 4096 r) + length ys + 1)"
      using Attempt(6) unfolding r_def by blast
    moreover have td: "take 4096 r @ drop 4096 r @ ys = r @ ys" by (metis append.assoc append_take_drop_id)
    ultimately have "http_receive k response (s # found) = Some (response @ r @ ys, rest)"
      using step [of response] r td by simp
    moreover have "ended_attempts k (s # found) \<le> ended_attempts k rest + (length r + length ys + 1)"
      using a l by simp
    ultimately show ?thesis by (simp add: r_def)
  qed
qed simp

definition http_transcript :: "http_config \<Rightarrow> bytes \<Rightarrow> nat \<Rightarrow> (ostream \<Rightarrow> ostream) list" where
  "http_transcript config data elapsed_ms = http_banner config @ http_connecting config @ http_sending config
     @ http_receiving @ http_report data elapsed_ms"

text \<open>C19. A run of the client that gets its connection ends with exit code 0 and prints the response in full.
  The hypotheses say that the connection is established, that the send call returns, and that from then on the
  other threads only append to the received data until they signal its end. Once the end has been signalled,
  one attempt for every byte and one more are enough. The body printed is all the data appended, in order, whatever
  the pieces in which it came, and its length is the one reported.\<close>

theorem http_session_prints_response:
  assumes "await_connected e (IPv4Address_from_string (http_target_endpoint config)) TcpSocket_new found =
      Some (k, s1 # found1)"
    and "TcpSocket_state k s1 = ESTABLISHED"
    and "await_send k (bytes_of_chars (http_request config)) found1 = Some (n, s2, found2)"
    and "delivers k [] False found2 data" and "length data + 1 < ended_attempts k found2"
  shows "\<exists>c' s'. http_session e config elapsed_ms found c = Some (0, c', s')
    \<and> cout c' = emit (http_transcript config data elapsed_ms) (cout c)
    \<and> (n = length (http_request config) \<longrightarrow> cerr c' = cerr c)"
proof -
  obtain rest where r: "http_receive k [] found2 = Some (data, rest)"
      "ended_attempts k found2 \<le> ended_attempts k rest + (length data + 1)"
    using http_receive_delivers [OF assms(4), of "[]"] assms(5) by auto
  then obtain s3 rest' where "rest = s3 # rest'" using assms(5) by (cases rest) auto
  then show ?thesis
    using assms(1-3) r(1)
    by (simp add: http_session_def next_state_def await_close_def http_transcript_def Let_def)
qed

lemma await_connected_example:
  "await_connected example_env b TcpSocket_new (TcpStack_new # example_received False [] # found) =
     Some (\<lparr>sock_id = 1\<rparr>, found)"
proof -
  obtain s' t where "TcpSocket_connect_start example_env b TcpSocket_new TcpStack_new = (\<lparr>sock_id = 1\<rparr>, s')"
      and g: "get_tcb s' = (get_tcb TcpStack_new)(1 \<mapsto> t)"
    using connect_start_facts [of TcpStack_new example_env b] by auto
  moreover have "TcpSocket_connect_ready \<lparr>sock_id = 1\<rparr> (example_received False [])"
    using example_received_block [of "[]" False] by (auto simp: TcpSocket_connect_ready_def)
  moreover have "get_tcb s' 1 \<noteq> None" using g by simp
  ultimately show ?thesis by (simp add: await_connected_def next_state_def)
qed

lemma delivers_example:
  assumes "length data \<le> 4096"
  shows "delivers \<lparr>sock_id = 1\<rparr> [] False (example_received False data # replicate n (example_received True [])) data"
    and "ended_attempts \<lparr>sock_id = 1\<rparr> (example_received False data # replicate n (example_received True [])) = n"
proof -
  let ?k = "\<lparr>sock_id = 1\<rparr>" and ?E = "example_received True []"
  obtain t where t: "get_tcb (example_received False data) 1 = Some t" "TCB_inv t" "recv_stream t = data"
      "\<not> is_forcefully_woken_up (recv_buffer t)"
    using example_received_block [of data False] assms by auto
  obtain u where u: "get_tcb ?E 1 = Some u" "TCB_inv u" "recv_stream u = []" "is_forcefully_woken_up (recv_buffer u)"
    using example_received_block [of "[]" True] by auto
  have "delivers ?k [] ended (replicate n ?E) []" for ended
  proof (induction n arbitrary: ended)
    case (Suc n)
    then show ?case using Attempt [of ?E ?k u "[]" "[]" ended "replicate n ?E" "[]"] u by simp
  qed (simp add: No_attempt)
  then show "delivers ?k [] False (example_received False data # replicate n ?E) data"
    using Attempt [of "example_received False data" ?k t "[]" data False "replicate n ?E" "[]"] t assms by simp
  show "ended_attempts ?k (example_received False data # replicate n ?E) = n"
    using t u by (simp add: stream_ended_def)
qed

theorem http_session_prints_response_witness:
  "\<exists>config c' s'. http_args [''10.0.0.1''] = Run config
     \<and> http_session example_env config 7 ([TcpStack_new, example_received False [], example_received False [],
         example_received False [], example_received False [72, 105]] @ replicate 4 (example_received True []))
         console_new = Some (0, c', s')
     \<and> cout c' = emit (http_transcript config [72, 105] 7) os_new"
proof -
  let ?k = "\<lparr>sock_id = 1\<rparr>" and ?R = "example_received False []"
    and ?D = "example_received False [72, 105] # replicate 4 (example_received True [])"
  obtain config where config: "http_args [''10.0.0.1''] = Run config" by (simp add: http_args_def Let_def)
  have s: "TcpSocket_state ?k ?R = ESTABLISHED"
    using example_received_block [of "[]" False] by (auto simp: TcpSocket_state_def)
  obtain s2 where "await_send ?k (bytes_of_chars (http_request config)) (?R # ?D) =
      Some (min (length (bytes_of_chars (http_request config))) 65535, s2, ?D)"
    using await_example(2) [of "[]"] by (metis le0 list.size(3))
  from http_session_prints_response [OF await_connected_example s this, of "[72, 105]" 7 console_new]
  show ?thesis
    using config delivers_example [of "[72, 105]" 4] by (auto simp: console_new_def)
qed

text \<open>When the attempt to connect ends without a connection, the client prints the name of the state on
  \<^verbatim>\<open>std::cerr\<close> and exits with code 1, having sent nothing.\<close>

lemma http_session_refused:
  assumes "await_connected e (IPv4Address_from_string (http_target_endpoint config)) TcpSocket_new found =
      Some (k, s1 # s2 # found1)"
    and "TcpSocket_state k s1 \<noteq> ESTABLISHED" and "TcpSocket_state k s2 \<noteq> TIME_WAIT"
  shows "\<exists>c' state_name. http_session e config elapsed_ms found c = Some (1, c', s2)
    \<and> TCP_STATE_TO_STRING (TcpSocket_state k s2) = Some state_name
    \<and> cerr c' = emit (http_failed state_name) (cerr c)"
proof -
  obtain state_name where "TCP_STATE_TO_STRING (TcpSocket_state k s2) = Some state_name"
    using assms(3) by (cases "TcpSocket_state k s2") (simp_all add: TCP_STATE_TO_STRING_def less_eq_TcpState_def)
  then show ?thesis using assms(1,2) by (simp add: http_session_def next_state_def Let_def)
qed

end
