(* ===== verification/Throughput_Benchmark.thy ===== *)
theory Throughput_Benchmark
  imports Application_Calls
begin

text \<open>
  \<^verbatim>\<open>throughput_benchmark.cpp\<close>: a client thread streams a repeating pattern to a server thread, both
  keep a rolling checksum, and the program compares them. The two threads are loops over blocking calls;
  sizes of type \<^verbatim>\<open>size_t\<close> are 64-bit words where they can wrap, and natural numbers in the loops, whose
  totals stay below the target. The progress display, the summary and \<^verbatim>\<open>main\<close> are in \<open>Benchmark_Report\<close>.

  The lemmas show what the checksums of the two threads are computed from, how far the comparison
  can be trusted, and when the program does not end.
\<close>

record BenchmarkConfig =
  total_mb :: u64
  chunk_size :: u64
  bidirectional :: bool

definition BenchmarkConfig_new :: BenchmarkConfig where
  "BenchmarkConfig_new = \<lparr>total_mb = 50, chunk_size = 16384, bidirectional = False\<rparr>"

definition bench_PrintUsage :: "string \<Rightarrow> ostream \<Rightarrow> ostream" where
  "bench_PrintUsage prog = emit
     [put_text (''TinyCP High-Speed Throughput Benchmark'' @ [newline]),
      put_text (''Usage:'' @ [newline]),
      put_text ''  '', put_text prog, put_text ('' [OPTIONS]'' @ [newline, newline]),
      put_text (''Options:'' @ [newline]),
      put_text (''  --mb <N>              Total data to transfer in Megabytes (default: 50)'' @ [newline]),
      put_text (''  --gb <N>              Total data to transfer in Gigabytes (e.g. --gb 1)'' @ [newline]),
      put_text (''  --chunk <bytes>       Application buffer chunk size in bytes (default: 16384)'' @ [newline]),
      put_text (''  --bidirectional       Enable bidirectional concurrent echo transfer'' @ [newline]),
      put_text (''  --help, -h            Show this help message'' @ [newline, newline])]"

definition FastChecksum :: "bytes \<Rightarrow> u32 \<Rightarrow> u32" where
  "FastChecksum data seed = fold (\<lambda>b sum. sum * 31 + ucast b) data seed"

text \<open>The loop over the arguments after the program name. An option that needs a value and is the last
  argument is skipped like an unknown one.\<close>

fun bench_args :: "string list \<Rightarrow> BenchmarkConfig \<Rightarrow> BenchmarkConfig parsed_args" where
  "bench_args [] config = Run config"
| "bench_args (arg # args) config =
     (if arg = ''--mb'' \<and> args \<noteq> [] then
        (case std_stoul (hd args) of Inl e \<Rightarrow> Throws e | Inr n \<Rightarrow> bench_args (tl args) (config\<lparr>total_mb := n\<rparr>))
      else if arg = ''--gb'' \<and> args \<noteq> [] then
        (case std_stoul (hd args) of
           Inl e \<Rightarrow> Throws e | Inr n \<Rightarrow> bench_args (tl args) (config\<lparr>total_mb := n * 1024\<rparr>))
      else if arg = ''--chunk'' \<and> args \<noteq> [] then
        (case std_stoul (hd args) of Inl e \<Rightarrow> Throws e | Inr n \<Rightarrow> bench_args (tl args) (config\<lparr>chunk_size := n\<rparr>))
      else if arg = ''--bidirectional'' then bench_args args (config\<lparr>bidirectional := True\<rparr>)
      else if arg = ''--help'' \<or> arg = ''-h'' then Show_usage
      else bench_args args config)"

definition bench_total_bytes :: "BenchmarkConfig \<Rightarrow> u64" where
  "bench_total_bytes config = total_mb config * 1024 * 1024"

definition bench_tx_chunk :: "BenchmarkConfig \<Rightarrow> bytes" where
  "bench_tx_chunk config = map (\<lambda>i. of_nat (i mod 251 + 1)) [0..<unat (chunk_size config)]"

text \<open>The listening socket of the server; the client's socket is a new one.\<close>

definition bench_server_addr :: IPv4Address where
  "bench_server_addr = IPv4Address_from_string ''10.0.0.3:9095''"

definition bench_setup :: "stack_env \<Rightarrow> TcpStack \<Rightarrow> TcpSocket \<times> TcpStack" where
  "bench_setup e s =
     (let (server_socket, s) = TcpSocket_bind e bench_server_addr TcpSocket_new s;
          s = TcpSocket_listen server_socket s
      in (server_socket, s))"

definition bench_banner :: "BenchmarkConfig \<Rightarrow> ostream \<Rightarrow> ostream" where
  "bench_banner config = emit
     [put_text (''======================================================='' @ [newline]),
      put_text (''         TinyCP High-Volume Throughput Benchmark       '' @ [newline]),
      put_text (''======================================================='' @ [newline]),
      put_text ''Target Volume:  '', put_nat (unat (total_mb config)), put_text '' MB ('',
      put_nat (unat (bench_total_bytes config)), put_text ('' bytes)'' @ [newline]),
      put_text ''Chunk Size:     '', put_nat (unat (chunk_size config)), put_text ('' bytes'' @ [newline]),
      put_text ''Mode:           '',
      put_text (if bidirectional config then ''Bidirectional Echo'' else ''Unidirectional Streaming''),
      put_text [newline],
      put_text (''-------------------------------------------------------'' @ [newline])]"

text \<open>The client's loop. Every send offers the chunk from its start.\<close>

function bench_client ::
  "bytes \<Rightarrow> nat \<Rightarrow> TcpSocket \<Rightarrow> nat \<Rightarrow> u32 \<Rightarrow> TcpStack list \<Rightarrow> (nat \<times> u32 \<times> TcpStack list) option" where
  "bench_client tx_chunk total_bytes k total_tx csum found =
     (if total_tx < total_bytes then
        (let to_send = min (length tx_chunk) (total_bytes - total_tx)
         in case await_send k (take to_send tx_chunk) found of
              None \<Rightarrow> None
            | Some (n, s, rest) \<Rightarrow>
                if n > 0
                then bench_client tx_chunk total_bytes k (total_tx + n) (FastChecksum (take n tx_chunk) csum) rest
                else bench_client tx_chunk total_bytes k total_tx csum rest)
      else Some (total_tx, csum, found))"
  by auto
termination
  by (relation "measure (\<lambda>(_, _, _, _, _, found). length found)") (auto dest: await_send_Some)

declare bench_client.simps [simp del]

text \<open>The server's loop; \<open>rx_size\<close> is the size of its buffer.\<close>

function bench_server ::
  "bool \<Rightarrow> nat \<Rightarrow> nat \<Rightarrow> TcpSocket \<Rightarrow> nat \<Rightarrow> u32 \<Rightarrow> TcpStack list \<Rightarrow> (nat \<times> u32 \<times> TcpStack list) option" where
  "bench_server echo rx_size total_bytes k total_rx csum found =
     (if total_rx < total_bytes then
        (let to_read = min rx_size (total_bytes - total_rx)
         in case await_recv k to_read found of
              None \<Rightarrow> None
            | Some (data, s, rest) \<Rightarrow>
                if data = [] then Some (total_rx, csum, rest)
                else
                  let csum = FastChecksum data csum; total_rx = total_rx + length data
                  in if echo
                     then (case await_send k data rest of
                             None \<Rightarrow> None
                           | Some (_, _, rest) \<Rightarrow> bench_server echo rx_size total_bytes k total_rx csum rest)
                     else bench_server echo rx_size total_bytes k total_rx csum rest)
      else Some (total_rx, csum, found))"
  by auto
termination
  by (relation "measure (\<lambda>(_, _, _, _, _, _, found). length found)")
    (fastforce dest: await_recv_Some await_send_Some)+

declare bench_server.simps [simp del]

text \<open>The two threads: what they store at their end is the result.\<close>

definition bench_server_thread ::
  "stack_env \<Rightarrow> BenchmarkConfig \<Rightarrow> TcpSocket \<Rightarrow> TcpStack list \<Rightarrow> (nat \<times> u32 \<times> TcpStack) option" where
  "bench_server_thread e config server_socket found = do {
     (accepted, _, found) \<leftarrow> await_accept server_socket found;
     (total_rx, csum, found) \<leftarrow> bench_server (bidirectional config) (unat (chunk_size config * 2))
       (unat (bench_total_bytes config)) accepted 0 0 found;
     (s, _) \<leftarrow> await_close e accepted found;
     Some (total_rx, csum, s)
   }"

definition bench_client_thread ::
  "stack_env \<Rightarrow> BenchmarkConfig \<Rightarrow> TcpSocket \<Rightarrow> TcpStack list \<Rightarrow> (nat \<times> u32 \<times> TcpStack) option" where
  "bench_client_thread e config client_socket found = do {
     (client_socket, found) \<leftarrow> await_connected e bench_server_addr client_socket found;
     (total_tx, csum, found) \<leftarrow> bench_client (bench_tx_chunk config) (unat (bench_total_bytes config))
       client_socket 0 0 found;
     (s, _) \<leftarrow> await_close e client_socket found;
     Some (total_tx, csum, s)
   }"

definition bench_checksum_match :: "u32 \<Rightarrow> u32 \<Rightarrow> nat \<Rightarrow> nat \<Rightarrow> bool" where
  "bench_checksum_match tx_checksum rx_checksum rx_final total_bytes \<longleftrightarrow>
     tx_checksum = rx_checksum \<and> rx_final = total_bytes"

subsection \<open>The rolling checksum\<close>

lemma FastChecksum_simps [simp]:
  "FastChecksum [] seed = seed"
  "FastChecksum (b # bs) seed = FastChecksum bs (seed * 31 + ucast b)"
  "FastChecksum (xs @ ys) seed = FastChecksum ys (FastChecksum xs seed)"
  by (simp_all add: FastChecksum_def)

lemma mult_31_inject: "(v :: u32) * 31 = w * 31 \<longleftrightarrow> v = w"
proof
  assume "v * 31 = w * 31"
  then have "v * (31 * 3186588639) = w * (31 * 3186588639)" by (simp only: mult.assoc [symmetric])
  moreover have "(31 :: u32) * 3186588639 = 1" by (simp add: word_unat_eq_iff unat_word_ariths)
  ultimately show "v = w" by (simp only: mult_1_right)
qed simp

lemma FastChecksum_inject_seed: "FastChecksum bs v = FastChecksum bs w \<longleftrightarrow> v = w"
  by (induction bs arbitrary: v w) (simp_all add: mult_31_inject)

lemma widen_inject: "(ucast (a :: u8) :: u32) = ucast b \<longleftrightarrow> a = b"
  by (metis unat_widen(2) word_unat_eq_iff)

text \<open>How far the integrity check can be trusted: changing one byte always changes the rolling checksum,
  whatever precedes and follows it, as 31 is odd; but raising a byte by one and lowering the next by
  31 does not, so equal checksums do not show that the data arrived unchanged.\<close>

theorem FastChecksum_one_byte:
  "(FastChecksum (xs @ a # ys) seed = FastChecksum (xs @ b # ys) seed \<longleftrightarrow> a = b)
   \<and> (a < 255 \<longrightarrow> 31 \<le> b \<longrightarrow>
       FastChecksum (xs @ a # b # ys) seed = FastChecksum (xs @ (a + 1) # (b - 31) # ys) seed)"
proof (intro conjI impI)
  show "FastChecksum (xs @ a # ys) seed = FastChecksum (xs @ b # ys) seed \<longleftrightarrow> a = b"
    by (simp add: FastChecksum_inject_seed widen_inject)
  assume "a < 255" and "31 \<le> b"
  then have "unat (a + 1) = unat a + 1" "unat (b - 31) = unat b - 31"
    by (simp_all add: word_less_nat_alt word_le_nat_alt unat_word_ariths unat_sub)
  then have "(ucast (a + 1) :: u32) = ucast a + 1" "(ucast (b - 31) :: u32) = ucast b - 31"
    using \<open>31 \<le> b\<close> by (simp_all add: word_unat_eq_iff unat_word_ariths word_le_nat_alt unat_sub)
  then show "FastChecksum (xs @ a # b # ys) seed = FastChecksum (xs @ (a + 1) # (b - 31) # ys) seed"
    by (simp add: FastChecksum_inject_seed algebra_simps)
qed

theorem FastChecksum_one_byte_witness:
  "FastChecksum ([1, 2] @ 7 # [9]) 0 \<noteq> FastChecksum ([1, 2] @ 8 # [9]) 0
   \<and> FastChecksum ([] @ 7 # 40 # [9]) 0 = FastChecksum ([] @ (7 + 1) # (40 - 31) # [9]) 0"
  using FastChecksum_one_byte [of "[1, 2]" 7 "[9]" 0 8] FastChecksum_one_byte [of "[]" 7 "[9]" 0 40]
  by (simp del: FastChecksum_simps)

subsection \<open>The two threads\<close>

lemma bench_client_unfold:
  "\<not> n < tot \<Longrightarrow> bench_client tx tot k n c found = Some (n, c, found)"
  "n < tot \<Longrightarrow> await_send k (take (min (length tx) (tot - n)) tx) found = None \<Longrightarrow>
     bench_client tx tot k n c found = None"
  "n < tot \<Longrightarrow> await_send k (take (min (length tx) (tot - n)) tx) found = Some (m, s, rest) \<Longrightarrow>
     bench_client tx tot k n c found
       = (if 0 < m then bench_client tx tot k (n + m) (FastChecksum (take m tx) c) rest
          else bench_client tx tot k n c rest)"
  by (simp_all add: bench_client.simps [of tx tot k n c found])

lemma bench_server_unfold:
  "\<not> n < tot \<Longrightarrow> bench_server echo m tot k n c found = Some (n, c, found)"
  "n < tot \<Longrightarrow> await_recv k (min m (tot - n)) found = None \<Longrightarrow> bench_server echo m tot k n c found = None"
  "n < tot \<Longrightarrow> await_recv k (min m (tot - n)) found = Some ([], s, rest) \<Longrightarrow>
     bench_server echo m tot k n c found = Some (n, c, rest)"
  "n < tot \<Longrightarrow> await_recv k (min m (tot - n)) found = Some (data, s, rest) \<Longrightarrow> data \<noteq> [] \<Longrightarrow>
     bench_server echo m tot k n c found
       = (if echo
          then (case await_send k data rest of
                  None \<Rightarrow> None
                | Some (_, _, rest) \<Rightarrow> bench_server echo m tot k (n + length data) (FastChecksum data c) rest)
          else bench_server echo m tot k (n + length data) (FastChecksum data c) rest)"
  by (simp_all add: bench_server.simps [of echo m tot k n c found])

text \<open>What a thread's calls hand over, as functions of the states that the thread finds: the bytes that the client's calls of
  \<^verbatim>\<open>send\<close> accept, and those that the server's calls of \<^verbatim>\<open>recv\<close> return, in order.\<close>

function client_stream :: "bytes \<Rightarrow> nat \<Rightarrow> TcpSocket \<Rightarrow> nat \<Rightarrow> TcpStack list \<Rightarrow> (bytes \<times> TcpStack list) option" where
  "client_stream tx tot k n found =
     (if n < tot then
        (case await_send k (take (min (length tx) (tot - n)) tx) found of
           None \<Rightarrow> None
         | Some (m, _, rest) \<Rightarrow>
             map_option (\<lambda>(xs, rest). (take m tx @ xs, rest)) (client_stream tx tot k (n + m) rest))
      else Some ([], found))"
  by auto
termination
  by (relation "measure (\<lambda>(_, _, _, _, found). length found)") (auto dest: await_send_Some)

declare client_stream.simps [simp del]

function server_stream ::
  "bool \<Rightarrow> nat \<Rightarrow> nat \<Rightarrow> TcpSocket \<Rightarrow> nat \<Rightarrow> TcpStack list \<Rightarrow> (bytes \<times> TcpStack list) option" where
  "server_stream echo m tot k n found =
     (if n < tot then
        (case await_recv k (min m (tot - n)) found of
           None \<Rightarrow> None
         | Some (data, _, rest) \<Rightarrow>
             if data = [] then Some ([], rest)
             else (case (if echo then map_option (snd \<circ> snd) (await_send k data rest) else Some rest) of
                     None \<Rightarrow> None
                   | Some rest \<Rightarrow>
                       map_option (\<lambda>(xs, rest). (data @ xs, rest)) (server_stream echo m tot k (n + length data) rest)))
      else Some ([], found))"
  by auto
termination
  by (relation "measure (\<lambda>(_, _, _, _, _, found). length found)")
    (fastforce dest: await_recv_Some await_send_Some split: if_splits)+

declare server_stream.simps [simp del]

lemma bench_client_stream:
  "bench_client tx tot k n c found =
     map_option (\<lambda>(xs, rest). (n + length xs, FastChecksum xs c, rest)) (client_stream tx tot k n found)"
proof (induction tx tot k n found arbitrary: c rule: client_stream.induct)
  case (1 tx tot k n found)
  let ?data = "take (min (length tx) (tot - n)) tx"
  show ?case
  proof (cases "n < tot")
    case True
    show ?thesis
    proof (cases "await_send k ?data found")
      case (Some r)
      then obtain m s rest where a: "await_send k ?data found = Some (m, s, rest)" by (cases r) auto
      then have "m \<le> length tx" using await_send_Some [OF a] send_bounded by fastforce
      then show ?thesis
        using 1 [OF True a refl refl] bench_client_unfold(3) [OF True a] client_stream.simps [of tx tot k n found] True a
        by (cases "m = 0") (auto simp: option.map_comp comp_def case_prod_unfold add.assoc)
    qed (use True in \<open>simp add: bench_client_unfold(2) client_stream.simps\<close>)
  qed (simp add: bench_client_unfold(1) client_stream.simps)
qed

lemma bench_server_stream:
  "bench_server echo m tot k n c found =
     map_option (\<lambda>(xs, rest). (n + length xs, FastChecksum xs c, rest)) (server_stream echo m tot k n found)"
proof (induction echo m tot k n found arbitrary: c rule: server_stream.induct)
  case (1 echo m tot k n found)
  show ?case
  proof (cases "n < tot")
    case True
    show ?thesis
    proof (cases "await_recv k (min m (tot - n)) found")
      case (Some r)
      then obtain data s rest where a: "await_recv k (min m (tot - n)) found = Some (data, s, rest)" by (cases r) auto
      note st = server_stream.simps [of echo m tot k n found]
      show ?thesis
      proof (cases "data = []")
        case False
        then show ?thesis
          using 1 [OF True a refl refl False] bench_server_unfold(4) [OF True a False] st True a
          by (cases "await_send k data rest") (auto simp: option.map_comp comp_def case_prod_unfold add.assoc)
      qed (use True a st in \<open>simp add: bench_server_unfold(3)\<close>)
    qed (use True in \<open>simp add: bench_server_unfold(2) server_stream.simps\<close>)
  qed (simp add: bench_server_unfold(1) server_stream.simps)
qed

lemma client_stream_calls:
  "client_stream tx tot k n found = Some (xs, rest) \<Longrightarrow> n \<le> tot \<Longrightarrow>
     \<exists>cs. send_calls k found cs rest \<and> (\<forall>(data, m) \<in> set cs. data = take (length data) tx)
       \<and> accepted cs = xs \<and> tot = n + length xs"
proof (induction tx tot k n found arbitrary: xs rule: client_stream.induct)
  case (1 tx tot k n found)
  let ?data = "take (min (length tx) (tot - n)) tx"
  show ?case
  proof (cases "n < tot")
    case True
    then obtain m s rest1 ys where a: "await_send k ?data found = Some (m, s, rest1)"
        and ys: "client_stream tx tot k (n + m) rest1 = Some (ys, rest)" "xs = take m tx @ ys"
      using 1(2) client_stream.simps [of tx tot k n found] by (auto split: option.splits)
    have "m \<le> length ?data" using await_send_Some [OF a] send_bounded by blast
    then have "m \<le> length tx" "m \<le> tot - n" by simp_all
    then have tk: "take m ?data = take m tx" "length (take m tx) = m" "n + m \<le> tot" "?data = take (length ?data) tx"
      using True by (simp_all add: min_def)
    from 1(1) [OF True a refl refl ys(1) tk(3)]
    obtain cs where "send_calls k rest1 cs rest" "\<forall>(data, m) \<in> set cs. data = take (length data) tx" "accepted cs = ys"
        "tot = n + m + length ys" by blast
    then show ?thesis
      using One_send [OF a] tk ys(2) by (intro exI [of _ "(?data, m) # cs"]) (simp del: take_take length_take)
  next
    case False
    then show ?thesis
      using 1(2,3) by (intro exI [of _ "[]"]) (simp add: client_stream.simps No_send)
  qed
qed

lemma server_stream_calls:
  "server_stream echo m tot k n found = Some (xs, rest) \<Longrightarrow> n \<le> tot \<Longrightarrow>
     \<exists>ds. recv_calls k found ds rest \<and> concat ds = xs \<and> n + length xs \<le> tot"
proof (induction echo m tot k n found arbitrary: xs rule: server_stream.induct)
  case (1 echo m tot k n found)
  show ?case
  proof (cases "n < tot")
    case True
    then obtain data s rest1 where a: "await_recv k (min m (tot - n)) found = Some (data, s, rest1)"
      using 1(2) server_stream.simps [of echo m tot k n found] by (auto split: option.splits)
    then have "length data \<le> min m (tot - n)" using await_recv_Some [OF a] recv_bounded by blast
    with True have le: "n + length data \<le> tot" by auto
    show ?thesis
    proof (cases "data = []")
      case False
      obtain rest2 ys where r: "(if echo then map_option (snd \<circ> snd) (await_send k data rest1) else Some rest1) = Some rest2"
          and ys: "server_stream echo m tot k (n + length data) rest2 = Some (ys, rest)" "xs = data @ ys"
        using 1(2) server_stream.simps [of echo m tot k n found] True a False by (auto split: option.splits)
      obtain ds where ds: "recv_calls k rest2 ds rest" "concat ds = ys" "n + length data + length ys \<le> tot"
        using 1(1) [OF True a refl refl False r ys(1) le] by blast
      have "recv_calls k rest1 ds rest"
        using r ds(1) by (cases echo) (auto intro: Send_between)
      then show ?thesis using One_recv [OF a] ds ys(2) by (intro exI [of _ "data # ds"]) simp
    next
      case eof: True
      then show ?thesis
        using 1(2,3) One_recv [OF a No_recv] server_stream.simps [of echo m tot k n found] True a
        by (intro exI [of _ "[data]"]) auto
    qed
  next
    case False
    then show ?thesis using 1(2,3) by (intro exI [of _ "[]"]) (simp add: server_stream.simps No_recv)
  qed
qed

lemma bench_client_checksum:
  assumes "bench_client tx tot k n c found = Some (n', c', rest)" and "n \<le> tot"
  shows "\<exists>cs. send_calls k found cs rest \<and> (\<forall>(data, m) \<in> set cs. data = take (length data) tx)
       \<and> n' = tot \<and> tot = n + length (accepted cs) \<and> c' = FastChecksum (accepted cs) c"
  using assms client_stream_calls [OF _ assms(2)] by (fastforce simp: bench_client_stream)

lemma bench_server_checksum:
  assumes "bench_server echo m tot k n c found = Some (n', c', rest)" and "n \<le> tot"
  shows "\<exists>ds. recv_calls k found ds rest \<and> n' = n + length (concat ds) \<and> n' \<le> tot
       \<and> c' = FastChecksum (concat ds) c"
  using assms server_stream_calls [OF _ assms(2)] by (fastforce simp: bench_server_stream)

text \<open>What the verdict of the benchmark is about. When both threads end, the client has handed exactly
  the target number of bytes to \<^verbatim>\<open>send\<close>, every one of its calls offered the chunk from the start, and
  its checksum is that of the bytes accepted by its calls in order; the server's checksum and count are those of
  the bytes returned by its calls of \<^verbatim>\<open>recv\<close> in order, at most the target. So a stream that arrives unchanged is reported as verified.\<close>

theorem bench_verdict:
  assumes "bench_client tx tot k 0 0 found = Some (n, ct, rest)"
    and "bench_server echo m tot k' 0 0 found' = Some (n', cr, rest')"
  shows "\<exists>cs ds. send_calls k found cs rest \<and> recv_calls k' found' ds rest'
    \<and> (\<forall>(data, m) \<in> set cs. data = take (length data) tx)
    \<and> n = tot \<and> length (accepted cs) = tot \<and> ct = FastChecksum (accepted cs) 0
    \<and> n' = length (concat ds) \<and> n' \<le> tot \<and> cr = FastChecksum (concat ds) 0
    \<and> (concat ds = accepted cs \<longrightarrow> bench_checksum_match ct cr n' tot)"
proof -
  obtain cs where "send_calls k found cs rest" "\<forall>(data, m) \<in> set cs. data = take (length data) tx"
      "n = tot" "length (accepted cs) = tot" "ct = FastChecksum (accepted cs) 0"
    using bench_client_checksum [OF assms(1)] by auto
  moreover obtain ds where "recv_calls k' found' ds rest'" "n' = length (concat ds)" "n' \<le> tot"
      "cr = FastChecksum (concat ds) 0"
    using bench_server_checksum [OF assms(2)] by auto
  ultimately show ?thesis by (intro exI [of _ cs] exI [of _ ds]) (simp add: bench_checksum_match_def)
qed

theorem bench_verdict_witness:
  "\<exists>cs ds. send_calls \<lparr>sock_id = 1\<rparr> [example_received False [], example_received False []] cs []
     \<and> recv_calls \<lparr>sock_id = 1\<rparr> [example_received False [1, 2, 1]] ds []
     \<and> length (accepted cs) = 3 \<and> FastChecksum (accepted cs) 0 = FastChecksum [1, 2, 1] 0"
proof -
  let ?k = "\<lparr>sock_id = 1\<rparr>" and ?s = "example_received False []"
  obtain s1 s2 where s: "await_send ?k [1, 2] [?s, ?s] = Some (2, s1, [?s])" "await_send ?k [1] [?s] = Some (1, s2, [])"
    using await_example(2) [of "[]" "[1, 2]" False "[?s]"] await_example(2) [of "[]" "[1]" False "[]"]
    by (auto simp: numeral_2_eq_2)
  then have c: "bench_client [1, 2] 3 ?k 0 0 [?s, ?s] = Some (3, FastChecksum [1, 2, 1] 0, [])"
    using bench_client_unfold(3) [of 0 3 ?k "[1, 2]" "[?s, ?s]" 2 s1 "[?s]" 0]
      bench_client_unfold(3) [of 2 3 ?k "[1, 2]" "[?s]" 1 s2 "[]" "FastChecksum [1, 2] 0"]
    by (simp add: bench_client_unfold(1) numeral_2_eq_2)
  obtain s3 where "await_recv ?k 3 [example_received False [1, 2, 1]] = Some ([1, 2, 1], s3, [])"
    using await_example(1) [of "[1, 2, 1]" False 3 "[]"] by auto
  then have "bench_server False 4 3 ?k 0 0 [example_received False [1, 2, 1]] = Some (3, FastChecksum [1, 2, 1] 0, [])"
    using bench_server_unfold(4) [of 0 3 ?k 4 "[example_received False [1, 2, 1]]" "[1, 2, 1]" s3 "[]" False 0]
    by (simp add: bench_server_unfold(1))
  from bench_verdict [OF c this] show ?thesis by (elim exE conjE) (intro exI conjI, assumption+, simp_all only:)
qed

lemma bench_client_empty_chunk: "n < tot \<Longrightarrow> bench_client [] tot k n c found = None"
proof (induction "length found" arbitrary: found rule: less_induct)
  case less
  let ?call = "await_send k (take (min (length ([] :: bytes)) (tot - n)) []) found"
  show ?case
  proof (cases ?call)
    case None
    then show ?thesis by (rule bench_client_unfold(2) [OF less.prems])
  next
    case (Some r)
    then obtain m s rest where a: "?call = Some (m, s, rest)" by (cases r) auto
    then have "m = 0" "length rest < length found" using await_send_Some [OF a] send_bounded by fastforce+
    then show ?thesis using less bench_client_unfold(3) [OF less.prems a] by simp
  qed
qed

text \<open>Two options that defeat the benchmark. With \<^verbatim>\<open>--chunk 0\<close> the client offers no bytes, and its thread
  never ends, whatever the other threads do, as long as the target is not zero. With \<^verbatim>\<open>--gb\<close> the target is
  computed modulo \<open>2\<^sup>6\<^sup>4\<close>: every multiple of \<open>2\<^sup>3\<^sup>4\<close> gigabytes is a target of zero bytes, and the loops end
  at once with checksums that match.\<close>

theorem bench_degenerate_options:
  "(\<forall>config. bench_args [''--chunk'', ''0''] BenchmarkConfig_new = Run config \<longrightarrow>
      bench_client_thread e config k found = None)
   \<and> (\<forall>g m config. std_stoul g = Inr (m * 2 ^ 34) \<and> bench_args [''--gb'', g] BenchmarkConfig_new = Run config \<longrightarrow>
      bench_client (bench_tx_chunk config) (unat (bench_total_bytes config)) k 0 0 found = Some (0, 0, found)
      \<and> bench_server False n (unat (bench_total_bytes config)) k 0 0 found = Some (0, 0, found)
      \<and> bench_checksum_match 0 0 0 (unat (bench_total_bytes config)))"
proof -
  have "show_nat 0 = ''0''" by code_simp
  then have z: "std_stoul ''0'' = Inr 0" using std_stoul_show [of 0] by simp
  have "bench_client_thread e config k found = None"
    if "config = BenchmarkConfig_new\<lparr>chunk_size := 0\<rparr>" for config
    using that by (simp add: bench_client_thread_def bench_tx_chunk_def bench_total_bytes_def BenchmarkConfig_new_def
        bench_client_empty_chunk split: bind_splits)
  moreover have "bench_total_bytes (BenchmarkConfig_new\<lparr>total_mb := m * 2 ^ 34 * 1024\<rparr>) = 0" for m
  proof -
    have "(2 :: u64) ^ 34 * 1024 * 1024 * 1024 = 0" by code_simp
    then show ?thesis by (simp only: bench_total_bytes_def BenchmarkConfig_new_def BenchmarkConfig.simps
        BenchmarkConfig.update_convs mult.assoc mult_zero_right)
  qed
  ultimately show ?thesis
    using z by (auto simp: bench_client_unfold(1) bench_server_unfold(1) bench_checksum_match_def)
qed

theorem bench_degenerate_options_witness:
  "bench_client_thread example_env (BenchmarkConfig_new\<lparr>chunk_size := 0\<rparr>) TcpSocket_new
     (replicate 3 (example_received False [])) = None
   \<and> bench_server False 32768 (unat (bench_total_bytes (BenchmarkConfig_new\<lparr>total_mb := 2 ^ 44\<rparr>)))
       TcpSocket_new 0 0 [] = Some (0, 0, [])"
proof -
  let ?g = "show_nat (2 ^ 34)"
  have "show_nat 0 = ''0''" by code_simp
  then have z: "bench_args [''--chunk'', ''0''] BenchmarkConfig_new = Run (BenchmarkConfig_new\<lparr>chunk_size := 0\<rparr>)"
    using std_stoul_show [of 0] by simp
  have g: "std_stoul ?g = Inr (1 * 2 ^ 34)" using std_stoul_show [of "2 ^ 34"] by simp
  then have "bench_args [''--gb'', ?g] BenchmarkConfig_new = Run (BenchmarkConfig_new\<lparr>total_mb := 2 ^ 44\<rparr>)"
    by simp
  with bench_degenerate_options [of example_env TcpSocket_new "replicate 3 (example_received False [])"] z
    bench_degenerate_options [of example_env TcpSocket_new "[]" 32768] g
  show ?thesis by blast
qed

end
