(* ===== verification/Double_Numbers.thy ===== *)
theory Double_Numbers
  imports Complex_Main Output_Streams "HOL-Library.Log_Nat"
begin

text \<open>
  What the source uses of \<^verbatim>\<open>double\<close>: conversion from integers, multiplication, division, comparison, the
  conversion of a time span in nanoseconds to seconds, and the two text formats of a stream. A number is a
  sign and a rational magnitude, an infinity or a NaN; every result is the nearest number with 53 significant
  bits and an exponent from -1022 to 1023 (gradual underflow below), ties to the even one, as IEEE 754
  prescribes for the \<^verbatim>\<open>double\<close> of the supported platforms. The sign of a NaN is left out.

  The lemmas bound the rounding error and show that rounding keeps the order, so that a quotient of at most one
  stays at most one.
\<close>

subsection \<open>Rounding\<close>

text \<open>The exponent of a positive number to a base.\<close>

definition exponent_of :: "nat \<Rightarrow> rat \<Rightarrow> int" where
  "exponent_of b q =
     (let (n, d) = quotient_of q;
          k = int (floorlog b (nat n)) - int (floorlog b (nat d))
      in if of_nat b powi k \<le> q then k else k - 1)"

definition round_half_even :: "rat \<Rightarrow> int" where
  "round_half_even x =
     (let f = \<lfloor>x\<rfloor>; d = x - of_int f
      in if d < 1 / 2 \<or> d = 1 / 2 \<and> even f then f else f + 1)"

definition unit_in_last_place :: "rat \<Rightarrow> rat" where
  "unit_in_last_place q = 2 powi (max (exponent_of 2 q) (- 1022) - 52)"

definition round_magnitude :: "rat \<Rightarrow> rat" where
  "round_magnitude q = of_int (round_half_even (q / unit_in_last_place q)) * unit_in_last_place q"

subsection \<open>Numbers\<close>

datatype double = Num bool rat | Inf bool | NaN

definition make_double :: "bool \<Rightarrow> rat \<Rightarrow> double" where
  "make_double neg q = (let r = round_magnitude q in if r \<ge> 2 ^ 1024 then Inf neg else Num neg r)"

definition double_of_nat :: "nat \<Rightarrow> double" where
  "double_of_nat n = make_double False (of_nat n)"

definition double_of_int :: "int \<Rightarrow> double" where
  "double_of_int n = make_double (n < 0) (of_int \<bar>n\<bar>)"

fun double_times :: "double \<Rightarrow> double \<Rightarrow> double" where
  "double_times (Num a p) (Num b q) = make_double (a \<noteq> b) (p * q)"
| "double_times (Num a p) (Inf b) = (if p = 0 then NaN else Inf (a \<noteq> b))"
| "double_times (Inf a) (Num b q) = (if q = 0 then NaN else Inf (a \<noteq> b))"
| "double_times (Inf a) (Inf b) = Inf (a \<noteq> b)"
| "double_times _ _ = NaN"

fun double_divide :: "double \<Rightarrow> double \<Rightarrow> double" where
  "double_divide (Num a p) (Num b q) =
     (if q = 0 then if p = 0 then NaN else Inf (a \<noteq> b) else make_double (a \<noteq> b) (p / q))"
| "double_divide (Num a p) (Inf b) = Num (a \<noteq> b) 0"
| "double_divide (Inf a) (Num b q) = Inf (a \<noteq> b)"
| "double_divide _ _ = NaN"

definition signed_value :: "bool \<Rightarrow> rat \<Rightarrow> rat" where
  "signed_value neg q = (if neg then - q else q)"

fun double_less :: "double \<Rightarrow> double \<Rightarrow> bool" where
  "double_less (Num a p) (Num b q) \<longleftrightarrow> signed_value a p < signed_value b q"
| "double_less (Num a p) (Inf b) \<longleftrightarrow> \<not> b"
| "double_less (Inf a) (Num b q) \<longleftrightarrow> a"
| "double_less (Inf a) (Inf b) \<longleftrightarrow> a \<and> \<not> b"
| "double_less _ _ \<longleftrightarrow> False"

text \<open>\<^verbatim>\<open>std::chrono::duration<double>(d).count()\<close> for a span \<open>d\<close> in nanoseconds.\<close>

definition seconds :: "int \<Rightarrow> double" where
  "seconds ns = double_divide (double_of_int ns) (double_of_nat 1000000000)"

subsection \<open>Text\<close>

definition pad_digits :: "nat \<Rightarrow> nat \<Rightarrow> string" where
  "pad_digits width n = (let s = show_nat n in replicate (width - length s) (CHR ''0'') @ s)"

text \<open>The number \<open>n\<close> with its last \<open>p\<close> digits behind the point.\<close>

definition show_decimal :: "nat \<Rightarrow> nat \<Rightarrow> string" where
  "show_decimal p n =
     show_nat (n div 10 ^ p) @ (if p = 0 then [] else CHR ''.'' # pad_digits p (n mod 10 ^ p))"

definition show_sign :: "bool \<Rightarrow> string" where
  "show_sign neg = (if neg then ''-'' else [])"

definition strip_zeros :: "string \<Rightarrow> string" where
  "strip_zeros s =
     (if CHR ''.'' \<in> set s
      then rev (let r = dropWhile (\<lambda>c. c = CHR ''0'') (rev s)
                in if r \<noteq> [] \<and> hd r = CHR ''.'' then tl r else r)
      else s)"

text \<open>With \<^verbatim>\<open>std::fixed\<close>, and in the default format, which keeps \<open>p\<close> significant digits.\<close>

fun show_fixed :: "nat \<Rightarrow> double \<Rightarrow> string" where
  "show_fixed p (Num neg q) = show_sign neg @ show_decimal p (nat (round_half_even (q * 10 ^ p)))"
| "show_fixed p (Inf neg) = show_sign neg @ ''inf''"
| "show_fixed p NaN = ''nan''"

definition significant_digits :: "nat \<Rightarrow> rat \<Rightarrow> nat \<times> int" where
  "significant_digits p q =
     (let e = exponent_of 10 q;
          m = nat (round_half_even (q / 10 powi (e - int p + 1)))
      in if m = 10 ^ p then (10 ^ (p - 1), e + 1) else (m, e))"

fun show_general :: "nat \<Rightarrow> double \<Rightarrow> string" where
  "show_general prec (Num neg q) =
     (let p = max prec 1; (m, e) = significant_digits p q
      in show_sign neg @
         (if q = 0 then ''0''
          else if - 4 \<le> e \<and> e < int p then strip_zeros (show_decimal (nat (int p - 1 - e)) m)
          else strip_zeros (show_decimal (p - 1) m) @ ''e'' @ (if e < 0 then ''-'' else ''+'')
               @ pad_digits 2 (nat \<bar>e\<bar>)))"
| "show_general prec (Inf neg) = show_sign neg @ ''inf''"
| "show_general prec NaN = ''nan''"

definition put_double :: "double \<Rightarrow> ostream \<Rightarrow> ostream" where
  "put_double d os =
     put_text (if os_fixed os then show_fixed (os_precision os) d else show_general (os_precision os) d) os"

lemma emit_double [simp]:
  assumes "plain_format os"
  shows "emit (put_double d # ops) os =
    emit ops (write_text (if os_fixed os then show_fixed (os_precision os) d else show_general (os_precision os) d) os)"
  using assms
  by (cases os) (simp add: emit_def put_double_def put_text_def write_text_def plain_format_def)

subsection \<open>Properties of rounding\<close>

lemma exponent_of_bounds:
  assumes "2 \<le> b" and "0 < q"
  shows "of_nat b powi exponent_of b q \<le> q" and "q < of_nat b powi (exponent_of b q + 1)"
proof -
  obtain n d where nd: "quotient_of q = (n, d)" by (cases "quotient_of q")
  have d: "0 < d" and q: "q = of_int n / of_int d"
    using quotient_of_denom_pos [OF nd] quotient_of_div [OF nd] by simp_all
  then have n: "0 < n" using assms(2) by (simp add: zero_less_divide_iff)
  define k where "k = int (floorlog b (nat n)) - int (floorlog b (nat d))"
  have B: "(1::rat) < of_nat b" "of_nat b \<noteq> (0::rat)" using assms(1) by simp_all
  have fl: "of_nat b powi (int (floorlog b (nat m)) - 1) \<le> (of_int m :: rat)
      \<and> (of_int m :: rat) < of_nat b powi int (floorlog b (nat m))" if "0 < m" for m
  proof -
    have f: "b ^ (floorlog b (nat m) - 1) \<le> nat m" "nat m < b ^ floorlog b (nat m)" "0 < floorlog b (nat m)"
      using floorlog_bounds [of "nat m" b] that assms(1) by (simp_all add: floorlog_def)
    have "of_nat b powi (int (floorlog b (nat m)) - 1) = (of_nat (b ^ (floorlog b (nat m) - 1)) :: rat)"
      using f(3) by (simp add: power_int_def nat_diff_distrib)
    moreover have "(of_nat (nat m) :: rat) = of_int m" using that by simp
    ultimately show ?thesis using f(1,2) by (metis of_nat_le_iff of_nat_less_iff of_nat_power power_int_of_nat)
  qed
  have "q < of_nat b powi int (floorlog b (nat n)) / of_nat b powi (int (floorlog b (nat d)) - 1)"
    unfolding q using fl [OF n] fl [OF d] B d n by (intro frac_less) (simp_all add: zero_less_power_int)
  also have "\<dots> = of_nat b powi (int (floorlog b (nat n)) - (int (floorlog b (nat d)) - 1))"
    using B by (intro power_int_diff [symmetric]) simp
  also have "int (floorlog b (nat n)) - (int (floorlog b (nat d)) - 1) = k + 1" by (simp add: k_def)
  finally have up: "q < of_nat b powi (k + 1)" .
  have "k - 1 = int (floorlog b (nat n)) - 1 - int (floorlog b (nat d))" by (simp add: k_def)
  then have "(of_nat b :: rat) powi (k - 1) = of_nat b powi (int (floorlog b (nat n)) - 1) / of_nat b powi int (floorlog b (nat d))"
    by (simp only:) (rule power_int_diff, use B in simp)
  also have "\<dots> \<le> q"
    unfolding q using fl [OF n] fl [OF d] B d n by (intro frac_le) (simp_all add: zero_less_power_int less_imp_le)
  finally have low: "of_nat b powi (k - 1) \<le> q" .
  have "exponent_of b q = (if of_nat b powi k \<le> q then k else k - 1)"
    by (simp add: exponent_of_def nd k_def)
  with up low show "of_nat b powi exponent_of b q \<le> q" and "q < of_nat b powi (exponent_of b q + 1)" by auto
qed

lemma round_half_even_error: "\<bar>of_int (round_half_even x) - x\<bar> \<le> 1 / 2"
proof -
  have "of_int \<lfloor>x\<rfloor> \<le> x" "x < of_int \<lfloor>x\<rfloor> + 1" by linarith+
  then show ?thesis by (auto simp: round_half_even_def Let_def abs_le_iff)
qed

lemma round_half_even_of_int [simp]: "round_half_even (of_int n) = n"
  by (simp add: round_half_even_def)

lemma round_half_even_mono:
  assumes "x \<le> y"
  shows "round_half_even x \<le> round_half_even y"
proof (cases "\<lfloor>x\<rfloor> = \<lfloor>y\<rfloor>")
  case True
  then show ?thesis using assms by (auto simp: round_half_even_def Let_def)
next
  case False
  then have "\<lfloor>x\<rfloor> + 1 \<le> \<lfloor>y\<rfloor>" using floor_mono [OF assms] by simp
  moreover have "round_half_even x \<le> \<lfloor>x\<rfloor> + 1" "\<lfloor>y\<rfloor> \<le> round_half_even y"
    by (simp_all add: round_half_even_def Let_def)
  ultimately show ?thesis by linarith
qed

lemma ulp_pos [simp]: "0 < unit_in_last_place q" "0 \<le> unit_in_last_place q" "unit_in_last_place q \<noteq> 0"
  by (simp_all add: unit_in_last_place_def zero_less_power_int zero_le_power_int)

lemma round_magnitude_0 [simp]: "round_magnitude 0 = 0"
  using round_half_even_of_int [of 0] by (simp add: round_magnitude_def)

lemma round_magnitude_error:
  assumes "2 powi (- 1022) \<le> q"
  shows "\<bar>round_magnitude q - q\<bar> \<le> q / 2 ^ 53"
proof -
  let ?u = "unit_in_last_place q"
  have q: "0 < q" using assms zero_less_power_int [of "2 :: rat" "- 1022"] by linarith
  have e: "2 powi exponent_of 2 q \<le> q" "q < 2 powi (exponent_of 2 q + 1)"
    using exponent_of_bounds [of 2 q] q by simp_all
  have "\<not> exponent_of 2 q < - 1022"
  proof
    assume "exponent_of 2 q < - 1022"
    then have "2 powi (exponent_of 2 q + 1) \<le> (2 powi (- 1022) :: rat)" by (intro power_int_increasing) simp_all
    with e(2) assms show False by linarith
  qed
  then have u: "?u = 2 powi exponent_of 2 q / 2 ^ 52"
    by (simp add: unit_in_last_place_def max_def power_int_diff)
  have "round_magnitude q - q = (of_int (round_half_even (q / ?u)) - q / ?u) * ?u"
    using ulp_pos [of q] by (simp add: round_magnitude_def field_simps)
  then have "\<bar>round_magnitude q - q\<bar> = \<bar>of_int (round_half_even (q / ?u)) - q / ?u\<bar> * ?u"
    using ulp_pos [of q] by (simp add: abs_mult)
  also have "\<dots> \<le> 1 / 2 * ?u"
    using round_half_even_error [of "q / ?u"] ulp_pos [of q] by (intro mult_right_mono) simp_all
  also have "\<dots> \<le> q / 2 ^ 53" using e(1) unfolding u by simp
  finally show ?thesis .
qed

text \<open>A number that is a multiple of its last place is not changed.\<close>

lemma round_magnitude_exact: "q = of_int m * unit_in_last_place q \<Longrightarrow> round_magnitude q = q"
  using ulp_pos [of q] by (metis less_numeral_extra(3) nonzero_mult_div_cancel_right round_half_even_of_int round_magnitude_def)

lemma ulp_mono:
  assumes "0 < p" and "p \<le> q"
  shows "exponent_of 2 p \<le> exponent_of 2 q"
proof (rule ccontr)
  assume "\<not> ?thesis"
  then have "2 powi (exponent_of 2 q + 1) \<le> (2 powi exponent_of 2 p :: rat)" by (intro power_int_increasing) simp_all
  then show False
    using exponent_of_bounds [of 2 p] exponent_of_bounds [of 2 q] assms by simp
qed

lemma round_magnitude_nonneg: "0 \<le> q \<Longrightarrow> 0 \<le> round_magnitude q"
  using round_half_even_mono [of 0 "q / unit_in_last_place q"] round_half_even_of_int [of 0] ulp_pos [of q]
  by (simp add: round_magnitude_def zero_le_mult_iff divide_nonneg_pos)

lemma round_magnitude_upper:
  assumes "0 < q"
  shows "round_magnitude q \<le> 2 powi (max (exponent_of 2 q) (- 1022) + 1)"
proof -
  let ?e = "max (exponent_of 2 q) (- 1022)" and ?u = "unit_in_last_place q"
  have "q < 2 powi (exponent_of 2 q + 1)" using exponent_of_bounds(2) [of 2 q] assms by simp
  also have "\<dots> \<le> 2 powi (?e + 1)" by (intro power_int_increasing) simp_all
  also have "\<dots> = of_int (2 ^ 53) * ?u"
    by (simp add: unit_in_last_place_def power_int_add power_int_diff)
  finally have "q / ?u \<le> of_int (2 ^ 53)" using ulp_pos [of q] by (simp add: field_simps)
  from round_half_even_mono [OF this] have "round_half_even (q / ?u) \<le> 2 ^ 53"
    by (simp only: round_half_even_of_int)
  then have "round_magnitude q \<le> of_int (2 ^ 53) * ?u"
    unfolding round_magnitude_def using ulp_pos [of q] by (intro mult_right_mono) (simp_all only: of_int_le_iff less_imp_le)
  then show ?thesis by (simp add: unit_in_last_place_def power_int_add power_int_diff)
qed

lemma round_magnitude_lower:
  assumes "0 < q" and "- 1022 \<le> exponent_of 2 q"
  shows "2 powi exponent_of 2 q \<le> round_magnitude q"
proof -
  let ?u = "unit_in_last_place q"
  have u: "of_int (2 ^ 52) * ?u = 2 powi exponent_of 2 q"
    using assms(2) by (simp add: unit_in_last_place_def max_def power_int_diff)
  have "of_int (2 ^ 52) * ?u \<le> q" using exponent_of_bounds(1) [of 2 q] assms(1) unfolding u by simp
  then have "of_int (2 ^ 52) \<le> q / ?u" using ulp_pos [of q] by (simp add: field_simps)
  from round_half_even_mono [OF this] have "2 ^ 52 \<le> round_half_even (q / ?u)"
    by (simp only: round_half_even_of_int)
  then have "of_int (2 ^ 52) * ?u \<le> round_magnitude q"
    unfolding round_magnitude_def using ulp_pos [of q] by (intro mult_right_mono) (simp_all only: of_int_le_iff less_imp_le)
  then show ?thesis by (simp only: u)
qed

lemma round_magnitude_mono:
  assumes "0 \<le> p" and "p \<le> q"
  shows "round_magnitude p \<le> round_magnitude q"
proof (cases "p = 0")
  case True
  then show ?thesis using round_magnitude_nonneg [of q] assms by simp
next
  case False
  then have pos: "0 < p" "0 < q" using assms by simp_all
  let ?e = "\<lambda>x. max (exponent_of 2 x) (- 1022)"
  show ?thesis
  proof (cases "?e p = ?e q")
    case True
    then have u: "unit_in_last_place p = unit_in_last_place q" by (simp add: unit_in_last_place_def)
    have "p / unit_in_last_place q \<le> q / unit_in_last_place q" using assms(2) by (simp add: divide_right_mono less_imp_le)
    then show ?thesis
      unfolding round_magnitude_def u
      by (intro mult_right_mono) (simp_all add: round_half_even_mono less_imp_le)
  next
    case False
    with ulp_mono [OF pos(1) assms(2)] have lt: "?e p < exponent_of 2 q" "- 1022 \<le> exponent_of 2 q" by (auto simp: max_def split: if_splits)
    have "round_magnitude p \<le> 2 powi (?e p + 1)" by (rule round_magnitude_upper [OF pos(1)])
    also have "\<dots> \<le> 2 powi exponent_of 2 q" using lt by (intro power_int_increasing) (auto simp: max_def)
    also have "\<dots> \<le> round_magnitude q" by (rule round_magnitude_lower [OF pos(2) lt(2)])
    finally show ?thesis .
  qed
qed

text \<open>The relative error of one rounding.\<close>

abbreviation half_ulp :: rat where
  "half_ulp \<equiv> 1 / 2 ^ 53"

lemma round_magnitude_factor:
  assumes "2 powi (- 1022) \<le> q"
  shows "q * (1 - half_ulp) \<le> round_magnitude q" and "round_magnitude q \<le> q * (1 + half_ulp)"
proof -
  have "round_magnitude q - q \<le> q / 2 ^ 53" "- (round_magnitude q - q) \<le> q / 2 ^ 53"
    using round_magnitude_error [OF assms] by linarith+
  then show "q * (1 - half_ulp) \<le> round_magnitude q" and "round_magnitude q \<le> q * (1 + half_ulp)"
    by (simp_all add: algebra_simps)
qed

lemma smallest_normal: "(2 :: rat) powi (- 1022) \<le> 1 / 2 ^ n" if "n \<le> 1022"
  using that power_int_increasing [of "- 1022" "- int n" "2 :: rat"]
  by (simp add: power_int_minus_divide)

lemma normal_range:
  assumes "1 / 2 ^ n \<le> q" and "n \<le> 1022"
  shows "(2 :: rat) powi (- 1022) \<le> q"
  by (rule order_trans [OF smallest_normal [OF assms(2)] assms(1)])

lemma make_double_finite:
  assumes "round_magnitude q \<le> 2 ^ n" and "n < 1024"
  shows "make_double neg q = Num neg (round_magnitude q)"
proof -
  have "(2 :: rat) ^ n < 2 ^ 1024" using assms(2) by (rule power_strict_increasing) simp
  with assms(1) have "round_magnitude q < 2 ^ 1024" by (rule le_less_trans)
  then have "\<not> 2 ^ 1024 \<le> round_magnitude q" by (simp only: not_le)
  then show ?thesis by (simp only: make_double_def Let_def if_False)
qed

text \<open>Powers of two and small integers are exact.\<close>

lemma exponent_of_unique:
  assumes "2 powi k \<le> q" and "q < 2 powi (k + 1)"
  shows "exponent_of 2 q = k"
proof -
  have "0 < q" using assms(1) zero_less_power_int [of "2 :: rat" k] by linarith
  then have e: "2 powi exponent_of 2 q \<le> q" "q < 2 powi (exponent_of 2 q + 1)"
    using exponent_of_bounds [of 2 q] by simp_all
  have "m \<le> n" if "2 powi m \<le> q" "q < 2 powi (n + 1)" for m n
  proof (rule ccontr)
    assume "\<not> m \<le> n"
    then have "2 powi (n + 1) \<le> (2 powi m :: rat)" by (intro power_int_increasing) simp_all
    with that show False by linarith
  qed
  from this [OF assms(1) e(2)] this [OF e(1) assms(2)] show ?thesis by simp
qed

lemma round_magnitude_of_nat:
  assumes "0 < n" and "n < 2 ^ 53"
  shows "round_magnitude (of_nat n) = of_nat n"
proof -
  obtain k where k: "2 ^ k \<le> n" "n < 2 ^ (k + 1)"
    using ex_power_ivl1 [of 2 n] assms(1) by auto
  have "k < 53"
  proof (rule ccontr)
    assume "\<not> k < 53"
    then have "(2 :: nat) ^ 53 \<le> 2 ^ k" by (intro power_increasing) simp_all
    with k(1) assms(2) show False by linarith
  qed
  have "(2 :: rat) ^ k \<le> of_nat n" "(of_nat n :: rat) < 2 ^ (k + 1)"
    using k by (metis of_nat_le_iff of_nat_numeral of_nat_power, metis of_nat_less_iff of_nat_numeral of_nat_power)
  then have "exponent_of 2 (of_nat n) = int k"
    by (intro exponent_of_unique) (simp_all add: power_int_def nat_add_distrib)
  then have "unit_in_last_place (of_nat n) = 1 / 2 ^ (52 - k)"
    using \<open>k < 53\<close> by (simp add: unit_in_last_place_def power_int_def max_def nat_diff_distrib of_nat_diff power_one_over)
  then have "(of_nat n :: rat) = of_int (int n * 2 ^ (52 - k)) * unit_in_last_place (of_nat n)" by simp
  then show ?thesis by (rule round_magnitude_exact)
qed

end
