(* ===== verification/Benchmark_Report.thy ===== *)
theory Benchmark_Report
  imports Throughput_Benchmark Double_Numbers
begin

text \<open>
  The output of \<^verbatim>\<open>throughput_benchmark.cpp\<close> and its \<^verbatim>\<open>main\<close>: the progress line that the main thread prints
  while the two threads run, the summary, and the exit code. What the main thread reads, the two atomic
  counters and the clock, are arguments: one sample for every iteration of the progress loop.

  The lemmas show how far the printed progress is from the exact ratio, and what the exit code says.
\<close>

definition bytes_per_mb :: double where
  "bytes_per_mb = double_times (double_of_nat 1024) (double_of_nat 1024)"

text \<open>The percentage of the progress line.\<close>

definition bench_percentage :: "nat \<Rightarrow> nat \<Rightarrow> double" where
  "bench_percentage rx total_bytes =
     double_times (double_divide (double_of_nat rx) (double_of_nat total_bytes)) (double_of_nat 100)"

definition bench_progress :: "BenchmarkConfig \<Rightarrow> nat \<Rightarrow> int \<Rightarrow> ostream \<Rightarrow> ostream" where
  "bench_progress config rx ns os =
     (let sec = seconds ns
      in if double_less (make_double False (1 / 20)) sec
         then
           let current_mb = double_divide (double_of_nat rx) bytes_per_mb;
               current_speed = double_divide current_mb sec;
               progress = bench_percentage rx (unat (bench_total_bytes config))
           in emit
             [put_text ([CHR 0x0D] @ ''[Progress] ''), set_fixed, set_precision 1, put_double progress,
              put_text ''% ('', put_double current_mb, put_text '' / '', put_nat (unat (total_mb config)),
              put_text '' MB) | Speed: '', set_precision 2, put_double current_speed, put_text '' MB/s ('',
              put_double (double_divide (double_times current_speed (double_of_nat 8)) (double_of_nat 1000)),
              put_text '' Gbps)''] os
         else os)"

text \<open>The loop of the main thread. A sample is what it finds in one iteration: the bytes received and sent when it
  tests its condition, and after its sleep the bytes received and the nanoseconds since the start.\<close>

fun bench_monitor :: "BenchmarkConfig \<Rightarrow> (nat \<times> nat \<times> nat \<times> int) list \<Rightarrow> ostream \<Rightarrow> ostream option" where
  "bench_monitor config [] os = None"
| "bench_monitor config ((server_bytes, client_bytes, rx, ns) # samples) os =
     (if server_bytes < unat (bench_total_bytes config) \<and> client_bytes < unat (bench_total_bytes config)
      then bench_monitor config samples (bench_progress config rx ns os)
      else Some os)"

definition bench_summary :: "nat \<Rightarrow> int \<Rightarrow> bool \<Rightarrow> ostream \<Rightarrow> ostream" where
  "bench_summary rx_final elapsed_ns checksum_match =
     (let total_elapsed_sec = seconds elapsed_ns;
          total_mb_transferred = double_divide (double_of_nat rx_final) bytes_per_mb;
          avg_throughput_mbps = double_divide total_mb_transferred total_elapsed_sec;
          avg_throughput_gbps = double_divide (double_times avg_throughput_mbps (double_of_nat 8)) (double_of_nat 1000)
      in emit
        [put_text ([newline, newline] @ ''======================================================='' @ [newline]),
         put_text (''                   Benchmark Summary                   '' @ [newline]),
         put_text (''======================================================='' @ [newline]),
         put_text ''Total Transferred:   '', set_fixed, set_precision 2, put_double total_mb_transferred,
         put_text '' MB ('', put_nat rx_final, put_text ('' bytes)'' @ [newline]),
         put_text ''Elapsed Time:        '', put_double total_elapsed_sec, put_text '' seconds ('',
         put_double (double_times total_elapsed_sec (double_of_nat 1000)), put_text ('' ms)'' @ [newline]),
         put_text ''Average Throughput:  '', put_double avg_throughput_mbps, put_text '' MB/s ('',
         put_double avg_throughput_gbps, put_text ('' Gbps)'' @ [newline]),
         put_text ''Data Integrity:      '',
         put_text (if checksum_match then ''VERIFIED (Checksums Match 100%)'' else ''FAILED / CORRUPTED''),
         put_text [newline],
         put_text ''Status:              '', put_text (if checksum_match then ''SUCCESS'' else ''FAILED''),
         put_text [newline],
         put_text (''======================================================='' @ [newline])])"

text \<open>The program. The stack states that the setup and the two threads find, the samples of the main thread and
  the total time are what the other threads and the system contribute; \<open>None\<close> is a run that has not ended. A
  device that cannot be opened ends the program with exit code 1.\<close>

definition bench_main ::
  "tun_driver \<Rightarrow> stack_env \<Rightarrow> string \<Rightarrow> string list \<Rightarrow> TcpStack \<Rightarrow> TcpStack list \<Rightarrow> TcpStack list
     \<Rightarrow> (nat \<times> nat \<times> nat \<times> int) list \<Rightarrow> int \<Rightarrow> ostream \<Rightarrow> (conversion_error + nat \<times> ostream) option" where
  "bench_main d e prog args setup_found server_found client_found samples elapsed_ns os =
     (case bench_args args BenchmarkConfig_new of
        Show_usage \<Rightarrow> Some (Inr (0, bench_PrintUsage prog os))
      | Throws x \<Rightarrow> Some (Inl x)
      | Run config \<Rightarrow>
          (let os = bench_banner config os
           in case TunDevice_new d (Some ''tun0'') of
                None \<Rightarrow> Some (Inr (1, os))
              | Some tun \<Rightarrow>
                  (let e = e\<lparr>env_tun := tun\<rparr>;
                       (server_socket, _) = bench_setup e setup_found
                   in do {
                        os \<leftarrow> bench_monitor config samples os;
                        (_, tx_checksum, _) \<leftarrow> bench_client_thread e config TcpSocket_new client_found;
                        (rx_final, rx_checksum, _) \<leftarrow> bench_server_thread e config server_socket server_found;
                        let checksum_match = bench_checksum_match tx_checksum rx_checksum rx_final
                          (unat (bench_total_bytes config));
                        Some (Inr (if checksum_match then 0 else 1, bench_summary rx_final elapsed_ns checksum_match os))
                      })))"

subsection \<open>The printed progress\<close>

lemma double_of_nat_small:
  assumes "n < 2 ^ 64"
  shows "double_of_nat n = Num False (round_magnitude (of_nat n))" and "round_magnitude (of_nat n) \<le> 2 ^ 65"
proof -
  show le: "round_magnitude (of_nat n) \<le> 2 ^ 65"
  proof (cases "n = 0")
    case False
    have "(of_nat n :: rat) \<le> of_nat (2 ^ 64)" using assms by (simp only: of_nat_le_iff)
    moreover have "round_magnitude (of_nat n) \<le> of_nat n * (1 + half_ulp)"
      using False by (intro round_magnitude_factor(2) normal_range [of 0]) simp_all
    ultimately show ?thesis by simp
  qed simp
  then show "double_of_nat n = Num False (round_magnitude (of_nat n))"
    unfolding double_of_nat_def by (rule make_double_finite) simp
qed

lemma make_double_small:
  assumes "0 \<le> q" and "q \<le> 100"
  shows "make_double neg q = Num neg (round_magnitude q)" and "0 \<le> round_magnitude q" and "round_magnitude q \<le> 100"
proof -
  have "round_magnitude q \<le> round_magnitude (of_nat 100)" using assms by (intro round_magnitude_mono) simp_all
  then show le: "round_magnitude q \<le> 100" using round_magnitude_of_nat [of 100] by simp
  then have "round_magnitude q \<le> 2 ^ 7" by simp
  then show "make_double neg q = Num neg (round_magnitude q)" by (rule make_double_finite) simp
  show "0 \<le> round_magnitude q" by (rule round_magnitude_nonneg [OF assms(1)])
qed

text \<open>A quotient of rounded numbers, rounded, times 100, rounded.\<close>

lemma rounded_percentage_error:
  fixes p t x y r t' :: rat
  assumes "p * (1 - half_ulp) \<le> p'" "p' \<le> p * (1 + half_ulp)" and "t * (1 - half_ulp) \<le> t'" "t' \<le> t * (1 + half_ulp)"
    and "p' / t' * (1 - half_ulp) \<le> x" "x \<le> p' / t' * (1 + half_ulp)"
    and "x * 100 * (1 - half_ulp) \<le> y" "y \<le> x * 100 * (1 + half_ulp)" and "0 < p" and "p \<le> t"
  shows "\<bar>y - 100 * (p / t)\<bar> \<le> 500 * half_ulp"
proof -
  let ?u = "half_ulp" and ?r = "p / t"
  have t: "0 < t" "0 \<le> ?r" "?r \<le> 1" using assms(9,10) by simp_all
  have p': "0 \<le> p'" using assms(9) by (intro order_trans [OF _ assms(1)]) simp
  have t': "0 < t'" using t(1) by (intro less_le_trans [OF _ assms(3)]) simp
  have "p' / t' \<le> (p * (1 + ?u)) / (t * (1 - ?u))"
    using assms(2,3) p' t(1) by (intro frac_le) simp_all
  then have "x \<le> ?r * ((1 + ?u) / (1 - ?u) * (1 + ?u))"
    using assms(6) by (simp add: field_simps)
  then have "y \<le> 100 * ?r * ((1 + ?u) / (1 - ?u) * (1 + ?u) * (1 + ?u))"
    using assms(8) by simp
  also have "\<dots> \<le> 100 * ?r * (1 + 5 * ?u)" using t(2) by (intro mult_left_mono) simp_all
  finally have up: "y \<le> 100 * ?r * (1 + 5 * ?u)" .
  have "(p * (1 - ?u)) / (t * (1 + ?u)) \<le> p' / t'"
    using assms(1,4,9) t' t(1) p' by (intro frac_le) simp_all
  then have "?r * ((1 - ?u) / (1 + ?u) * (1 - ?u)) \<le> x"
    using assms(5) by (simp add: field_simps)
  then have "100 * ?r * ((1 - ?u) / (1 + ?u) * (1 - ?u) * (1 - ?u)) \<le> y"
    using assms(7) by simp
  moreover have "100 * ?r * (1 - 5 * ?u) \<le> 100 * ?r * ((1 - ?u) / (1 + ?u) * (1 - ?u) * (1 - ?u))"
    using t(2) by (intro mult_left_mono) simp_all
  ultimately have low: "100 * ?r * (1 - 5 * ?u) \<le> y" by linarith
  have e: "100 * ?r * (1 + 5 * ?u) = 100 * ?r + 500 * ?u * ?r" "100 * ?r * (1 - 5 * ?u) = 100 * ?r - 500 * ?u * ?r"
    by (simp_all add: algebra_simps)
  have "500 * ?u * ?r \<le> 500 * ?u * 1" using t(3) by (intro mult_left_mono) simp_all
  with up [unfolded e] low [unfolded e] show ?thesis by linarith
qed

text \<open>The percentage: never above 100, and within a few units in the last place of the exact ratio.\<close>

lemma percentage_bounds:
  assumes "0 < tot" and "rx \<le> tot" and "tot < 2 ^ 64"
  shows "\<exists>q. bench_percentage rx tot = Num False q \<and> 0 \<le> q \<and> q \<le> 100
    \<and> \<bar>q - 100 * of_nat rx / of_nat tot\<bar> \<le> 500 * half_ulp \<and> (rx = tot \<longrightarrow> q = 100)"
proof -
  let ?p = "round_magnitude (of_nat rx)" and ?t = "round_magnitude (of_nat tot)"
  let ?x = "round_magnitude (?p / ?t)"
  have tot: "?t \<le> of_nat tot * (1 + half_ulp)" "of_nat tot * (1 - half_ulp) \<le> ?t"
    using assms(1) by (intro round_magnitude_factor normal_range [of 0]; simp)+
  then have t0: "0 < ?t" using assms(1) by (intro less_le_trans [OF _ tot(2)]) simp
  have p0: "0 \<le> ?p" "?p \<le> ?t" using assms(2) by (simp_all add: round_magnitude_nonneg round_magnitude_mono)
  then have le1: "0 \<le> ?p / ?t" "?p / ?t \<le> 1" using t0 by simp_all
  have "?x \<le> round_magnitude (of_nat 1)" using le1 by (intro round_magnitude_mono) simp_all
  then have x: "0 \<le> ?x" "?x \<le> 1" using round_magnitude_of_nat [of 1] round_magnitude_nonneg [OF le1(1)] by simp_all
  have "make_double False (?p / ?t) = Num False ?x" using le1 by (intro make_double_small) simp_all
  moreover have "double_of_nat 100 = Num False 100"
    using double_of_nat_small(1) [of 100] round_magnitude_of_nat [of 100] by simp
  moreover have "rx < 2 ^ 64" using assms(2,3) by simp
  ultimately have b: "bench_percentage rx tot = Num False (round_magnitude (?x * 100))"
    using double_of_nat_small(1) [OF assms(3)] double_of_nat_small(1) [of rx] t0 x
    by (simp add: bench_percentage_def make_double_small(1))
  have y: "0 \<le> round_magnitude (?x * 100)" "round_magnitude (?x * 100) \<le> 100"
    using x by (simp_all add: make_double_small)
  moreover have "round_magnitude (?x * 100) = 100" if "rx = tot"
    using that t0 round_magnitude_of_nat [of 1] round_magnitude_of_nat [of 100] by simp
  moreover have "\<bar>round_magnitude (?x * 100) - 100 * (of_nat rx / of_nat tot)\<bar> \<le> 500 * half_ulp"
  proof (cases "rx = 0")
    case False
    have "round_magnitude (of_nat 1) \<le> ?p" using False by (intro round_magnitude_mono) simp_all
    then have "1 \<le> ?p" using round_magnitude_of_nat [of 1] by simp
    then have n1: "1 / 2 ^ 65 \<le> ?p / ?t" using double_of_nat_small(2) [OF assms(3)] t0 by (intro frac_le) simp_all
    note xf = round_magnitude_factor [OF normal_range [OF n1]]
    have "1 / 2 ^ 65 * (1 - half_ulp) \<le> ?x" using n1 by (intro order_trans [OF _ xf(1)] mult_right_mono) simp_all
    then have n2: "1 / 2 ^ 65 \<le> ?x * 100" by simp
    show ?thesis
      by (rule rounded_percentage_error [of _ ?p _ ?t ?x])
        (use False assms(2) tot xf round_magnitude_factor [OF normal_range [OF n2]]
           round_magnitude_factor [OF normal_range [of 0 "of_nat rx"]] in simp_all)
  qed simp
  ultimately show ?thesis using b by (intro exI [of _ "round_magnitude (?x * 100)"]) simp
qed

text \<open>C34. The printed progress is right to one decimal. While the server has received \<open>rx\<close> of the target and more than
  0.05 seconds have passed, the line shows the percentage as a number with one decimal, from 0.0 to 100.0, that is
  within 0.05, and the error of four roundings to 53 bits, of the exact ratio; when everything was received it shows
  100.0.\<close>

theorem bench_progress_accurate:
  fixes config :: BenchmarkConfig
  defines "tot \<equiv> unat (bench_total_bytes config)"
  assumes "0 < tot" and "rx \<le> tot" and "plain_format os" and "double_less (make_double False (1 / 20)) (seconds ns)"
  shows "\<exists>k rest. os_text (bench_progress config rx ns os) =
      os_text os @ [CHR 0x0D] @ ''[Progress] '' @ show_decimal 1 k @ ''% ('' @ rest
    \<and> k \<le> 1000 \<and> \<bar>of_nat k / 10 - 100 * of_nat rx / of_nat tot\<bar> \<le> 1 / 20 + 500 / (2 ^ 53 :: rat)
    \<and> (rx = tot \<longrightarrow> k = 1000)"
proof -
  have "tot < 2 ^ 64" using unsigned_less [of "bench_total_bytes config", where ?'a = nat] by (simp add: tot_def)
  from percentage_bounds [OF assms(2,3) this]
  obtain q where q: "bench_percentage rx tot = Num False q" "0 \<le> q" "q \<le> 100"
      "\<bar>q - 100 * of_nat rx / of_nat tot\<bar> \<le> 500 * half_ulp" "rx = tot \<Longrightarrow> q = 100" by blast
  define k where "k = nat (round_half_even (q * 10))"
  have "round_half_even (of_int 0) \<le> round_half_even (q * 10)" "round_half_even (q * 10) \<le> round_half_even (of_int 1000)"
    using q(2,3) by (intro round_half_even_mono; simp)+
  then have k: "0 \<le> round_half_even (q * 10)" "k \<le> 1000" unfolding round_half_even_of_int k_def by simp_all
  have "of_nat k = (of_int (round_half_even (q * 10)) :: rat)" using k(1) by (simp add: k_def)
  then have "\<bar>of_nat k / 10 - q\<bar> \<le> 1 / 20" using round_half_even_error [of "q * 10"] by linarith
  then have "\<bar>of_nat k / 10 - 100 * of_nat rx / of_nat tot\<bar> \<le> 1 / 20 + 500 / (2 ^ 53 :: rat)" using q(4) by linarith
  moreover have "rx = tot \<longrightarrow> k = 1000" using q(5) round_half_even_of_int [of 1000] by (simp add: k_def)
  moreover have "\<exists>rest. os_text (bench_progress config rx ns os) =
      os_text os @ [CHR 0x0D] @ ''[Progress] '' @ show_decimal 1 k @ ''% ('' @ rest"
    using assms(4,5) q(1) unfolding tot_def
    by (simp add: bench_progress_def Let_def k_def show_sign_def)
  ultimately show ?thesis using k(2) by blast
qed

theorem bench_progress_accurate_witness:
  "\<exists>k rest. os_text (bench_progress BenchmarkConfig_new 5000000 1000000000 os_new) =
      [CHR 0x0D] @ ''[Progress] '' @ show_decimal 1 k @ ''% ('' @ rest \<and> k \<le> 1000
    \<and> \<bar>of_nat k / 10 - 100 * 5000000 / 52428800\<bar> \<le> 1 / 20 + 500 / (2 ^ 53 :: rat)"
proof -
  have tot: "unat (bench_total_bytes BenchmarkConfig_new) = 52428800"
    by (simp add: bench_total_bytes_def BenchmarkConfig_new_def)
  have "double_of_nat 1000000000 = Num False 1000000000"
    using double_of_nat_small(1) [of 1000000000] round_magnitude_of_nat [of 1000000000] by simp
  then have "seconds 1000000000 = make_double False 1"
    by (simp add: seconds_def double_of_int_def double_of_nat_def)
  then have sec: "seconds 1000000000 = Num False 1"
    using make_double_small(1) [of 1] round_magnitude_of_nat [of 1] by simp
  have "round_magnitude (1 / 20) \<le> 1 / 20 * (1 + half_ulp)"
    by (intro round_magnitude_factor(2) normal_range [of 5]) simp_all
  then have "double_less (make_double False (1 / 20)) (seconds 1000000000)"
    unfolding sec using make_double_small(1) [of "1 / 20"] by (simp add: signed_value_def)
  then show ?thesis
    using bench_progress_accurate [of BenchmarkConfig_new 5000000 os_new 1000000000] unfolding tot by simp
qed

subsection \<open>The exit code\<close>

lemma bench_main_ends:
  assumes "bench_args args BenchmarkConfig_new = Run config" and "TunDevice_new d (Some ''tun0'') = Some tun"
    and "bench_main d e prog args s server_found client_found samples ns os = Some (Inr (code, os'))"
  obtains ntx ct sc nrx cr sr where
    "bench_client_thread (e\<lparr>env_tun := tun\<rparr>) config TcpSocket_new client_found = Some (ntx, ct, sc)"
    "bench_server_thread (e\<lparr>env_tun := tun\<rparr>) config (fst (bench_setup (e\<lparr>env_tun := tun\<rparr>) s)) server_found = Some (nrx, cr, sr)"
    "code = (if bench_checksum_match ct cr nrx (unat (bench_total_bytes config)) then 0 else 1)"
proof -
  obtain sock s' where sock: "bench_setup (e\<lparr>env_tun := tun\<rparr>) s = (sock, s')"
    by (cases "bench_setup (e\<lparr>env_tun := tun\<rparr>) s")
  show thesis
    using assms(3) that
    unfolding bench_main_def assms(1,2) parsed_args.case option.case Let_def sock prod.case bind_eq_Some_conv
    by (fastforce simp: bind_eq_Some_conv split: prod.splits)
qed

lemma bench_client_ends:
  assumes "bench_client_thread e config sock found0 = Some (n, c, s)"
  obtains k found xs rest where "await_connected e bench_server_addr sock found0 = Some (k, found)"
    "client_stream (bench_tx_chunk config) (unat (bench_total_bytes config)) k 0 found = Some (xs, rest)"
    "n = length xs" "c = FastChecksum xs 0"
  using assms that by (fastforce simp: bench_client_thread_def bench_client_stream bind_eq_Some_conv split: prod.splits)

lemma bench_server_ends:
  assumes "bench_server_thread e config sock found0 = Some (n, c, s)"
  obtains k s' found ys rest where "await_accept sock found0 = Some (k, s', found)"
    "server_stream (bidirectional config) (unat (chunk_size config * 2)) (unat (bench_total_bytes config)) k 0 found
       = Some (ys, rest)"
    "n = length ys" "c = FastChecksum ys 0"
  using assms that by (fastforce simp: bench_server_thread_def bench_server_stream bind_eq_Some_conv split: prod.splits)

text \<open>C33. What the exit code of the benchmark says. A run with valid arguments and an open device ends: \<open>xs\<close> are the bytes
  that the client's calls of \<^verbatim>\<open>send\<close> accepted after its \<^verbatim>\<open>connect\<close>, and \<open>ys\<close> those that the server's calls of \<^verbatim>\<open>recv\<close>
  returned after its \<^verbatim>\<open>accept\<close>, both functions of the states that the threads found. The client offered the chunk from its
  start each time and handed over exactly the target; the server got at most that. The exit code is 0 exactly when the
  server got the target and the rolling checksums of \<open>xs\<close> and \<open>ys\<close> agree, and 1 otherwise: 0 when the stream arrived
  unchanged, 1 when it was cut short or one byte of it was changed.\<close>

theorem bench_exit_code:
  assumes "bench_args args BenchmarkConfig_new = Run config" and "TunDevice_new d (Some ''tun0'') = Some tun"
    and "bench_main d e prog args s server_found client_found samples ns os = Some (Inr (code, os'))"
  defines "tot \<equiv> unat (bench_total_bytes config)" and "e' \<equiv> e\<lparr>env_tun := tun\<rparr>"
  shows "\<exists>k found xs rest k' s' found' ys rest'.
      await_connected e' bench_server_addr TcpSocket_new client_found = Some (k, found)
    \<and> client_stream (bench_tx_chunk config) tot k 0 found = Some (xs, rest)
    \<and> await_accept (fst (bench_setup e' s)) server_found = Some (k', s', found')
    \<and> server_stream (bidirectional config) (unat (chunk_size config * 2)) tot k' 0 found' = Some (ys, rest')
    \<and> (\<exists>cs. send_calls k found cs rest \<and> accepted cs = xs
        \<and> (\<forall>(data, m) \<in> set cs. data = take (length data) (bench_tx_chunk config)))
    \<and> (\<exists>ds. recv_calls k' found' ds rest' \<and> concat ds = ys)
    \<and> length xs = tot \<and> length ys \<le> tot
    \<and> code = (if length ys = tot \<and> FastChecksum xs 0 = FastChecksum ys 0 then 0 else 1)
    \<and> (ys = xs \<longrightarrow> code = 0) \<and> (length ys < tot \<longrightarrow> code = 1)
    \<and> (\<forall>p a b q. xs = p @ a # q \<and> ys = p @ b # q \<and> a \<noteq> b \<longrightarrow> code = 1)"
proof -
  obtain ntx ct sc nrx cr sr where r:
      "bench_client_thread e' config TcpSocket_new client_found = Some (ntx, ct, sc)"
      "bench_server_thread e' config (fst (bench_setup e' s)) server_found = Some (nrx, cr, sr)"
      "code = (if bench_checksum_match ct cr nrx tot then 0 else 1)"
    by (rule bench_main_ends [OF assms(1-3), folded tot_def e'_def])
  obtain k found xs rest where c: "await_connected e' bench_server_addr TcpSocket_new client_found = Some (k, found)"
      "client_stream (bench_tx_chunk config) tot k 0 found = Some (xs, rest)" "ct = FastChecksum xs 0"
    by (rule bench_client_ends [OF r(1), folded tot_def])
  obtain k' s' found' ys rest' where v: "await_accept (fst (bench_setup e' s)) server_found = Some (k', s', found')"
      "server_stream (bidirectional config) (unat (chunk_size config * 2)) tot k' 0 found' = Some (ys, rest')"
      "nrx = length ys" "cr = FastChecksum ys 0"
    by (rule bench_server_ends [OF r(2), folded tot_def])
  obtain cs where cs: "send_calls k found cs rest" "\<forall>(data, m) \<in> set cs. data = take (length data) (bench_tx_chunk config)"
      "accepted cs = xs" "length xs = tot"
    using client_stream_calls [OF c(2)] by auto
  obtain ds where ds: "recv_calls k' found' ds rest'" "concat ds = ys" "length ys \<le> tot"
    using server_stream_calls [OF v(2)] by auto
  have code: "code = (if length ys = tot \<and> FastChecksum xs 0 = FastChecksum ys 0 then 0 else 1)"
    using r(3) c(3) v(3,4) by (simp add: bench_checksum_match_def conj_commute)
  then have "\<forall>p a b q. xs = p @ a # q \<and> ys = p @ b # q \<and> a \<noteq> b \<longrightarrow> code = 1"
    by (auto simp: FastChecksum_inject_seed widen_inject)
  then show ?thesis using c(1,2) v(1,2) cs ds code by (intro exI conjI) (assumption | simp)+
qed

text \<open>Whole chunks that are sent and received.\<close>

lemma client_stream_repeat:
  assumes "tx \<noteq> []" and "length tx \<le> 65535"
  shows "client_stream tx (n + j * length tx) \<lparr>sock_id = 1\<rparr> n (replicate j (example_received False []) @ rest)
    = Some (concat (replicate j tx), rest)"
proof (induction j arbitrary: n)
  case (Suc j)
  let ?found = "replicate j (example_received False []) @ rest"
  obtain s where a: "await_send \<lparr>sock_id = 1\<rparr> tx (example_received False [] # ?found) = Some (length tx, s, ?found)"
    using await_example(2) [of "[]" tx False ?found] assms(2) by (auto simp: min_def)
  have "client_stream tx (n + Suc j * length tx) \<lparr>sock_id = 1\<rparr> (n + length tx) ?found = Some (concat (replicate j tx), rest)"
    using Suc [of "n + length tx"] by (simp add: add.assoc)
  then show ?case
    using assms(1) a by (subst client_stream.simps) (simp add: min_def del: await_send.simps)
qed (simp add: client_stream.simps)

lemma server_stream_repeat:
  assumes "tx \<noteq> []" and "length tx \<le> 65535" and "length tx \<le> m"
  shows "server_stream False m (n + j * length tx) \<lparr>sock_id = 1\<rparr> n (replicate j (example_received False tx) @ rest)
    = Some (concat (replicate j tx), rest)"
proof (induction j arbitrary: n)
  case (Suc j)
  let ?found = "replicate j (example_received False tx) @ rest" and ?m = "min m (Suc j * length tx)"
  have "length tx \<le> ?m" using assms(3) by simp
  then obtain s where a: "await_recv \<lparr>sock_id = 1\<rparr> ?m (example_received False tx # ?found) = Some (tx, s, ?found)"
    using await_example(1) [of tx False ?m ?found] assms(1,2) by auto
  have "server_stream False m (n + Suc j * length tx) \<lparr>sock_id = 1\<rparr> (n + length tx) ?found = Some (concat (replicate j tx), rest)"
    using Suc [of "n + length tx"] by (simp add: add.assoc)
  then show ?case
    using assms(1) a by (subst server_stream.simps) (simp del: await_recv.simps)
qed (simp add: server_stream.simps)

text \<open>The server's socket has the number 2, and the connection with the number 1 waits in its queue.\<close>

definition example_queued :: "stack_env \<Rightarrow> TcpStack" where
  "example_queued e = modify_tcb 2 (\<lambda>t. t\<lparr>accept_queue := [1]\<rparr>) (snd (bench_setup e (example_received False [])))"

lemma example_queued_accept:
  "fst (bench_setup e (example_received False [])) = \<lparr>sock_id = 2\<rparr>"
  "\<exists>s. await_accept \<lparr>sock_id = 2\<rparr> (example_queued e # found) = Some (\<lparr>sock_id = 1\<rparr>, s, found)"
proof -
  have a: "bench_server_addr = \<lparr>address = 0x0A000003, port = 9095\<rparr>" by (simp add: bench_server_addr_def from_string_eval)
  note defs = bench_setup_def a TcpSocket_listen_def TcpSocket_bind_def bind_socket_def
      ListenerTable_bind_new_def SocketTable_create_socket_def TcpStack_new_def example_received_def example_stack_def
      Let_def get_tcb_def SocketTable_find_socket_def generate_random_uint32_def modify_tcb_def
      SocketTable_modify_def ListenerTable_find_def SocketTable_contains_def TCB_new_def TcpSocket_new_def
  show "fst (bench_setup e (example_received False [])) = \<lparr>sock_id = 2\<rparr>"
    by (simp add: defs)
  show "\<exists>s. await_accept \<lparr>sock_id = 2\<rparr> (example_queued e # found) = Some (\<lparr>sock_id = 1\<rparr>, s, found)"
    by (simp add: example_queued_def TcpSocket_accept_def defs)
qed

text \<open>A megabyte in 32 chunks.\<close>

definition example_benchmark :: BenchmarkConfig where
  "example_benchmark = \<lparr>total_mb = 1, chunk_size = 32768, bidirectional = False\<rparr>"

definition example_sender :: "TcpStack list" where
  "example_sender = TcpStack_new # example_received False [] # replicate 32 (example_received False [])
     @ [example_received False []]"

definition example_receiver :: "stack_env \<Rightarrow> TcpStack list" where
  "example_receiver e = example_queued e # replicate 32 (example_received False (bench_tx_chunk example_benchmark))
     @ [example_received False []]"

lemma example_benchmark_facts:
  "bench_args [''--mb'', ''1'', ''--chunk'', ''32768''] BenchmarkConfig_new = Run example_benchmark"
  "unat (bench_total_bytes example_benchmark) = 32 * 32768" "length (bench_tx_chunk example_benchmark) = 32768"
  "unat (chunk_size example_benchmark * 2) = 65536"
proof -
  have "map digit_char [1, 3, 2, 7, 6, 8] = ''132768''" by code_simp
  then have "show_nat 1 = ''1''" "show_nat 32768 = ''32768''" by (simp_all add: show_nat.simps)
  then have "std_stoul ''1'' = Inr 1" "std_stoul ''32768'' = Inr 32768"
    using std_stoul_show [of 1] std_stoul_show [of 32768] by simp_all
  then show "bench_args [''--mb'', ''1'', ''--chunk'', ''32768''] BenchmarkConfig_new = Run example_benchmark"
    by (simp add: BenchmarkConfig_new_def example_benchmark_def)
qed (simp_all add: bench_total_bytes_def bench_tx_chunk_def example_benchmark_def)

lemma example_sender_ends:
  "\<exists>s. bench_client_thread e example_benchmark TcpSocket_new example_sender =
     Some (32 * 32768, FastChecksum (concat (replicate 32 (bench_tx_chunk example_benchmark))) 0, s)"
proof -
  let ?s = "example_received False []" and ?tx = "bench_tx_chunk example_benchmark"
  obtain t where t: "get_tcb ?s 1 = Some t" "current_state t = ESTABLISHED"
    using example_received_block [of "[]" False] by auto
  have "get_tcb TcpStack_new i = None" for i
    by (simp add: TcpStack_new_def get_tcb_def SocketTable_new_def SocketTable_find_socket_def)
  then obtain s1 where s1: "TcpSocket_connect_start e bench_server_addr TcpSocket_new TcpStack_new = (\<lparr>sock_id = 1\<rparr>, s1)"
      "get_tcb s1 1 \<noteq> None"
    using connect_start_facts [of TcpStack_new e bench_server_addr] by auto
  then have k: "await_connected e bench_server_addr TcpSocket_new example_sender = Some (\<lparr>sock_id = 1\<rparr>, replicate 32 ?s @ [?s])"
    using t by (simp add: example_sender_def await_connected_def next_state_def TcpSocket_connect_ready_def)
  have "?tx \<noteq> []" using example_benchmark_facts(3) by (metis list.size(3) zero_neq_numeral)
  then have c: "client_stream ?tx (32 * 32768) \<lparr>sock_id = 1\<rparr> 0 (replicate 32 ?s @ [?s]) = Some (concat (replicate 32 ?tx), [?s])"
    using client_stream_repeat [of ?tx 0 32 "[?s]"] unfolding example_benchmark_facts(3) by simp
  have "length (concat (replicate 32 ?tx)) = 32 * 32768" by (simp add: length_concat sum_list_replicate example_benchmark_facts(3))
  then have "bench_client ?tx (32 * 32768) \<lparr>sock_id = 1\<rparr> 0 0 (replicate 32 ?s @ [?s])
      = Some (32 * 32768, FastChecksum (concat (replicate 32 ?tx)) 0, [?s])"
    unfolding bench_client_stream c by simp
  then show ?thesis
    unfolding bench_client_thread_def k example_benchmark_facts(2) by (simp add: await_close_def next_state_def)
qed

lemma example_receiver_ends:
  "\<exists>s. bench_server_thread e example_benchmark \<lparr>sock_id = 2\<rparr> (example_receiver e) =
     Some (32 * 32768, FastChecksum (concat (replicate 32 (bench_tx_chunk example_benchmark))) 0, s)"
proof -
  let ?s = "example_received False []" and ?tx = "bench_tx_chunk example_benchmark"
  let ?found = "replicate 32 (example_received False ?tx) @ [?s]"
  obtain s where k: "await_accept \<lparr>sock_id = 2\<rparr> (example_receiver e) = Some (\<lparr>sock_id = 1\<rparr>, s, ?found)"
    using example_queued_accept(2) [of e ?found] unfolding example_receiver_def by blast
  have "?tx \<noteq> []" using example_benchmark_facts(3) by (metis list.size(3) zero_neq_numeral)
  then have c: "server_stream False 65536 (32 * 32768) \<lparr>sock_id = 1\<rparr> 0 ?found = Some (concat (replicate 32 ?tx), [?s])"
    using server_stream_repeat [of ?tx 65536 0 32 "[?s]"] unfolding example_benchmark_facts(3) by simp
  have "length (concat (replicate 32 ?tx)) = 32 * 32768" by (simp add: length_concat sum_list_replicate example_benchmark_facts(3))
  then have "bench_server False 65536 (32 * 32768) \<lparr>sock_id = 1\<rparr> 0 0 ?found
      = Some (32 * 32768, FastChecksum (concat (replicate 32 ?tx)) 0, [?s])"
    unfolding bench_server_stream c by simp
  moreover have "\<not> bidirectional example_benchmark" by (simp add: example_benchmark_def)
  ultimately show ?thesis
    unfolding bench_server_thread_def k example_benchmark_facts(2,4) by (simp add: await_close_def next_state_def)
qed

theorem bench_exit_code_witness:
  "\<exists>os'. bench_main \<lparr>os_open = 3, os_tunsetiff = (\<lambda>_ nm. (0, nm))\<rparr> example_env ''bench''
       [''--mb'', ''1'', ''--chunk'', ''32768''] (example_received False [])
       (example_receiver (example_env\<lparr>env_tun := \<lparr>fd = 3, name = ''tun0''\<rparr>\<rparr>)) example_sender
       [(1048576, 1048576, 0, 0)] 1 os_new = Some (Inr (0, os'))
     \<and> (\<exists>k found xs rest. await_connected (example_env\<lparr>env_tun := \<lparr>fd = 3, name = ''tun0''\<rparr>\<rparr>) bench_server_addr TcpSocket_new
           example_sender = Some (k, found)
         \<and> client_stream (bench_tx_chunk example_benchmark) 1048576 k 0 found = Some (xs, rest) \<and> length xs = 1048576)"
proof -
  let ?d = "\<lparr>os_open = 3, os_tunsetiff = (\<lambda>_ nm. (0, nm))\<rparr>" and ?e = "example_env\<lparr>env_tun := \<lparr>fd = 3, name = ''tun0''\<rparr>\<rparr>"
  let ?args = "[''--mb'', ''1'', ''--chunk'', ''32768'']"
  note a = example_benchmark_facts(1)
  have d: "TunDevice_new ?d (Some ''tun0'') = Some \<lparr>fd = 3, name = ''tun0''\<rparr>"
    by (simp add: TunDevice_new_def TunDevice_tun_alloc_def)
  obtain sc where c: "bench_client_thread ?e example_benchmark TcpSocket_new example_sender =
      Some (32 * 32768, FastChecksum (concat (replicate 32 (bench_tx_chunk example_benchmark))) 0, sc)"
    using example_sender_ends by blast
  obtain sr where v: "bench_server_thread ?e example_benchmark \<lparr>sock_id = 2\<rparr> (example_receiver ?e) =
      Some (32 * 32768, FastChecksum (concat (replicate 32 (bench_tx_chunk example_benchmark))) 0, sr)"
    using example_receiver_ends by blast
  obtain s where su: "bench_setup ?e (example_received False []) = (\<lparr>sock_id = 2\<rparr>, s)"
    using example_queued_accept(1) [of ?e] by (metis prod.collapse)
  obtain os' where m: "bench_main ?d example_env ''bench'' ?args (example_received False []) (example_receiver ?e) example_sender
      [(1048576, 1048576, 0, 0)] 1 os_new = Some (Inr (0, os'))"
    unfolding bench_main_def a d parsed_args.case option.case Let_def su prod.case c v bench_monitor.simps
    by (simp add: example_benchmark_facts(2) bench_checksum_match_def del: concat_replicate_trivial)
  with bench_exit_code [OF a d this] show ?thesis unfolding example_benchmark_facts(2) by simp blast
qed

end
