(* ===== verification/Load_Test.thy ===== *)
theory Load_Test
  imports Application_Calls
begin

text \<open>
  \<^verbatim>\<open>load_test.cpp\<close>: two phases of ping-pong traffic between client and server threads, which count their
  sends and the sends they take to have failed. A thread is modelled by its loop and by what it adds to
  the atomic counters, which all threads share; the counters of a phase are the sums, modulo \<open>2\<^sup>6\<^sup>4\<close>. The
  derived rates, their display and \<^verbatim>\<open>main\<close> are in \<open>Load_Report\<close>.

  The lemmas show what the counter of failed sends counts.
\<close>

record LoadTestConfig =
  single_stream_iterations :: u64
  concurrent_streams :: u64
  concurrent_iterations_per_stream :: u64
  payload_size :: u64

definition LoadTestConfig_new :: LoadTestConfig where
  "LoadTestConfig_new = \<lparr>single_stream_iterations = 1000, concurrent_streams = 8,
     concurrent_iterations_per_stream = 100, payload_size = 64\<rparr>"

definition load_PrintUsage :: "string \<Rightarrow> ostream \<Rightarrow> ostream" where
  "load_PrintUsage prog = emit
     [put_text (''TinyCP Load Testing Suite'' @ [newline]),
      put_text (''Usage:'' @ [newline]),
      put_text ''  '', put_text prog, put_text ('' [OPTIONS]'' @ [newline, newline]),
      put_text (''Options:'' @ [newline]),
      put_text (''  --iterations <N>      Number of single-stream iterations (default: 1000)'' @ [newline]),
      put_text (''  --streams <K>         Number of concurrent socket streams (default: 8)'' @ [newline]),
      put_text (''  --per-stream <M>      Iterations per concurrent stream (default: 100)'' @ [newline]),
      put_text (''  --payload <bytes>     Payload size in bytes (default: 64)'' @ [newline]),
      put_text (''  --help, -h            Show this help message'' @ [newline, newline])]"

fun load_args :: "string list \<Rightarrow> LoadTestConfig \<Rightarrow> LoadTestConfig parsed_args" where
  "load_args [] config = Run config"
| "load_args (arg # args) config =
     (if arg = ''--iterations'' \<and> args \<noteq> [] then
        (case std_stoul (hd args) of
           Inl e \<Rightarrow> Throws e | Inr n \<Rightarrow> load_args (tl args) (config\<lparr>single_stream_iterations := n\<rparr>))
      else if arg = ''--streams'' \<and> args \<noteq> [] then
        (case std_stoul (hd args) of
           Inl e \<Rightarrow> Throws e | Inr n \<Rightarrow> load_args (tl args) (config\<lparr>concurrent_streams := n\<rparr>))
      else if arg = ''--per-stream'' \<and> args \<noteq> [] then
        (case std_stoul (hd args) of
           Inl e \<Rightarrow> Throws e | Inr n \<Rightarrow> load_args (tl args) (config\<lparr>concurrent_iterations_per_stream := n\<rparr>))
      else if arg = ''--payload'' \<and> args \<noteq> [] then
        (case std_stoul (hd args) of
           Inl e \<Rightarrow> Throws e | Inr n \<Rightarrow> load_args (tl args) (config\<lparr>payload_size := n\<rparr>))
      else if arg = ''--help'' \<or> arg = ''-h'' then Show_usage
      else load_args args config)"

text \<open>What a thread adds to the counters.\<close>

record load_counters =
  total_sends :: nat
  failed_sends :: nat
  completed_transactions :: nat

definition load_counters_new :: load_counters where
  "load_counters_new = \<lparr>total_sends = 0, failed_sends = 0, completed_transactions = 0\<rparr>"

definition count_send :: "load_counters \<Rightarrow> load_counters" where
  "count_send c = c\<lparr>total_sends := total_sends c + 1\<rparr>"

definition check_sent :: "nat \<Rightarrow> load_counters \<Rightarrow> load_counters" where
  "check_sent n_sent c = (if n_sent = 4544 then c\<lparr>failed_sends := failed_sends c + 1\<rparr> else c)"

subsection \<open>Phase one: a single stream\<close>

definition single_setup :: "stack_env \<Rightarrow> TcpStack \<Rightarrow> TcpSocket \<times> TcpStack" where
  "single_setup e s =
     (let (server_socket, s) = TcpSocket_bind e (IPv4Address_from_string ''10.0.0.3:9090'') TcpSocket_new s;
          s = TcpSocket_listen server_socket s
      in (server_socket, s))"

definition send_payload :: "u64 \<Rightarrow> bytes" where
  "send_payload n_payload = replicate (unat n_payload) (of_char (CHR ''A''))"

fun single_server ::
  "TcpSocket \<Rightarrow> bytes \<Rightarrow> nat \<Rightarrow> nat \<Rightarrow> load_counters \<Rightarrow> TcpStack list \<Rightarrow> (load_counters \<times> TcpStack list) option" where
  "single_server k payload recv_size 0 c found = Some (c, found)"
| "single_server k payload recv_size (Suc i) c found = do {
     (data, _, found) \<leftarrow> await_recv k recv_size found;
     if data \<noteq> [] then do {
       let c = count_send c;
       (n_sent, _, found) \<leftarrow> await_send k payload found;
       single_server k payload recv_size i (check_sent n_sent c) found
     } else single_server k payload recv_size i c found
   }"

fun single_client ::
  "TcpSocket \<Rightarrow> bytes \<Rightarrow> nat \<Rightarrow> nat \<Rightarrow> load_counters \<Rightarrow> TcpStack list \<Rightarrow> (load_counters \<times> TcpStack list) option" where
  "single_client k payload recv_size 0 c found = Some (c, found)"
| "single_client k payload recv_size (Suc i) c found = do {
     let c = count_send c;
     (n_sent, _, found) \<leftarrow> await_send k payload found;
     let c = check_sent n_sent c;
     (_, _, found) \<leftarrow> await_recv k recv_size found;
     single_client k payload recv_size i c found
   }"

definition single_server_thread ::
  "stack_env \<Rightarrow> u64 \<Rightarrow> u64 \<Rightarrow> TcpSocket \<Rightarrow> TcpStack list \<Rightarrow> (load_counters \<times> TcpStack) option" where
  "single_server_thread e iterations n_payload server_socket found = do {
     (accepted, _, found) \<leftarrow> await_accept server_socket found;
     (c, found) \<leftarrow> single_server accepted (send_payload n_payload) (unat (n_payload + 64)) (unat iterations)
       load_counters_new found;
     (s, _) \<leftarrow> await_close e accepted found;
     Some (c, s)
   }"

definition single_client_thread ::
  "stack_env \<Rightarrow> u64 \<Rightarrow> u64 \<Rightarrow> TcpSocket \<Rightarrow> TcpStack list \<Rightarrow> (load_counters \<times> TcpStack) option" where
  "single_client_thread e iterations n_payload client_socket found = do {
     (client_socket, found) \<leftarrow> await_connected e (IPv4Address_from_string ''10.0.0.3:9090'') client_socket found;
     (c, found) \<leftarrow> single_client client_socket (send_payload n_payload) (unat (n_payload + 64))
       (unat iterations) load_counters_new found;
     (s, _) \<leftarrow> await_close e client_socket found;
     Some (c, s)
   }"

subsection \<open>Phase two: concurrent streams\<close>

definition multi_setup :: "stack_env \<Rightarrow> TcpStack \<Rightarrow> TcpSocket \<times> TcpStack" where
  "multi_setup e s =
     (let (server_socket, s) = TcpSocket_bind e (IPv4Address_from_string ''10.0.0.3:9091'') TcpSocket_new s;
          s = TcpSocket_listen server_socket s
      in (server_socket, s))"

definition client_payload :: "u64 \<Rightarrow> bytes" where
  "client_payload n_payload = replicate (unat n_payload) (of_char (CHR ''X''))"

text \<open>A server worker sends back what it received.\<close>

fun multi_server ::
  "TcpSocket \<Rightarrow> nat \<Rightarrow> nat \<Rightarrow> load_counters \<Rightarrow> TcpStack list \<Rightarrow> (load_counters \<times> TcpStack list) option" where
  "multi_server k n_payload 0 c found = Some (c, found)"
| "multi_server k n_payload (Suc it) c found = do {
     (data, _, found) \<leftarrow> await_recv k n_payload found;
     if data \<noteq> [] then do {
       let c = count_send c;
       (n_sent, _, found) \<leftarrow> await_send k data found;
       multi_server k n_payload it (check_sent n_sent c) found
     } else multi_server k n_payload it c found
   }"

fun multi_client ::
  "TcpSocket \<Rightarrow> bytes \<Rightarrow> nat \<Rightarrow> load_counters \<Rightarrow> TcpStack list \<Rightarrow> (load_counters \<times> TcpStack list) option" where
  "multi_client k payload 0 c found = Some (c, found)"
| "multi_client k payload (Suc it) c found = do {
     let c = count_send c;
     (n_sent, _, found) \<leftarrow> await_send k payload found;
     let c = check_sent n_sent c;
     (data, _, found) \<leftarrow> await_recv k (length payload) found;
     multi_client k payload it
       (if data \<noteq> [] then c\<lparr>completed_transactions := completed_transactions c + 1\<rparr> else c) found
   }"

definition multi_server_worker ::
  "stack_env \<Rightarrow> u64 \<Rightarrow> u64 \<Rightarrow> TcpSocket \<Rightarrow> TcpStack list \<Rightarrow> (load_counters \<times> TcpStack) option" where
  "multi_server_worker e iterations_per_stream n_payload server_socket found = do {
     (accepted, _, found) \<leftarrow> await_accept server_socket found;
     (c, found) \<leftarrow> multi_server accepted (unat n_payload) (unat iterations_per_stream) load_counters_new found;
     (s, _) \<leftarrow> await_close e accepted found;
     Some (c, s)
   }"

definition multi_client_worker ::
  "stack_env \<Rightarrow> u64 \<Rightarrow> u64 \<Rightarrow> TcpStack list \<Rightarrow> (load_counters \<times> TcpStack) option" where
  "multi_client_worker e iterations_per_stream n_payload found = do {
     (client, found) \<leftarrow> await_connected e (IPv4Address_from_string ''10.0.0.3:9091'') TcpSocket_new found;
     (c, found) \<leftarrow> multi_client client (client_payload n_payload) (unat iterations_per_stream)
       load_counters_new found;
     (s, _) \<leftarrow> await_close e client found;
     Some (c, s)
   }"

text \<open>The counters of a phase when all its threads have ended, and the verdict that is printed.\<close>

definition phase_counters :: "load_counters list \<Rightarrow> u64 \<times> u64 \<times> u64" where
  "phase_counters cs = (of_nat (sum_list (map total_sends cs)), of_nat (sum_list (map failed_sends cs)),
     of_nat (sum_list (map completed_transactions cs)))"

definition load_status :: "u64 \<Rightarrow> string" where
  "load_status fails = (if fails = 0 then ''SUCCESS'' else ''DEGRADED'')"

subsection \<open>What is counted as a failure\<close>

lemma counter_simps [simp]:
  "total_sends (count_send c) = total_sends c + 1" "failed_sends (count_send c) = failed_sends c"
  "total_sends (check_sent n c) = total_sends c"
  "failed_sends (check_sent n c) = failed_sends c + (if n = 4544 then 1 else 0)"
  by (simp_all add: count_send_def check_sent_def)

text \<open>The numbers that the successive calls of \<^verbatim>\<open>send\<close> returned to a thread.\<close>

definition returned_by_sends :: "TcpSocket \<Rightarrow> (bytes \<Rightarrow> bool) \<Rightarrow> TcpStack list \<Rightarrow> nat list \<Rightarrow> bool" where
  "returned_by_sends k P found ns \<longleftrightarrow>
     (\<forall>n \<in> set ns. \<exists>data s s'. P data \<and> s \<in> set found \<and> TcpSocket_send k data s = Returns n s')"

lemma returned_by_sends_mono:
  "returned_by_sends k P found1 ns \<Longrightarrow> set found1 \<subseteq> set found \<Longrightarrow> returned_by_sends k P found ns"
  unfolding returned_by_sends_def by blast

lemma returned_by_sends_Cons:
  assumes "await_send k data found1 = Some (n, s, found2)" and "P data" and "set found1 \<subseteq> set found"
    and "returned_by_sends k P found2 ns" and "set found2 \<subseteq> set found"
  shows "returned_by_sends k P found (n # ns)"
  using await_send_Some [OF assms(1)] assms(2-5) unfolding returned_by_sends_def by (simp, blast)

lemma single_client_counts:
  "single_client k payload m i c found = Some (c', rest) \<Longrightarrow>
     \<exists>ns. returned_by_sends k ((=) payload) found ns \<and> length ns = i \<and> total_sends c' = total_sends c + length ns
       \<and> failed_sends c' = failed_sends c + count_list ns 4544"
proof (induction k payload m i c found rule: single_client.induct)
  case (2 k payload m i c found)
  obtain n s found1 data s' found2 where a: "await_send k payload found = Some (n, s, found1)"
      "await_recv k m found1 = Some (data, s', found2)"
      "single_client k payload m i (check_sent n (count_send c)) found2 = Some (c', rest)"
    using 2(2) by (auto simp: Let_def split: bind_splits)
  moreover obtain ns where "returned_by_sends k ((=) payload) found2 ns" "length ns = i"
      "total_sends c' = total_sends c + 1 + length ns"
      "failed_sends c' = failed_sends c + (if n = 4544 then 1 else 0) + count_list ns 4544"
    using 2(1) [OF refl a(1) refl refl refl a(2) refl refl a(3)] by auto
  ultimately show ?case
    using returned_by_sends_Cons [OF a(1), of "(=) payload"] await_recv_suffix [OF a(2)] await_send_suffix [OF a(1)]
      returned_by_sends_mono [of k "(=) payload" found2 ns found1]
    by (intro exI [of _ "n # ns"]) auto
qed (simp add: returned_by_sends_def)

lemma multi_client_counts:
  "multi_client k payload i c found = Some (c', rest) \<Longrightarrow>
     \<exists>ns. returned_by_sends k ((=) payload) found ns \<and> length ns = i \<and> total_sends c' = total_sends c + length ns
       \<and> failed_sends c' = failed_sends c + count_list ns 4544"
proof (induction k payload i c found rule: multi_client.induct)
  case (2 k payload i c found)
  let ?c = "\<lambda>n data. if data \<noteq> [] then (check_sent n (count_send c))
    \<lparr>completed_transactions := completed_transactions (check_sent n (count_send c)) + 1\<rparr> else check_sent n (count_send c)"
  obtain n s found1 data s' found2 where a: "await_send k payload found = Some (n, s, found1)"
      "await_recv k (length payload) found1 = Some (data, s', found2)"
      "multi_client k payload i (?c n data) found2 = Some (c', rest)"
    using 2(2) by (auto simp: Let_def split: bind_splits)
  moreover obtain ns where "returned_by_sends k ((=) payload) found2 ns" "length ns = i"
      "total_sends c' = total_sends c + 1 + length ns"
      "failed_sends c' = failed_sends c + (if n = 4544 then 1 else 0) + count_list ns 4544"
    using 2(1) [OF refl a(1) refl refl refl a(2) refl refl a(3)] by (auto split: if_splits)
  ultimately show ?case
    using returned_by_sends_Cons [OF a(1), of "(=) payload"] await_recv_suffix [OF a(2)] await_send_suffix [OF a(1)]
      returned_by_sends_mono [of k "(=) payload" found2 ns found1]
    by (intro exI [of _ "n # ns"]) auto
qed (simp add: returned_by_sends_def)

text \<open>On a socket without a control block no call blocks, and nothing is sent or received.\<close>

lemma single_client_no_block:
  "\<forall>s \<in> set found. get_tcb s (sock_id k) = None \<Longrightarrow> 2 * i \<le> length found \<Longrightarrow>
     \<exists>rest. single_client k payload m i c found = Some (c\<lparr>total_sends := total_sends c + i\<rparr>, rest)"
proof (induction i arbitrary: c found)
  case (Suc i)
  obtain s1 s2 found1 where f: "found = s1 # s2 # found1"
    using Suc.prems(2) by (cases found; cases "tl found") auto
  then have "single_client k payload m (Suc i) c found = single_client k payload m i (count_send c) found1"
    using Suc.prems(1) by (simp add: TcpSocket_send_def TcpSocket_recv_def check_sent_def)
  then show ?case using Suc.IH [of found1 "count_send c"] Suc.prems f by (simp add: count_send_def)
qed simp

lemma count_list_bounded: "\<forall>n \<in> set ns. n < (m :: nat) \<Longrightarrow> count_list ns m = 0"
  by (induction ns) auto

text \<open>The counter of failed sends does not count failures. A client's calls of \<^verbatim>\<open>send\<close> are counted as failed when
  they return 4544: so none ever is when the payload is shorter than 4544 bytes, and with a payload of 4544 bytes the
  calls counted are those that accepted all of it. When the connection is gone and no call sends anything, the loop
  ends with every send counted and none as failed.\<close>

theorem load_failures_miscounted:
  assumes "single_client k payload m i c found = Some (c', rest)"
  shows "(\<exists>ns. returned_by_sends k ((=) payload) found ns \<and> length ns = i
       \<and> total_sends c' = total_sends c + i \<and> failed_sends c' = failed_sends c + count_list ns 4544)
    \<and> (length payload < 4544 \<longrightarrow> failed_sends c' = failed_sends c)
    \<and> ((\<forall>s \<in> set found'. get_tcb s (sock_id k) = None) \<and> 2 * i \<le> length found' \<longrightarrow>
       (\<exists>rest'. single_client k payload m i c found' = Some (c\<lparr>total_sends := total_sends c + i\<rparr>, rest')))"
proof -
  obtain ns where ns: "returned_by_sends k ((=) payload) found ns" "length ns = i"
      "total_sends c' = total_sends c + i" "failed_sends c' = failed_sends c + count_list ns 4544"
    using single_client_counts [OF assms] by auto
  have "failed_sends c' = failed_sends c" if "length payload < 4544"
  proof -
    have "\<forall>n \<in> set ns. n < 4544"
      using ns(1) that send_bounded unfolding returned_by_sends_def by fastforce
    then show ?thesis using ns(4) count_list_bounded by simp
  qed
  then show ?thesis using ns single_client_no_block by blast
qed

theorem load_failures_miscounted_witness:
  "\<exists>c rest. single_client \<lparr>sock_id = 1\<rparr> (send_payload 64) 128 1 load_counters_new
       [example_received False [], example_received False [7]] = Some (c, rest) \<and> failed_sends c = 0
   \<and> (\<exists>rest. single_client \<lparr>sock_id = 1\<rparr> (send_payload 64) 128 1 load_counters_new [TcpStack_new, TcpStack_new] =
       Some (load_counters_new\<lparr>total_sends := total_sends load_counters_new + 1\<rparr>, rest))"
proof -
  let ?k = "\<lparr>sock_id = 1\<rparr>"
  obtain s1 where "await_send ?k (send_payload 64) [example_received False [], example_received False [7]] =
      Some (min (length (send_payload 64)) 65535, s1, [example_received False [7]])"
    using await_example(2) [of "[]"] by (metis le0 list.size(3))
  moreover obtain s2 where "await_recv ?k 128 [example_received False [7]] = Some (take 128 [7], s2, [])"
    using await_example(1) [of "[7]" False 128 "[]"] by (auto simp del: await_recv.simps)
  ultimately obtain c where c: "single_client ?k (send_payload 64) 128 1 load_counters_new
      [example_received False [], example_received False [7]] = Some (c, [])"
    by (simp add: Let_def del: await_send.simps await_recv.simps)
  have "get_tcb TcpStack_new i = None" for i
    by (simp add: TcpStack_new_def get_tcb_def SocketTable_new_def SocketTable_find_socket_def)
  then show ?thesis
    using c load_failures_miscounted [OF c, of "[TcpStack_new, TcpStack_new]"]
    by (simp add: send_payload_def load_counters_new_def)
qed

end
