(* ===== verification/Load_Report.thy ===== *)
theory Load_Report
  imports Load_Test Benchmark_Report
begin

text \<open>
  The output of \<^verbatim>\<open>load_test.cpp\<close> and its \<^verbatim>\<open>main\<close>: the banner and the results of the two phases. The
  stack states that the threads find and the elapsed times are arguments.

  The lemmas show what the printed failure rate can be, and that the exit code says nothing about the results.
\<close>

subsection \<open>Phase one\<close>

definition single_banner :: "u64 \<Rightarrow> u64 \<Rightarrow> ostream \<Rightarrow> ostream" where
  "single_banner iterations n_payload = emit
     [put_text ([newline] @ ''======================================================='' @ [newline]),
      put_text ('' [Phase 1] High-Volume Single-Stream Throughput Test   '' @ [newline]),
      put_text (''======================================================='' @ [newline]),
      put_text ''Iterations:   '', put_nat (unat iterations), put_text [newline],
      put_text ''Payload Size: '', put_nat (unat n_payload), put_text ('' bytes'' @ [newline]),
      put_text ''Total Data:   '',
      put_double (double_divide (double_of_nat (unat (iterations * n_payload * 2))) (double_of_nat 1024)),
      put_text ('' KB (bidirectional)'' @ [newline]),
      put_text (''-------------------------------------------------------'' @ [newline])]"

text \<open>The failure rate in percent, the same in both phases.\<close>

definition load_fail_rate :: "u64 \<Rightarrow> u64 \<Rightarrow> double" where
  "load_fail_rate all_sends fails =
     (if all_sends > 0
      then double_divide (double_times (double_of_nat 100) (double_of_nat (unat fails))) (double_of_nat (unat all_sends))
      else double_of_nat 0)"

definition single_results :: "u64 \<Rightarrow> u64 \<Rightarrow> int \<Rightarrow> u64 \<times> u64 \<times> u64 \<Rightarrow> ostream \<Rightarrow> ostream" where
  "single_results iterations n_payload elapsed_ns counters =
     (let elapsed_sec = seconds elapsed_ns;
          total_mb = double_divide (double_of_nat (unat (iterations * n_payload * 2))) bytes_per_mb;
          mbps = double_divide total_mb elapsed_sec;
          rps = double_divide (double_of_nat (unat iterations)) elapsed_sec;
          (all_sends, fails, _) = counters
      in emit
        [set_fixed, set_precision 2,
         put_text (''Results:'' @ [newline]),
         put_text ''  Elapsed Time: '', put_double (double_times elapsed_sec (double_of_nat 1000)),
         put_text ('' ms'' @ [newline]),
         put_text ''  Throughput:   '', put_double mbps, put_text ('' MB/s'' @ [newline]),
         put_text ''  Requests/sec: '', put_double rps, put_text ('' RPS'' @ [newline]),
         put_text ''  Total Sends:  '', put_nat (unat all_sends), put_text [newline],
         put_text ''  Failed Sends: '', put_nat (unat fails), put_text ('' (4544)'' @ [newline]),
         put_text ''  Failure Rate: '', put_double (load_fail_rate all_sends fails), put_text (''%'' @ [newline]),
         put_text ''  Status:       '', put_text (load_status fails), put_text [newline]])"

definition RunSingleStreamThroughputTest ::
  "stack_env \<Rightarrow> u64 \<Rightarrow> u64 \<Rightarrow> TcpStack \<Rightarrow> TcpStack list \<Rightarrow> TcpStack list \<Rightarrow> int \<Rightarrow> ostream \<Rightarrow> ostream option" where
  "RunSingleStreamThroughputTest e iterations n_payload setup_found server_found client_found elapsed_ns os =
     (let os = single_banner iterations n_payload os;
          (server_socket, _) = single_setup e setup_found
      in do {
           (client, _) \<leftarrow> single_client_thread e iterations n_payload TcpSocket_new client_found;
           (server, _) \<leftarrow> single_server_thread e iterations n_payload server_socket server_found;
           Some (single_results iterations n_payload elapsed_ns (phase_counters [server, client]) os)
         })"

subsection \<open>Phase two\<close>

definition multi_banner :: "u64 \<Rightarrow> u64 \<Rightarrow> u64 \<Rightarrow> ostream \<Rightarrow> ostream" where
  "multi_banner num_streams iterations_per_stream n_payload = emit
     [put_text ([newline] @ ''======================================================='' @ [newline]),
      put_text ('' [Phase 2] Concurrent Multi-Socket Scaling Test        '' @ [newline]),
      put_text (''======================================================='' @ [newline]),
      put_text ''Concurrent Streams:    '', put_nat (unat num_streams), put_text [newline],
      put_text ''Iterations/Stream:     '', put_nat (unat iterations_per_stream), put_text [newline],
      put_text ''Total Transactions:    '', put_nat (unat (num_streams * iterations_per_stream)), put_text [newline],
      put_text ''Payload Size:          '', put_nat (unat n_payload), put_text ('' bytes'' @ [newline]),
      put_text (''-------------------------------------------------------'' @ [newline])]"

definition multi_results ::
  "u64 \<Rightarrow> u64 \<Rightarrow> u64 \<Rightarrow> int \<Rightarrow> u64 \<times> u64 \<times> u64 \<Rightarrow> ostream \<Rightarrow> ostream" where
  "multi_results num_streams iterations_per_stream n_payload elapsed_ns counters =
     (let elapsed_sec = seconds elapsed_ns;
          (all_sends, fails, total_trans) = counters;
          total_mb = double_divide (double_of_nat (unat (total_trans * n_payload * 2))) bytes_per_mb;
          mbps = double_divide total_mb elapsed_sec;
          rps = double_divide (double_of_nat (unat total_trans)) elapsed_sec
      in emit
        [set_fixed, set_precision 2,
         put_text (''Results:'' @ [newline]),
         put_text ''  Elapsed Time:           '', put_double (double_times elapsed_sec (double_of_nat 1000)),
         put_text ('' ms'' @ [newline]),
         put_text ''  Completed Transactions: '', put_nat (unat total_trans), put_text '' / '',
         put_nat (unat (num_streams * iterations_per_stream)), put_text [newline],
         put_text ''  Aggregate Throughput:   '', put_double mbps, put_text ('' MB/s'' @ [newline]),
         put_text ''  Total Request Rate:     '', put_double rps, put_text ('' RPS'' @ [newline]),
         put_text ''  Total Sends:            '', put_nat (unat all_sends), put_text [newline],
         put_text ''  Failed Sends:           '', put_nat (unat fails), put_text ('' (4544)'' @ [newline]),
         put_text ''  Failure Rate:           '', put_double (load_fail_rate all_sends fails), put_text (''%'' @ [newline]),
         put_text ''  Status:                 '', put_text (load_status fails), put_text [newline],
         put_text (''======================================================='' @ [newline])])"

text \<open>One list of states for every worker.\<close>

definition RunConcurrentMultiSocketTest ::
  "stack_env \<Rightarrow> u64 \<Rightarrow> u64 \<Rightarrow> u64 \<Rightarrow> TcpStack \<Rightarrow> TcpStack list list \<Rightarrow> TcpStack list list \<Rightarrow> int
     \<Rightarrow> ostream \<Rightarrow> ostream option" where
  "RunConcurrentMultiSocketTest e num_streams iterations_per_stream n_payload setup_found server_found client_found
       elapsed_ns os =
     (let os = multi_banner num_streams iterations_per_stream n_payload os;
          (server_socket, _) = multi_setup e setup_found
      in do {
           client_workers \<leftarrow> those (map (multi_client_worker e iterations_per_stream n_payload)
             (take (unat num_streams) client_found));
           server_workers \<leftarrow> those (map (multi_server_worker e iterations_per_stream n_payload server_socket)
             (take (unat num_streams) server_found));
           if length client_workers < unat num_streams \<or> length server_workers < unat num_streams then None
           else Some (multi_results num_streams iterations_per_stream n_payload elapsed_ns
             (phase_counters (map fst server_workers @ map fst client_workers)) os)
         })"

subsection \<open>The program\<close>

definition load_banner :: "ostream \<Rightarrow> ostream" where
  "load_banner = emit
     [put_text (''======================================================='' @ [newline]),
      put_text (''          TinyCP Automated Load Testing Suite          '' @ [newline]),
      put_text (''======================================================='' @ [newline])]"

text \<open>What the other threads and the system contribute to a phase: the state at its setup, the states that its
  servers and clients find, and its duration.\<close>

record 'f phase_run =
  at_setup :: TcpStack
  server_finds :: 'f
  client_finds :: 'f
  phase_ns :: int

definition load_main ::
  "tun_driver \<Rightarrow> stack_env \<Rightarrow> string \<Rightarrow> string list \<Rightarrow> TcpStack list phase_run \<Rightarrow> TcpStack list list phase_run
     \<Rightarrow> ostream \<Rightarrow> (conversion_error + nat \<times> ostream) option" where
  "load_main d e prog args r1 r2 os =
     (case load_args args LoadTestConfig_new of
        Show_usage \<Rightarrow> Some (Inr (0, load_PrintUsage prog os))
      | Throws x \<Rightarrow> Some (Inl x)
      | Run config \<Rightarrow>
          (case TunDevice_new d (Some ''tun0'') of
             None \<Rightarrow> Some (Inr (1, os))
           | Some tun \<Rightarrow>
               (let e = e\<lparr>env_tun := tun\<rparr>;
                    os = load_banner os
                in do {
                     os \<leftarrow> RunSingleStreamThroughputTest e (single_stream_iterations config) (payload_size config)
                       (at_setup r1) (server_finds r1) (client_finds r1) (phase_ns r1) os;
                     os \<leftarrow> RunConcurrentMultiSocketTest e (concurrent_streams config)
                       (concurrent_iterations_per_stream config) (payload_size config)
                       (at_setup r2) (server_finds r2) (client_finds r2) (phase_ns r2) os;
                     Some (Inr (0, os))
                   })))"

subsection \<open>The failure rate\<close>

lemma double_of_nat_exact:
  assumes "n < 2 ^ 53"
  shows "double_of_nat n = Num False (of_nat n)"
  using assms double_of_nat_small(1) [of n] round_magnitude_of_nat [of n] by (cases "n = 0") simp_all

text \<open>While the products stay below \<open>2\<^sup>5\<^sup>3\<close> the only rounding is that of the quotient, so the rate is between 0 and
  100, and it is one of the ends exactly when none or all of the sends count as failed.\<close>

lemma load_fail_rate_bounds:
  assumes "fails \<le> all_sends" and "unat all_sends < 2 ^ 46"
  shows "\<exists>q. load_fail_rate all_sends fails = Num False q \<and> 0 \<le> q \<and> q \<le> 100
    \<and> (fails = 0 \<longrightarrow> q = 0) \<and> (0 < fails \<and> fails = all_sends \<longrightarrow> q = 100)"
proof (cases "all_sends = 0")
  case True
  then show ?thesis using assms(1) double_of_nat_exact [of 0] by (auto simp: load_fail_rate_def)
next
  case False
  define f where "f = unat fails"
  define t where "t = unat all_sends"
  let ?r = "100 * of_nat f / (of_nat t :: rat)"
  have t: "0 < t" "f \<le> t" "t < 2 ^ 46"
    using False assms by (simp_all add: f_def t_def word_le_nat_alt unsigned_eq_0_iff neq0_conv [symmetric] del: neq0_conv)
  then have r: "0 \<le> ?r" "?r \<le> 100" by (simp_all add: divide_le_eq)
  have "double_times (double_of_nat 100) (double_of_nat f) = Num False (100 * of_nat f)"
    using double_of_nat_exact [of "100 * f"] double_of_nat_exact [of f] double_of_nat_exact [of 100] t
    by (simp add: double_of_nat_def)
  then have "load_fail_rate all_sends fails = Num False (round_magnitude ?r)"
    using False t double_of_nat_exact [of t] make_double_small(1) [OF r]
    by (simp add: load_fail_rate_def word_neq_0_conv flip: f_def t_def)
  moreover have "round_magnitude ?r = 100" if "fails = all_sends"
  proof -
    have "f = t" using that by (simp add: f_def t_def)
    then show ?thesis using t(1) round_magnitude_of_nat [of 100] by simp
  qed
  ultimately show ?thesis using make_double_small(2,3) [OF r] by (intro exI [of _ "round_magnitude ?r"]) (auto simp: f_def)
qed

text \<open>No thread counts more failures than sends.\<close>

lemma single_server_counts_le:
  "single_server k payload m i c found = Some (c', rest) \<Longrightarrow> failed_sends c \<le> total_sends c
     \<Longrightarrow> failed_sends c' \<le> total_sends c' \<and> total_sends c' \<le> total_sends c + i"
proof (induction i arbitrary: c found)
  case (Suc i)
  then show ?case by (fastforce simp: bind_eq_Some_conv Let_def split: prod.splits if_splits)
qed simp

lemma single_client_counts_le:
  "single_client k payload m i c found = Some (c', rest) \<Longrightarrow> failed_sends c \<le> total_sends c
     \<Longrightarrow> failed_sends c' \<le> total_sends c' \<and> total_sends c' \<le> total_sends c + i"
proof (induction i arbitrary: c found)
  case (Suc i)
  then show ?case by (fastforce simp: bind_eq_Some_conv Let_def split: prod.splits if_splits)
qed simp

lemma phase_one_counters:
  assumes "single_client_thread e iterations n_payload sock client_found = Some (client, s)"
    and "single_server_thread e iterations n_payload sock' server_found = Some (server, s')"
  shows "failed_sends server + failed_sends client \<le> total_sends server + total_sends client"
    and "total_sends server + total_sends client \<le> 2 * unat iterations"
proof -
  have c: "failed_sends client \<le> total_sends client \<and> total_sends client \<le> unat iterations"
    using assms(1) by (auto simp: single_client_thread_def bind_eq_Some_conv load_counters_new_def
        dest!: single_client_counts_le split: prod.splits)
  have "failed_sends server \<le> total_sends server \<and> total_sends server \<le> unat iterations"
    using assms(2) by (auto simp: single_server_thread_def bind_eq_Some_conv load_counters_new_def
        dest!: single_server_counts_le split: prod.splits)
  with c show "failed_sends server + failed_sends client \<le> total_sends server + total_sends client"
    and "total_sends server + total_sends client \<le> 2 * unat iterations" by simp_all
qed

text \<open>With fewer than \<open>2\<^sup>4\<^sup>4\<close> iterations, the first phase prints a failure rate that is a number between 0 and 100
  when it ends.\<close>

lemma single_results_rate:
  assumes "RunSingleStreamThroughputTest e iterations n_payload setup_found server_found client_found ns os = Some os'"
    and "unat iterations < 2 ^ 44"
  shows "\<exists>all_sends fails done q. os' = single_results iterations n_payload ns (all_sends, fails, done)
      (single_banner iterations n_payload os)
    \<and> load_fail_rate all_sends fails = Num False q \<and> 0 \<le> q \<and> q \<le> 100"
proof -
  obtain sock s1 where sock: "single_setup e setup_found = (sock, s1)" by (cases "single_setup e setup_found")
  obtain client server s s' where r:
      "single_client_thread e iterations n_payload TcpSocket_new client_found = Some (client, s)"
      "single_server_thread e iterations n_payload sock server_found = Some (server, s')"
      "os' = single_results iterations n_payload ns (phase_counters [server, client]) (single_banner iterations n_payload os)"
    using assms(1) by (fastforce simp: RunSingleStreamThroughputTest_def sock bind_eq_Some_conv split: prod.splits)
  let ?t = "total_sends server + total_sends client" and ?f = "failed_sends server + failed_sends client"
  have le: "?f \<le> ?t" "?t < 2 ^ 46" using phase_one_counters [OF r(1,2)] assms(2) by simp_all
  then have u: "unat (of_nat ?t :: u64) = ?t" "unat (of_nat ?f :: u64) = ?f"
    by (simp_all add: unsigned_of_nat take_bit_nat_eq_self del: of_nat_add)
  have "(of_nat ?f :: u64) \<le> of_nat ?t" "unat (of_nat ?t :: u64) < 2 ^ 46"
    using le unfolding word_le_nat_alt u by simp_all
  from load_fail_rate_bounds [OF this] show ?thesis
    unfolding r(3) phase_counters_def by fastforce
qed

text \<open>The exit code says nothing about the results: it is 0 whenever both phases end, whatever they printed.\<close>

lemma load_main_exit_code:
  assumes "load_main d e prog args r1 r2 os = Some (Inr (code, os'))"
    and "load_args args LoadTestConfig_new = Run config"
  shows "code = (if TunDevice_new d (Some ''tun0'') = None then 1 else 0)"
  using assms by (auto simp: load_main_def Let_def bind_eq_Some_conv split: option.splits)

end
