(* ===== verification/Demo_Program.thy ===== *)
theory Demo_Program
  imports Application_Calls
begin

text \<open>
  \<^verbatim>\<open>main.cpp\<close>: the demonstration. It binds two sockets, registers the connection between them in both
  directions, and passes a message from one to the other in a loop, without the calls that open a
  connection.

  The states of the stack while the program runs (\<open>demo_run\<close>) come from the setup by sends on the
  first socket and by iterations of the daemon in which the TUN device delivers nothing. The lemmas
  show that the second socket never receives anything in these states.
\<close>

definition demo_addr_a :: IPv4Address where
  "demo_addr_a = IPv4Address_from_string ''10.0.0.2:8080''"

definition demo_addr_b :: IPv4Address where
  "demo_addr_b = IPv4Address_from_string ''10.0.0.3:9090''"

definition demo_setup :: "stack_env \<Rightarrow> TcpStack \<Rightarrow> TcpSocket \<times> TcpSocket \<times> TcpStack" where
  "demo_setup e s =
     (let (socket_a, s) = TcpSocket_bind e demo_addr_a TcpSocket_new s;
          (socket_b, s) = TcpSocket_bind e demo_addr_b TcpSocket_new s;
          (_, s) = register_connection e demo_addr_a demo_addr_b (sock_id socket_a) s;
          (_, s) = register_connection e demo_addr_b demo_addr_a (sock_id socket_b) s
      in (socket_a, socket_b, s))"

text \<open>The message is sent with its terminating zero.\<close>

definition demo_message :: bytes where
  "demo_message = bytes_of_chars ''Hello from Socket A via automatic TcpStack dirty blocks!'' @ [0]"

definition kIterations :: nat where
  "kIterations = 100000"

fun demo_loop :: "TcpSocket \<Rightarrow> TcpSocket \<Rightarrow> nat \<Rightarrow> TcpStack list \<Rightarrow> TcpStack list option" where
  "demo_loop socket_a socket_b 0 found = Some found"
| "demo_loop socket_a socket_b (Suc n) found = do {
     (_, _, found) \<leftarrow> await_send socket_a demo_message found;
     (_, _, found) \<leftarrow> await_recv socket_b 128 found;
     demo_loop socket_a socket_b n found
   }"

text \<open>The program, on the states \<open>found\<close> that its calls find after the setup; \<open>None\<close> is a run that has not ended. The
  elapsed time is an argument.\<close>

definition demo_main ::
  "tun_driver \<Rightarrow> stack_env \<Rightarrow> TcpStack list \<Rightarrow> nat \<Rightarrow> ostream \<Rightarrow> (nat \<times> ostream) option" where
  "demo_main d e found elapsed os =
     (case TunDevice_new d (Some ''tun0'') of
        None \<Rightarrow> Some (1, os)
      | Some tun \<Rightarrow>
          (let (socket_a, socket_b, _) = demo_setup (e\<lparr>env_tun := tun\<rparr>) TcpStack_new;
               os = emit
                 [put_text (''Socket A (10.0.0.2:8080) <---> Socket B (10.0.0.3:9090) initialized.'' @ [newline]),
                  put_text ([newline] @ ''Starting workload loop (''), put_nat kIterations,
                  put_text ('' iterations)...'' @ [newline])] os
           in do {
                _ \<leftarrow> demo_loop socket_a socket_b kIterations found;
                Some (0, emit [put_text ''Completed '', put_nat kIterations, put_text '' iterations in '', put_nat elapsed,
                  put_text ('' ms.'' @ [newline])] os)
              }))"

inductive demo_run :: "stack_env \<Rightarrow> TcpSocket \<Rightarrow> TcpStack \<Rightarrow> TcpStack \<Rightarrow> bool"
  for e :: stack_env and socket_a :: TcpSocket and s :: TcpStack where
  Setup: "demo_run e socket_a s s"
| Send: "demo_run e socket_a s s1 \<Longrightarrow> TcpSocket_send socket_a data s1 = Returns n s2 \<Longrightarrow> demo_run e socket_a s s2"
| Daemon: "demo_run e socket_a s s1 \<Longrightarrow> lifecycle_iteration e [] s1 = Returns u s2 \<Longrightarrow> demo_run e socket_a s s2"

subsection \<open>Nothing arrives\<close>

text \<open>All blocks are closed, no datagram is on its way, and one socket has received nothing.\<close>

definition demo_idle :: "socket_id \<Rightarrow> TcpStack \<Rightarrow> bool" where
  "demo_idle i s \<longleftrightarrow> loopback_packet_queue s = [] \<and> tun_output s = []
     \<and> (\<forall>(j, t) \<in> set (sockets (socket_table s)). current_state t = CLOSED)
     \<and> (\<exists>t. get_tcb s i = Some t \<and> TCB_inv t \<and> recv_stream t = [] \<and> \<not> is_forcefully_woken_up (recv_buffer t))"

lemma demo_idle_blocks:
  assumes "demo_idle (sock_id k) s"
  shows "TcpSocket_recv k m s = Blocks s"
proof -
  obtain t where t: "get_tcb s (sock_id k) = Some t" "BlockingBuffer_inv MAX_IPV4_PACKET_SIZE (recv_buffer t)"
      "recv_stream t = []" "\<not> is_forcefully_woken_up (recv_buffer t)"
    using assms by (auto simp: demo_idle_def TCB_inv_def)
  then show ?thesis using rb.rd_blocks [OF t(2), of m] by (simp add: TcpSocket_recv_def)
qed

lemma get_tcb_in_sockets: "get_tcb s i = Some t \<Longrightarrow> (i, t) \<in> set (sockets (socket_table s))"
  by (auto simp: get_tcb_def SocketTable_find_socket_def split: if_splits dest: map_of_SomeD)

lemma set_update_subset: "set (AList.update k v al) \<subseteq> insert (k, v) (set al)"
  by (induction al) auto

lemma demo_idle_modify:
  assumes "demo_idle i s" and "\<And>t. current_state (f t) = current_state t" and "\<And>t. recv_buffer (f t) = recv_buffer t"
    and "\<And>t. get_tcb s j = Some t \<Longrightarrow> TCB_inv t \<Longrightarrow> TCB_inv (f t)"
  shows "demo_idle i (modify_tcb j f s)"
proof (cases "get_tcb s j")
  case None
  then show ?thesis using assms(1) by (simp add: modify_tcb_def SocketTable_modify_def get_tcb_def)
next
  case (Some t)
  then have "sockets (socket_table (modify_tcb j f s)) = AList.update j (f t) (sockets (socket_table s))"
    by (simp add: modify_tcb_def SocketTable_modify_def get_tcb_def)
  moreover have "current_state t = CLOSED" using assms(1) get_tcb_in_sockets [OF Some] by (auto simp: demo_idle_def)
  ultimately show ?thesis
    using assms Some set_update_subset [of j "f t" "sockets (socket_table s)"]
    by (auto simp: demo_idle_def)
qed

lemma demo_idle_frame:
  assumes "demo_idle i s"
  shows "demo_idle i (s\<lparr>clock_reads := n\<rparr>)" "demo_idle i (s\<lparr>dirty_socket_ids := ids\<rparr>)"
    "demo_idle i (s\<lparr>loopback_packet_queue := []\<rparr>)" "demo_idle i (add_dirty_tcb j s)"
  using assms by (simp_all add: demo_idle_def add_dirty_tcb_def)

lemma demo_idle_process_block:
  assumes "demo_idle i s"
  shows "demo_idle i (process_block e j s)"
proof (cases "get_tcb s j")
  case (Some t)
  then have "current_state t = CLOSED" using assms get_tcb_in_sockets by (fastforce simp: demo_idle_def)
  with Some have "process_block e j s =
      modify_tcb j (\<lambda>t. t\<lparr>last_written := env_now e (clock_reads s)\<rparr>) (s\<lparr>clock_reads := clock_reads s + 1\<rparr>)"
    by (simp add: process_block_def system_clock_now_def)
  then show ?thesis
    using assms by (auto intro!: demo_idle_modify demo_idle_frame simp: TCB_inv_def)
qed (use assms in \<open>simp add: process_block_def\<close>)

lemma demo_idle_process_dirty: "demo_idle i s \<Longrightarrow> demo_idle i (process_dirty_blocks e s)"
proof -
  have "demo_idle i (fold (process_block e) ids s)" if "demo_idle i s" for ids s
    using that by (induction ids arbitrary: s) (simp_all add: demo_idle_process_block)
  then show "demo_idle i s \<Longrightarrow> demo_idle i (process_dirty_blocks e s)"
    by (simp add: process_dirty_blocks_def demo_idle_frame)
qed

lemma demo_idle_check_retransmissions:
  assumes "demo_idle i s"
  shows "demo_idle i (check_retransmissions e s)"
proof -
  have "fold (\<lambda>(j, t). retransmit_block e now j t) xs s' = s'"
    if "\<forall>(j, t) \<in> set xs. current_state t = CLOSED" for now xs s'
    using that by (induction xs) (auto simp: retransmit_block_def)
  then show ?thesis
    using assms by (simp add: check_retransmissions_def system_clock_now_def SocketTable_for_each_socket_def
        demo_idle_def)
qed

lemma demo_idle_lifecycle:
  assumes "demo_idle i s" and "lifecycle_iteration e [] s = Returns u s'"
  shows "demo_idle i s'"
proof -
  define s1 where "s1 = (if dirty_socket_ids s \<noteq> [] then process_dirty_blocks e s else s)"
  have "demo_idle i s1" using assms(1) by (simp add: s1_def demo_idle_process_dirty)
  moreover from this have "lifecycle_iteration e [] s = Returns () (check_retransmissions e (s1\<lparr>loopback_packet_queue := []\<rparr>))"
    by (simp add: lifecycle_iteration_def s1_def [symmetric] demo_idle_def [of i s1])
  ultimately show ?thesis
    using assms(2) by (auto intro!: demo_idle_check_retransmissions demo_idle_frame(3))
qed

lemma demo_idle_send:
  assumes "demo_idle i s" and "TcpSocket_send k data s = Returns n s'"
  shows "demo_idle i s'"
proof (cases "get_tcb s (sock_id k)")
  case (Some t)
  then obtain buf where buf: "BlockingBuffer_write MAX_IPV4_PACKET_SIZE (send_buffer t) data = Some (buf, n)"
      "s' = add_dirty_tcb (sock_id k) (modify_tcb (sock_id k) (\<lambda>t. t\<lparr>send_buffer := buf\<rparr>) s)"
    using assms(2) by (auto simp: TcpSocket_send_def Let_def split: option.splits)
  then have "TCB_inv u \<Longrightarrow> TCB_inv (u\<lparr>send_buffer := buf\<rparr>)" if "get_tcb s (sock_id k) = Some u" for u
    using that Some rb.wr_seq [OF _ buf(1)] by (simp add: TCB_inv_def)
  then show ?thesis
    unfolding buf(2) using assms(1) by (intro demo_idle_frame(4) demo_idle_modify) simp_all
qed (use assms in \<open>simp add: TcpSocket_send_def\<close>)

lemma demo_idle_run: "demo_run e socket_a s s' \<Longrightarrow> demo_idle i s \<Longrightarrow> demo_idle i s'"
  by (induction rule: demo_run.induct) (auto dest: demo_idle_send demo_idle_lifecycle)

lemma demo_addrs:
  "demo_addr_a = \<lparr>address = 0x0A000002, port = 8080\<rparr>" "demo_addr_b = \<lparr>address = 0x0A000003, port = 9090\<rparr>"
  by (simp_all add: demo_addr_a_def demo_addr_b_def from_string_eval)

lemma not_woken_new: "\<not> is_forcefully_woken_up (BlockingBuffer_new f)"
  by (simp add: BlockingBuffer_new_def)

lemma demo_setup_idle:
  "\<exists>s. demo_setup e TcpStack_new = (\<lparr>sock_id = 1\<rparr>, \<lparr>sock_id = 2\<rparr>, s) \<and> demo_idle 2 s"
  by (simp add: demo_setup_def demo_addrs TcpSocket_bind_def bind_socket_def ListenerTable_bind_new_def
      SocketTable_create_socket_def TcpStack_new_def SocketTable_new_def TcpSocket_new_def get_tcb_def
      SocketTable_find_socket_def generate_random_uint32_def modify_tcb_def SocketTable_modify_def
      register_connection_def ConnectionTable_register_connection_def SocketTable_contains_def demo_idle_def
      TCB_inv_def TCB_new_def MAX_IPV4_PACKET_SIZE_def not_woken_new Let_def)

text \<open>The demonstration never gets past its first receive. In every state that sends on the first
  socket and iterations of the daemon can lead to, while the TUN device delivers nothing, a receive on the second
  socket blocks, and not one datagram has been produced: the two sockets were registered but never
  opened, and the daemon does not send from a block that is closed. So the loop over 100000 messages does not
  end.\<close>

theorem demo_never_receives:
  assumes "TunDevice_new d (Some ''tun0'') = Some tun"
    and "demo_setup (e\<lparr>env_tun := tun\<rparr>) TcpStack_new = (socket_a, socket_b, s)"
    and "\<forall>s' \<in> set found. demo_run (e\<lparr>env_tun := tun\<rparr>) socket_a s s'"
  shows "demo_main d e found ms os = None
    \<and> (\<forall>s' \<in> set found. TcpSocket_recv socket_b m s' = Blocks s' \<and> tun_output s' = [] \<and> loopback_packet_queue s' = [])"
proof -
  have idle: "demo_idle (sock_id socket_b) s'" if "s' \<in> set found" for s'
    using demo_setup_idle [of "e\<lparr>env_tun := tun\<rparr>"] demo_idle_run assms that by fastforce
  have "await_recv socket_b 128 rest = None" if "set rest \<subseteq> set found" for rest
    using that by (induction rest) (simp_all add: demo_idle_blocks [OF idle])
  then have "demo_loop socket_a socket_b (Suc n) found = None" for n
    by (auto dest: await_send_suffix split: bind_splits)
  moreover have "kIterations = Suc 99999" by (simp add: kIterations_def)
  ultimately have "demo_loop socket_a socket_b kIterations found = None" by metis
  then show ?thesis using assms(1,2) idle demo_idle_blocks by (simp add: demo_main_def demo_idle_def)
qed

theorem demo_never_receives_witness:
  "\<exists>s. demo_main \<lparr>os_open = 3, os_tunsetiff = (\<lambda>_ nm. (0, nm))\<rparr> example_env [s, s] 0 os_new = None"
proof -
  let ?d = "\<lparr>os_open = 3, os_tunsetiff = (\<lambda>_ nm. (0, nm))\<rparr>" and ?tun = "\<lparr>fd = 3, name = ''tun0''\<rparr>"
  have d: "TunDevice_new ?d (Some ''tun0'') = Some ?tun" by (simp add: TunDevice_new_def TunDevice_tun_alloc_def)
  obtain s where s: "demo_setup (example_env\<lparr>env_tun := ?tun\<rparr>) TcpStack_new = (\<lparr>sock_id = 1\<rparr>, \<lparr>sock_id = 2\<rparr>, s)"
    using demo_setup_idle by blast
  then show ?thesis using demo_never_receives [OF d s, of "[s, s]"] demo_run.Setup by auto
qed

end
