(* ===== verification/Spec2Isabelle.thy ===== *)
theory Spec2Isabelle
  imports Stream_Transfer Connection_Life Tcp_Divergences Loss_Recovery Hash_Tables Buffer_Steps Buffer_Monitor Lock_Order State_Waits Log_Output Packet_Dump Http_Client
    Benchmark_Report Load_Report Demo_Program
begin

text \<open>
  TinyCP is a user-space TCP/IP stack in C++. An application holds \<^verbatim>\<open>TcpSocket\<close> objects, each of
  which is the id of a transmission control block in the stack. A daemon thread runs
  \<^verbatim>\<open>TcpStack::lifecycle_\<close>: it sends what the blocks have queued, processes the datagrams of the
  loopback queue and of the TUN device, and retransmits. The application thread and the daemon share
  the control blocks; the two byte streams of a connection are ring buffers with blocking reads and
  writes. Around the stack there are a logger, a program that dumps captured packets, and four
  programs that use the socket interface.

  \<^bold>\<open>Theories and the code they model.\<close>

  \<^item> \<open>TinyCP_Prelude\<close>: words of 8, 16, 32 and 64 bits, byte order conversions, bit masks, lists.
  \<^item> \<open>Checksum\<close>: \<^verbatim>\<open>utils/Checksum.{h,cpp}\<close>, with the 32-bit accumulator and its carry folding.
  \<^item> \<open>Text_Streams\<close>, \<open>IPv4_Address\<close>: \<^verbatim>\<open>IPv4.h\<close> and the stream extraction that
    \<^verbatim>\<open>IPv4Address::from_string\<close> uses.
  \<^item> \<open>IPv4_Packet\<close>, \<open>Tcp_Packet\<close>: \<^verbatim>\<open>IPv4Packet.{h,cpp}\<close>, \<^verbatim>\<open>IPv4PacketView.h\<close>, \<^verbatim>\<open>TcpPacket.{h,cpp}\<close>,
    \<^verbatim>\<open>TcpPacketView.h\<close>. A header is a record whose fields are in network order, as in the packed
    structs; a view reads the bytes of a received packet.
  \<^item> \<open>Blocking_Buffer\<close>: \<^verbatim>\<open>BlockingBuffer.h\<close>, a ring over an array with read and write positions. \<open>Buffer_Steps\<close>: the single
    statements of its critical sections, run by any number of threads in any interleaving. \<open>Buffer_Monitor\<close>: its
    mutex and condition variables, with the notifications, any number of calling threads and a scheduler.
  \<^item> \<open>Transmission_Control_Block\<close>: \<^verbatim>\<open>TransmissionControlBlock.h\<close>.
  \<^item> \<open>Socket_Table\<close>, \<open>Routing_Tables\<close>: \<^verbatim>\<open>SocketTable.{h,cpp}\<close>, \<^verbatim>\<open>ListenerTable.{h,cpp}\<close>,
    \<^verbatim>\<open>ConnectionTable.{h,cpp}\<close>. The unordered maps are association lists.
  \<^item> \<open>Hash_Tables\<close>: the comparison and the hash of \<^verbatim>\<open>ConnectionTable::ConnectionKey\<close>, and the operations of the connection
    table on the buckets of an \<^verbatim>\<open>unordered_map\<close>; \<^verbatim>\<open>std::hash\<close> is an argument.
  \<^item> \<open>Tun_Device\<close>: \<^verbatim>\<open>TunDevice.{h,cpp}\<close>; the answers of the operating system and of the driver are
    arguments.
  \<^item> \<open>Tcp_Stack\<close>: \<^verbatim>\<open>TcpStack.{h,cpp}\<close>, one definition per member function, from \<^verbatim>\<open>write_packet_\<close> to
    \<^verbatim>\<open>lifecycle_\<close>. The record \<open>TcpStack\<close> holds the three tables, the queue of dirty sockets, the
    loopback queue, the output to the TUN device, and counters into the clock and the random numbers,
    which come from the record \<open>stack_env\<close>. A handler that can wait returns an \<open>outcome\<close>: \<open>Returns\<close>,
    \<open>Blocks\<close> with the state at the wait, or \<open>Undefined\<close> for undefined behaviour of the C++ code.
  \<^item> \<open>Tcp_Socket\<close>: \<^verbatim>\<open>TcpSocket.{h,cpp}\<close>, and the relation \<open>stack_step\<close> that interleaves application
    calls, daemon operations and arbitrary arriving datagrams.
  \<^item> \<open>Lock_Order\<close>: the mutexes of the tables, the control blocks, the queues of the stack and the logger, as the critical
    sections that every operation goes through, nested as in the code. \<open>State_Waits\<close>: \<^verbatim>\<open>state_mutex\<close> and \<^verbatim>\<open>state_cv\<close> of a control
    block, with the threads in \<^verbatim>\<open>connect\<close> and \<^verbatim>\<open>accept\<close> and those that change the block.
  \<^item> \<open>Loss_Recovery\<close>: the hooks of the testing build in \<^verbatim>\<open>TcpStack.{h,cpp}\<close>.
  \<^item> \<open>Output_Streams\<close>, \<open>Header_Dump\<close>, \<open>Packet_Dump\<close>, \<open>Log_Output\<close>: what is used of \<^verbatim>\<open>std::ostream\<close>, the stream
    operators of \<^verbatim>\<open>IPv4Packet.cpp\<close> and \<^verbatim>\<open>TcpPacket.cpp\<close>, \<^verbatim>\<open>PacketDump.cpp\<close>, and \<^verbatim>\<open>utils/Logger.{h,cpp}\<close>. A stream is
    its text and its format state; the objects behind a log statement are constructed, moved and
    destroyed explicitly.
  \<^item> \<open>Application_Calls\<close>, \<open>Http_Client\<close>, \<open>Throughput_Benchmark\<close>, \<open>Load_Test\<close>, \<open>Demo_Program\<close>: \<^verbatim>\<open>http_client.cpp\<close>,
    \<^verbatim>\<open>throughput_benchmark.cpp\<close>, \<^verbatim>\<open>load_test.cpp\<close> and \<^verbatim>\<open>main.cpp\<close>. A thread of such a program is a function of the
    states of the stack that its calls find, one for every attempt; \<open>None\<close> means that it is still waiting.
  \<^item> \<open>Double_Numbers\<close>, \<open>Benchmark_Report\<close>, \<open>Load_Report\<close>: the displays and the \<^verbatim>\<open>main\<close> functions of the benchmark and of
    the load test. A \<^verbatim>\<open>double\<close> is a rational number of the IEEE 754 format, an infinity or not a number; every
    operation rounds to the nearest number, ties to even.

  \<^bold>\<open>What the lemmas show.\<close>

  \<^item> Packets: a written packet parses back to its fields and verifies against its checksum; the setters
    of packed fields are independent; the checksum of the split TCP computation is the one's
    complement checksum of pseudo-header, header and payload; the condition under which
    \<^verbatim>\<open>IPv4Packet::write\<close> leaves its buffer.
  \<^item> Containers: the locale \<open>stream_buffer\<close> states what the TCP code needs of a byte buffer and the ring
    buffer is an instance; the locales of \<open>Socket_Table\<close> and \<open>Routing_Tables\<close> do the same for the owner
    of the blocks and for the two tables that route a segment to its block. The locale \<open>hashing\<close> is what a
    hash table asks of its keys; with it the connection table on buckets refines the table of bindings.
  \<^item> Synchronisation of the buffers: the mutex makes the sections atomic, so that calls of several threads have the results of the
    same calls one after the other; no notification is lost between one reader and one writer, and the forced wake-up at the end of a stream can be lost.
  \<^item> Synchronisation of the stack: the locale \<open>ranked_calls\<close> gives freedom from circular waits for mutexes to calls that take their locks in the order of
    a rank and hold none over a sleep, and the calls of the stack are an instance; whether a sleeper is woken is a question of its own:
    no notification of a control block is lost, and \<^verbatim>\<open>connect\<close> can miss a
    connection that the peer closes at once.
  \<^item> Output (\<open>Tcp_Output\<close>): every send of the stack is a well-formed datagram, and its arrival at a peer
    is the processing of exactly that segment.
  \<^item> Invariants (\<open>Tcp_Invariants\<close>): every operation is a sequence of primitive steps (\<open>micro\<close>); an
    invariant of the primitive steps (locale \<open>stack_invariant\<close>) holds in all reachable states.
  \<^item> State machine (\<open>Tcp_Transitions\<close>): the state changes that a received datagram causes are transitions of
    RFC 793, where \<^verbatim>\<open>TIME_WAIT\<close> is collapsed into \<^verbatim>\<open>CLOSED\<close>.
  \<^item> Data transfer (\<open>Tcp_Sender\<close>, \<open>Tcp_Transfer\<close>, \<open>Stream_Transfer\<close>): the sliding window, segmentation,
    acknowledgements, retransmission, one segment between two stacks, and whole streams between two
    applications; \<open>Loss_Recovery\<close>: segments lost on the way, and peers that have lost the connection.
  \<^item> Pipelining (\<open>Byte_Flow\<close>, \<open>Pipelined_Transfer\<close>, \<open>Window_Halt\<close>): a network of two stacks and two paths that keep the
    order, as a step relation over sends, receives, passes of the daemons and arrivals. For every schedule and
    any number of segments under way, the invariant \<open>flow\<close> ties the sequence numbers, the buffers and the segments on
    the paths to positions in the streams; it gives in-order delivery, the condition under which a transfer
    halts, and that a closed window never opens again. The paths lose and duplicate
    nothing, passes of the retransmission are steps as long as the timer of the connection has not expired, and nobody closes.
    A segment that is sent again is the subject of \<open>Loss_Recovery\<close>, where the first copy is lost, and of \<open>Tcp_Divergences\<close>, where
    both arrive and the data is stored twice.
  \<^item> Connections (\<open>Tcp_Scenarios\<close>, \<open>Socket_Calls\<close>, \<open>Tcp_Closing\<close>): the three-way handshake, the
    application calls, the orderly release. \<open>Connection_Life\<close> joins the opening calls, the handshake and the
    streams.
  \<^item> Output of text: a header can be recovered from its dump, a capture of written datagrams is dumped
    completely, the exact condition under which the dump of a file ends, and every log statement
    prints once.
  \<^item> Programs: the HTTP client prints the whole response; what the exit code of the benchmark says of the two streams, what the
    counters of the load test are about, and inputs that defeat them; how exact the printed progress is; the
    demonstration blocks for ever.
  \<^item> Departures from RFC 793 and from the documentation (\<open>Tcp_Divergences\<close>), as theorems.

  \<^bold>\<open>Bounds.\<close> The buffers hold 65535 bytes and a segment at most 1460, as in the source; sequence numbers
  are 32-bit words and offsets into a buffer are differences modulo \<open>2\<^sup>3\<^sup>2\<close>. The loop of the ephemeral
  ports makes 16384 attempts, as in the source, which \<open>Socket_Calls\<close> shows to be enough. Loops over
  queues recurse over lists; the daemon's endless loop is a recursion over the rounds of device events,
  so every claim about it holds for every number of rounds. There is no other fuel. The loop over a capture file need not end and is a
  \<^verbatim>\<open>partial_function\<close> into \<open>option\<close>; the loops of the programs recurse over the states they find, and the
  theorems that they return say how many states are enough.

  \<^bold>\<open>Not modelled.\<close> The log lines inside the stack, which change nothing of its state. The header \<^verbatim>\<open>Platform.h\<close> and the
  branches for Windows. The sign of a \<^verbatim>\<open>double\<close> that is not a number. Data races: in \<open>Tcp_Socket\<close> and the theories
  on it, operations of two threads on the stack interleave whole, except that a wait inside an operation is a point where other
  threads run; the finer steps of \<open>Buffer_Steps\<close>, \<open>Buffer_Monitor\<close>, \<open>Lock_Order\<close> and \<open>State_Waits\<close> are those of one buffer, of the locks and of
  one control block that stays in its table.
\<close>

text \<open>C1. A stream from application to application. Over an idle established connection between two
  stacks, a \<^verbatim>\<open>send\<close> of up to 65535 bytes accepts all of them, and rounds of segment, acknowledgement and
  \<^verbatim>\<open>recv\<close> exist that hand exactly these bytes, in order and without loss or duplication, to the receiving
  application. Afterwards the send buffer is empty, the sequence number has advanced by the number of
  bytes, and the connection is idle again, so that the next \<^verbatim>\<open>send\<close> can follow.\<close>

theorem stream_delivered:
  assumes "idle_pair (sock_id k) j a b sA t sB u" and "send_stream t = []" and "length data \<le> 65535"
  shows "\<exists>sA0 sA' t' sB' u'. TcpSocket_send k data sA = Returns (length data) sA0
    \<and> stream_run ea eb (sock_id k) j a b sA0 sB data sA' sB'
    \<and> idle_pair (sock_id k) j a b sA' t' sB' u' \<and> send_stream t' = []
    \<and> SND_NXT t' = SND_NXT t + of_nat (length data)"
proof -
  have c: "Tcp_Closing.connected sA (sock_id k) t a b" and inv: "TCB_inv t"
    using assms(1) by (simp_all add: idle_pair_def sender_ok_def)
  have "get_tcb sA (sock_id k) = Some t" using c by (simp add: Tcp_Closing.connected_def)
  moreover have "length (send_stream t) < 65535" using assms(2) by (simp only: list.size)
  ultimately obtain sA0 buf where s: "TcpSocket_send k data sA = Returns (length data) sA0"
      "get_tcb sA0 = (get_tcb sA)(sock_id k \<mapsto> t\<lparr>send_buffer := buf\<rparr>)"
      "BlockingBuffer_inv MAX_IPV4_PACKET_SIZE buf" "contents MAX_IPV4_PACKET_SIZE buf = data"
      "connection_table sA0 = connection_table sA"
    using send_returns [of sA k t data] inv assms(2,3) by (auto simp del: length_contents)
  have "Tcp_Closing.connected sA0 (sock_id k) (t\<lparr>send_buffer := buf\<rparr>) a b"
    using s by (intro Tcp_Closing.connectedI [OF c]) simp_all
  then have "idle_pair (sock_id k) j a b sA0 (t\<lparr>send_buffer := buf\<rparr>) sB u"
    using assms(1) s by (simp add: idle_pair_def sender_ok_def TCB_inv_def in_flight_def)
  from stream_rounds [OF this, of ea eb] show ?thesis
    using s(1,4) by simp
qed

theorem stream_delivered_witness:
  "\<exists>sA0 sA' sB'. TcpSocket_send \<lparr>sock_id = 1\<rparr> (replicate 5000 42) (example_conn (example_block [])) =
       Returns 5000 sA0
     \<and> stream_run example_env example_env 1 1 \<lparr>address = 0x0A000002, port = 80\<rparr>
         \<lparr>address = 0x0A000003, port = 5000\<rparr> sA0 (example_conn example_peer) (replicate 5000 42) sA' sB'"
proof -
  have "idle_pair (sock_id \<lparr>sock_id = 1\<rparr>) 1 \<lparr>address = 0x0A000002, port = 80\<rparr>
      \<lparr>address = 0x0A000003, port = 5000\<rparr> (example_conn (example_block [])) (example_block [])
      (example_conn example_peer) example_peer"
    using connected_example by (simp add: idle_pair_def)
  from stream_delivered [OF this, of "replicate 5000 42" example_env example_env] show ?thesis
    by auto
qed

end
